(* ===== verification/Prelude.thy ===== *)
theory Prelude
  imports Main "HOL-Library.Word" "HOL-Library.Sublist"
begin

text \<open>
  What every component shares: the fact collections the component proofs draw on, generic
  lemmas on lists and keyed rows, and the Go data types that carry no component state
  (durations and instants in nanoseconds, 64-bit integers, random bytes).
\<close>

named_theorems prog_simps \<open>unfolding the program combinators on a known outcome\<close>
named_theorems sql_simps \<open>what one SQL statement does to the tables\<close>
named_theorems frame_intros \<open>programs that stay inside a relation between worlds\<close>

subsection \<open>Go values\<close>

text \<open>An instant and a \<open>time.Duration\<close>, both counted in nanoseconds.\<close>

type_synonym time = int
type_synonym duration = int
type_synonym byte = "8 word"

abbreviation Second :: duration where "Second \<equiv> 1000000000"
abbreviation Minute :: duration where "Minute \<equiv> 60 * Second"
abbreviation Hour :: duration where "Hour \<equiv> 60 * Minute"

abbreviation MaxInt64 :: int where "MaxInt64 \<equiv> 9223372036854775807"
abbreviation MinInt64 :: int where "MinInt64 \<equiv> - 9223372036854775808"

text \<open>\<open>time.Time.Sub\<close> saturates at the ends of the 64-bit range.\<close>

definition time_Sub :: "time \<Rightarrow> time \<Rightarrow> duration" where
  "time_Sub t u = max MinInt64 (min MaxInt64 (t - u))"

text \<open>The value of a Go \<open>int64\<close> after an arithmetic operation: two's complement wrap-around.\<close>

definition wrap64 :: "int \<Rightarrow> int" where
  "wrap64 x = (x + 2 ^ 63) mod 2 ^ 64 - 2 ^ 63"

lemma wrap64_id: "MinInt64 \<le> x \<Longrightarrow> x \<le> MaxInt64 \<Longrightarrow> wrap64 x = x"
  by (simp add: wrap64_def)

lemma wrap64_range: "MinInt64 \<le> wrap64 x \<and> wrap64 x \<le> MaxInt64"
proof -
  have "0 \<le> (x + 2 ^ 63) mod 2 ^ 64" "(x + 2 ^ 63) mod 2 ^ 64 < 2 ^ 64" by simp_all
  then show ?thesis by (simp add: wrap64_def)
qed

lemma time_Sub_less:
  "MinInt64 < d \<Longrightarrow> d \<le> MaxInt64 \<Longrightarrow> time_Sub t u < d \<longleftrightarrow> t - u < d"
  by (auto simp: time_Sub_def)

subsection \<open>Rows of a table\<close>

lemma find_eq_hd_filter:
  "find P xs = (case filter P xs of [] \<Rightarrow> None | x # _ \<Rightarrow> Some x)"
  by (induction xs) auto

lemma filter_Nil_find: "filter P xs = [] \<longleftrightarrow> find P xs = None"
  by (induction xs) auto

lemma filter_Cons_find: "filter P xs = y # ys \<Longrightarrow> find P xs = Some y"
  by (simp add: find_eq_hd_filter)

lemma find_SomeD: "find P xs = Some x \<Longrightarrow> x \<in> set xs \<and> P x"
  by (induction xs) (auto split: if_splits)

lemma find_None_all: "find P xs = None \<longleftrightarrow> (\<forall>x \<in> set xs. \<not> P x)"
  by (induction xs) auto

lemma find_append: "find P (xs @ ys) = (case find P xs of None \<Rightarrow> find P ys | Some x \<Rightarrow> Some x)"
  by (induction xs) auto

text \<open>
  The row of a key in a table, and what \<open>UPDATE .. WHERE\<close> and \<open>INSERT\<close> do to it. The key
  column is unique (\<open>distinct (map key rows)\<close>), so a key has at most one row.
\<close>

definition row_of :: "('r \<Rightarrow> 'k) \<Rightarrow> 'k \<Rightarrow> 'r list \<Rightarrow> 'r option" where
  "row_of key k rows = find (\<lambda>r. key r = k) rows"

definition update_where :: "('r \<Rightarrow> bool) \<Rightarrow> ('r \<Rightarrow> 'r) \<Rightarrow> 'r list \<Rightarrow> 'r list" where
  "update_where P f rows = map (\<lambda>r. if P r then f r else r) rows"

lemma row_of_Some: "row_of key k rows = Some r \<Longrightarrow> r \<in> set rows \<and> key r = k"
  unfolding row_of_def by (rule find_SomeD)

lemma row_of_None: "row_of key k rows = None \<longleftrightarrow> k \<notin> key ` set rows"
  by (auto simp: row_of_def find_None_all)

lemma row_of_member:
  "distinct (map key rows) \<Longrightarrow> r \<in> set rows \<Longrightarrow> row_of key (key r) rows = Some r"
  by (induction rows) (auto simp: row_of_def)

lemma row_of_insert:
  "k \<notin> key ` set rows \<Longrightarrow> key r = k \<Longrightarrow>
    row_of key j (rows @ [r]) = (if j = k then Some r else row_of key j rows)"
proof (induction rows)
  case (Cons a rows)
  then show ?case by (auto simp: row_of_def)
qed (auto simp: row_of_def)

lemma map_update_where:
  "(\<And>r. P r \<Longrightarrow> key (f r) = key r) \<Longrightarrow> map key (update_where P f rows) = map key rows"
  by (induction rows) (auto simp: update_where_def)

lemma row_of_update_where:
  "(\<And>r. P r \<Longrightarrow> key (f r) = key r) \<Longrightarrow>
    row_of key k (update_where P f rows) =
      map_option (\<lambda>r. if P r then f r else r) (row_of key k rows)"
  by (induction rows) (auto simp: row_of_def update_where_def)

lemma update_where_none: "filter P rows = [] \<Longrightarrow> update_where P f rows = rows"
  by (induction rows) (auto simp: update_where_def split: if_splits)

lemma set_update_where: "r \<in> set (update_where P f rows) \<Longrightarrow>
    r \<in> set rows \<and> \<not> P r \<or> (\<exists>q \<in> set rows. P q \<and> r = f q)"
  by (auto simp: update_where_def split: if_splits)

lemma filter_key_row_of:
  assumes "distinct (map key rows)"
  shows "filter (\<lambda>r. key r = k \<and> Q r) rows =
    (case row_of key k rows of None \<Rightarrow> [] | Some r \<Rightarrow> if Q r then [r] else [])"
  using assms
proof (induction rows)
  case Nil
  then show ?case by (simp add: row_of_def)
next
  case (Cons a rows)
  show ?case
  proof (cases "key a = k")
    case True
    with Cons.prems have "filter (\<lambda>r. key r = k \<and> Q r) rows = []"
      by (auto simp: filter_empty_conv image_iff)
    with True show ?thesis by (simp add: row_of_def)
  next
    case False
    with Cons show ?thesis by (simp add: row_of_def)
  qed
qed

lemma filter_key_row_of': 
  assumes "distinct (map key rows)"
  shows "filter (\<lambda>r. key r = k) rows =
    (case row_of key k rows of None \<Rightarrow> [] | Some r \<Rightarrow> [r])"
  using filter_key_row_of [OF assms, of k "\<lambda>_. True"] by (simp cong: option.case_cong)

text \<open>
  \<open>UPDATE .. SET f WHERE key = k AND P\<close> on a table with unique keys: either no row qualifies and
  the table is unchanged, or exactly the row of \<open>k\<close> changes.
\<close>

lemma keyed_update:
  fixes key :: "'r \<Rightarrow> 'k" and k :: 'k and P :: "'r \<Rightarrow> bool"
  assumes dist: "distinct (map key T)" and key: "\<And>r. key (f r) = key r"
  defines "hit \<equiv> \<lambda>r. key r = k \<and> P r"
  shows "if filter hit T = [] then update_where hit f T = T \<and> (\<forall>r. row_of key k T = Some r \<longrightarrow> \<not> P r)
    else \<exists>r. row_of key k T = Some r \<and> P r \<and> map f (filter hit T) = [f r] \<and>
      (\<lambda>j. row_of key j (update_where hit f T)) = (\<lambda>j. row_of key j T)(k \<mapsto> f r)"
proof -
  have rows: "filter hit T = (case row_of key k T of None \<Rightarrow> [] | Some r \<Rightarrow> if P r then [r] else [])"
    unfolding hit_def by (rule filter_key_row_of [OF dist])
  have new: "row_of key j (update_where hit f T) =
      map_option (\<lambda>r. if hit r then f r else r) (row_of key j T)" for j
    by (rule row_of_update_where) (rule key)
  show ?thesis
  proof (cases "filter hit T = []")
    case True
    with rows show ?thesis by (auto simp: update_where_none split: option.splits if_splits)
  next
    case False
    with rows obtain r where r: "row_of key k T = Some r" "P r"
      by (auto split: option.splits if_splits)
    with rows have "map f (filter hit T) = [f r]" by simp
    moreover have "(\<lambda>j. row_of key j (update_where hit f T)) = (\<lambda>j. row_of key j T)(k \<mapsto> f r)"
    proof
      fix j
      show "row_of key j (update_where hit f T) = ((\<lambda>j. row_of key j T)(k \<mapsto> f r)) j"
        using r new [of j] row_of_Some [of key j T]
        by (cases "row_of key j T") (auto simp: hit_def)
    qed
    ultimately show ?thesis using False r by auto
  qed
qed

text \<open>Setting a unique column of the one matching row to a value no other row has.\<close>

lemma distinct_update_one:
  assumes "distinct (map key T)" "\<And>r. hit r \<Longrightarrow> key r = k" "distinct (map g T)"
    and "h \<notin> g ` set (filter (\<lambda>r. \<not> hit r) T)" "\<And>r. hit r \<Longrightarrow> g (f r) = h"
  shows "distinct (map g (update_where hit f T))"
  using assms
proof (induction T)
  case (Cons a T)
  show ?case
  proof (cases "hit a")
    case True
    have no: "\<not> hit r" if "r \<in> set T" for r
    proof
      assume "hit r"
      with True Cons.prems(2) have "key r = key a" by simp
      with that Cons.prems(1) show False by (metis distinct.simps(2) image_eqI list.set_map list.simps(9))
    qed
    then have "filter hit T = []" and all: "filter (\<lambda>r. \<not> hit r) T = T"
      by (auto simp: filter_empty_conv filter_id_conv)
    then have "update_where hit f (a # T) = f a # T"
      using True update_where_none [of hit T f] by (simp add: update_where_def)
    moreover have "h \<notin> g ` set T" using Cons.prems(4) True all by simp
    ultimately show ?thesis using Cons.prems(3,5) True by simp
  next
    case False
    with Cons have "distinct (map g (update_where hit f T))" by simp
    moreover have "g a \<notin> g ` set (update_where hit f T)"
      using False Cons.prems(3-5) by (auto dest!: set_update_where)
    moreover have "update_where hit f (a # T) = a # update_where hit f T"
      using False by (simp add: update_where_def)
    ultimately show ?thesis by simp
  qed
qed (simp add: update_where_def)

lemma inj_on_key_distinct:
  "distinct (map key rows) \<Longrightarrow> r \<in> set rows \<Longrightarrow> s \<in> set rows \<Longrightarrow> key r = key s \<Longrightarrow> r = s"
  by (metis row_of_member option.inject)

end
