(* ===== verification/Go_Strings.thy ===== *)
theory Go_Strings
  imports Prelude
begin

text \<open>
  The part of Go's \<open>strings\<close>, \<open>unicode\<close> and \<open>encoding/hex\<close> packages the program uses, over
  byte strings: a Go string is a sequence of bytes, a HOL \<open>string\<close> is a sequence of 8-bit
  characters, and a rune beyond ASCII is its UTF-8 encoding.
\<close>

subsection \<open>Trimming\<close>

text \<open>
  \<open>strings.TrimSpace\<close> removes the leading and trailing runes for which \<open>unicode.IsSpace\<close>
  holds. These are their UTF-8 encodings: the ASCII spaces, U+0085, U+00A0, U+1680,
  U+2000 to U+200A, U+2028, U+2029, U+202F, U+205F and U+3000. UTF-8 is self-synchronising,
  so the first (last) rune of a string is one of them exactly if its encoding is a prefix
  (suffix) of the string; a malformed byte decodes to U+FFFD, which is no space.
\<close>

definition utf8_spaces :: "string list" where
  "utf8_spaces =
    [[CHR 0x20], [CHR 0x09], [CHR 0x0A], [CHR 0x0B], [CHR 0x0C], [CHR 0x0D],
     [CHR 0xC2, CHR 0x85], [CHR 0xC2, CHR 0xA0], [CHR 0xE1, CHR 0x9A, CHR 0x80],
     [CHR 0xE2, CHR 0x80, CHR 0x80], [CHR 0xE2, CHR 0x80, CHR 0x81],
     [CHR 0xE2, CHR 0x80, CHR 0x82], [CHR 0xE2, CHR 0x80, CHR 0x83],
     [CHR 0xE2, CHR 0x80, CHR 0x84], [CHR 0xE2, CHR 0x80, CHR 0x85],
     [CHR 0xE2, CHR 0x80, CHR 0x86], [CHR 0xE2, CHR 0x80, CHR 0x87],
     [CHR 0xE2, CHR 0x80, CHR 0x88], [CHR 0xE2, CHR 0x80, CHR 0x89],
     [CHR 0xE2, CHR 0x80, CHR 0x8A], [CHR 0xE2, CHR 0x80, CHR 0xA8],
     [CHR 0xE2, CHR 0x80, CHR 0xA9], [CHR 0xE2, CHR 0x80, CHR 0xAF],
     [CHR 0xE2, CHR 0x81, CHR 0x9F], [CHR 0xE3, CHR 0x80, CHR 0x80]]"

function strip :: "string list \<Rightarrow> string \<Rightarrow> string" where
  "strip ps s =
    (case find (\<lambda>p. p \<noteq> [] \<and> prefix p s) ps of
      None \<Rightarrow> s
    | Some p \<Rightarrow> strip ps (drop (length p) s))"
  by pat_completeness auto
termination
  by (relation "measure (\<lambda>(ps, s). length s)") (auto dest!: find_SomeD simp: prefix_def)

declare strip.simps [simp del]

definition TrimSpace :: "string \<Rightarrow> string" where
  "TrimSpace s = rev (strip (map rev utf8_spaces) (rev (strip utf8_spaces s)))"

text \<open>No element of \<open>ps\<close> begins the string: the state \<open>strip\<close> ends in.\<close>

definition stripped :: "string list \<Rightarrow> string \<Rightarrow> bool" where
  "stripped ps s \<longleftrightarrow> (\<forall>p \<in> set ps. p \<noteq> [] \<longrightarrow> \<not> prefix p s)"

lemma strip_stripped: "stripped ps (strip ps s)"
proof (induction ps s rule: strip.induct)
  case (1 ps s)
  then show ?case
    by (subst strip.simps)
      (auto simp: stripped_def find_None_all split: option.splits)
qed

lemma strip_id: "stripped ps s \<Longrightarrow> strip ps s = s"
  by (subst strip.simps) (auto simp: stripped_def split: option.splits dest: find_SomeD)

lemma suffix_strip: "suffix (strip ps s) s"
proof (induction ps s rule: strip.induct)
  case (1 ps s)
  show ?case
  proof (cases "find (\<lambda>p. p \<noteq> [] \<and> prefix p s) ps")
    case None
    then show ?thesis by (subst strip.simps) simp
  next
    case (Some p)
    with 1 have "suffix (strip ps (drop (length p) s)) (drop (length p) s)" by simp
    then have "suffix (strip ps (drop (length p) s)) s"
      by (meson suffix_drop suffix_order.trans)
    with Some show ?thesis by (subst strip.simps) simp
  qed
qed

lemma stripped_prefix: "stripped ps s \<Longrightarrow> prefix t s \<Longrightarrow> stripped ps t"
  by (meson prefix_order.trans stripped_def)

definition trimmed :: "string \<Rightarrow> bool" where
  "trimmed s \<longleftrightarrow> stripped utf8_spaces s \<and> stripped (map rev utf8_spaces) (rev s)"

lemma TrimSpace_trimmed: "trimmed (TrimSpace s)"
proof -
  let ?u = "strip utf8_spaces s"
  let ?t = "TrimSpace s"
  have "suffix (rev ?t) (rev ?u)" by (simp add: TrimSpace_def suffix_strip)
  then have "prefix ?t ?u" by (simp add: suffix_to_prefix)
  with strip_stripped have "stripped utf8_spaces ?t" by (rule stripped_prefix)
  moreover have "stripped (map rev utf8_spaces) (rev ?t)"
    by (simp add: TrimSpace_def strip_stripped)
  ultimately show ?thesis by (simp add: trimmed_def)
qed

lemma TrimSpace_id: "trimmed s \<Longrightarrow> TrimSpace s = s"
  by (simp add: trimmed_def TrimSpace_def strip_id)

lemma TrimSpace_idem [simp]: "TrimSpace (TrimSpace s) = TrimSpace s"
  by (rule TrimSpace_id [OF TrimSpace_trimmed])

lemma trimmed_Nil [simp]: "trimmed []"
  by (auto simp: trimmed_def stripped_def)

lemma TrimSpace_Nil [simp]: "TrimSpace [] = []"
  by (rule TrimSpace_id) simp

lemma set_TrimSpace: "set (TrimSpace s) \<subseteq> set s"
proof -
  have "set (TrimSpace s) \<subseteq> set (strip utf8_spaces s)"
    using set_mono_suffix [OF suffix_strip, of "map rev utf8_spaces" "rev (strip utf8_spaces s)"]
    by (simp add: TrimSpace_def)
  also have "\<dots> \<subseteq> set s" by (rule set_mono_suffix [OF suffix_strip])
  finally show ?thesis .
qed

text \<open>Bytes that begin or end no space: printable ASCII above the blank.\<close>

definition graphic :: "char \<Rightarrow> bool" where
  "graphic c \<longleftrightarrow> 0x20 < (of_char c :: nat) \<and> (of_char c :: nat) < 0x7F"

lemma graphic_not_space_head: "graphic c \<Longrightarrow> p \<in> set utf8_spaces \<Longrightarrow> \<not> prefix p (c # s)"
  by (auto simp: utf8_spaces_def graphic_def)

lemma graphic_not_space_last:
  "graphic c \<Longrightarrow> p \<in> set (map rev utf8_spaces) \<Longrightarrow> \<not> prefix p (c # s)"
  by (auto simp: utf8_spaces_def graphic_def)

lemma trimmedI: "s \<noteq> [] \<Longrightarrow> graphic (hd s) \<Longrightarrow> graphic (last s) \<Longrightarrow> trimmed s"
proof -
  assume "s \<noteq> []" "graphic (hd s)" "graphic (last s)"
  moreover obtain c t where "s = c # t" using \<open>s \<noteq> []\<close> by (cases s) auto
  moreover obtain d u where "s = u @ [d]" using \<open>s \<noteq> []\<close> by (cases s rule: rev_cases) auto
  ultimately show ?thesis
    using graphic_not_space_head [of c] graphic_not_space_last [of d]
    unfolding trimmed_def stripped_def by (metis hd_rev list.sel(1) rev_append rev_singleton_conv append_Cons append_Nil last_snoc)
qed

lemma trimmed_graphic: "list_all graphic s \<Longrightarrow> trimmed s"
  by (cases "s = []") (auto simp: list_all_iff intro!: trimmedI)

text \<open>Trimming removes nothing of a prefix that begins and ends with such a byte.\<close>

lemma strip_keeps:
  assumes "\<forall>q \<in> set ps. c \<notin> set q"
  shows "\<exists>xs'. strip ps (xs @ c # ys) = xs' @ c # ys"
proof (induction "length xs" arbitrary: xs rule: less_induct)
  case less
  let ?hit = "find (\<lambda>p. p \<noteq> [] \<and> prefix p (xs @ c # ys)) ps"
  show ?case
  proof (cases ?hit)
    case None
    then have "strip ps (xs @ c # ys) = xs @ c # ys" by (subst strip.simps) simp
    then show ?thesis by blast
  next
    case (Some q)
    then have q: "q \<noteq> []" "prefix q (xs @ c # ys)" "q \<in> set ps"
      by (auto dest: find_SomeD)
    with assms have "c \<notin> set q" by blast
    with q(2) have "prefix q xs" by (auto simp: prefix_append prefix_Cons)
    then obtain zs where xs: "xs = q @ zs" by (auto simp: prefix_def)
    with q(1) have "length zs < length xs" by simp
    from less [OF this] obtain xs' where "strip ps (zs @ c # ys) = xs' @ c # ys" by blast
    moreover have "strip ps (xs @ c # ys) = strip ps (zs @ c # ys)"
      by (subst strip.simps) (simp add: Some, simp add: xs)
    ultimately show ?thesis by simp
  qed
qed

lemma graphic_in_no_space: "graphic c \<Longrightarrow> q \<in> set utf8_spaces \<Longrightarrow> c \<notin> set q"
  by (auto simp: utf8_spaces_def graphic_def)

lemma prefix_TrimSpace:
  assumes p: "p \<noteq> []" "graphic (hd p)" "graphic (last p)" and k: "prefix p k"
  shows "prefix p (TrimSpace k)"
proof -
  from k obtain m where m: "k = p @ m" by (auto simp: prefix_def)
  from p(1) obtain c t where c: "p = c # t" by (cases p) auto
  from p(1) obtain u d where d: "p = u @ [d]" by (cases p rule: rev_cases) auto
  have "stripped utf8_spaces k"
    using graphic_not_space_head [of c] p c m by (auto simp: stripped_def)
  then have "TrimSpace k = rev (strip (map rev utf8_spaces) (rev m @ d # rev u))"
    by (simp add: TrimSpace_def strip_id m d)
  moreover have "\<forall>q \<in> set (map rev utf8_spaces). d \<notin> set q"
    using graphic_in_no_space [of d] p d by auto
  from strip_keeps [OF this] obtain xs where
      "strip (map rev utf8_spaces) (rev m @ d # rev u) = xs @ d # rev u" by blast
  ultimately have "TrimSpace k = p @ rev xs" by (simp add: d)
  then show ?thesis by simp
qed

subsection \<open>Prefixes, splitting and joining\<close>

definition HasPrefix :: "string \<Rightarrow> string \<Rightarrow> bool" where
  "HasPrefix s p \<longleftrightarrow> prefix p s"

definition HasSuffix :: "string \<Rightarrow> string \<Rightarrow> bool" where
  "HasSuffix s p \<longleftrightarrow> suffix p s"

text \<open>\<open>strings.Split\<close> and \<open>strings.Join\<close> with a one-byte separator.\<close>

fun Split :: "string \<Rightarrow> char \<Rightarrow> string list" where
  "Split [] c = [[]]"
| "Split (x # xs) c =
    (if x = c then [] # Split xs c
     else (case Split xs c of [] \<Rightarrow> [[x]] | p # ps \<Rightarrow> (x # p) # ps))"

fun Join :: "string list \<Rightarrow> char \<Rightarrow> string" where
  "Join [] c = []"
| "Join [p] c = p"
| "Join (p # ps) c = p @ c # Join ps c"

lemma Split_not_Nil [simp]: "Split s c \<noteq> []"
  by (induction s c rule: Split.induct) (auto split: list.splits)

lemma Join_Cons: "ps \<noteq> [] \<Longrightarrow> Join (p # ps) c = p @ c # Join ps c"
  by (cases ps) auto

lemma Join_Split: "Join (Split s c) c = s"
proof (induction s c rule: Split.induct)
  case (2 x xs c)
  obtain p ps where "Split xs c = p # ps" by (cases "Split xs c") auto
  with 2 show ?case by (cases ps) (auto simp: Join_Cons)
qed simp

lemma Split_free: "c \<notin> set s \<Longrightarrow> Split s c = [s]"
  by (induction s) auto

lemma Split_append: "c \<notin> set p \<Longrightarrow> Split (p @ c # s) c = p # Split s c"
  by (induction p) auto

lemma Split_Join: "ps \<noteq> [] \<Longrightarrow> \<forall>p \<in> set ps. c \<notin> set p \<Longrightarrow> Split (Join ps c) c = ps"
  by (induction ps c rule: Join.induct) (auto simp: Split_free Split_append)

lemma Split_parts_free: "p \<in> set (Split s c) \<Longrightarrow> c \<notin> set p"
  by (induction s c arbitrary: p rule: Split.induct) (auto split: list.splits if_splits)

lemma set_Split: "p \<in> set (Split s c) \<Longrightarrow> set p \<subseteq> set s"
proof (induction s c arbitrary: p rule: Split.induct)
  case (2 x xs c)
  then show ?case by (fastforce split: list.splits if_splits)
qed simp

text \<open>\<open>strings.SplitN(s, sep, 2)\<close>: the text before and after the first separator.\<close>

definition SplitN2 :: "string \<Rightarrow> char \<Rightarrow> string list" where
  "SplitN2 s c =
    (if c \<in> set s then [takeWhile (\<lambda>x. x \<noteq> c) s, tl (dropWhile (\<lambda>x. x \<noteq> c) s)] else [s])"

lemma takeWhile_free: "c \<notin> set a \<Longrightarrow> takeWhile (\<lambda>x. x \<noteq> c) (a @ c # b) = a"
  by (induction a) auto

lemma dropWhile_free: "c \<notin> set a \<Longrightarrow> dropWhile (\<lambda>x. x \<noteq> c) (a @ c # b) = c # b"
  by (induction a) auto

lemma SplitN2_append: "c \<notin> set a \<Longrightarrow> SplitN2 (a @ c # b) c = [a, b]"
  by (simp add: SplitN2_def takeWhile_free dropWhile_free)

lemma SplitN2_two: "SplitN2 s c = [a, b] \<longleftrightarrow> s = a @ c # b \<and> c \<notin> set a"
proof
  assume h: "SplitN2 s c = [a, b]"
  then have "c \<in> set s" by (simp add: SplitN2_def split: if_splits)
  then obtain u v where s: "s = u @ c # v" and u: "c \<notin> set u" by (meson split_list_first)
  with h SplitN2_append [OF u, of v] show "s = a @ c # b \<and> c \<notin> set a" by simp
next
  assume "s = a @ c # b \<and> c \<notin> set a"
  then show "SplitN2 s c = [a, b]" by (simp add: SplitN2_append)
qed

text \<open>\<open>strings.TrimLeft\<close>, \<open>TrimRight\<close> and \<open>Trim\<close> with a one-byte cutset.\<close>

definition TrimLeft :: "string \<Rightarrow> char \<Rightarrow> string" where
  "TrimLeft s c = dropWhile (\<lambda>x. x = c) s"

definition TrimRight :: "string \<Rightarrow> char \<Rightarrow> string" where
  "TrimRight s c = rev (dropWhile (\<lambda>x. x = c) (rev s))"

definition Trim :: "string \<Rightarrow> char \<Rightarrow> string" where
  "Trim s c = TrimRight (TrimLeft s c) c"

lemma TrimLeft_id: "s \<noteq> [] \<Longrightarrow> hd s \<noteq> c \<Longrightarrow> TrimLeft s c = s"
  by (cases s) (auto simp: TrimLeft_def)

lemma TrimRight_id: "s \<noteq> [] \<Longrightarrow> last s \<noteq> c \<Longrightarrow> TrimRight s c = s"
  by (cases s rule: rev_cases) (auto simp: TrimRight_def)

text \<open>\<open>strings.ReplaceAll\<close> of one byte by one byte, \<open>strings.TrimSuffix\<close>, \<open>strings.Contains\<close>.\<close>

definition ReplaceAll :: "string \<Rightarrow> char \<Rightarrow> char \<Rightarrow> string" where
  "ReplaceAll s a b = map (\<lambda>x. if x = a then b else x) s"

definition TrimSuffix :: "string \<Rightarrow> string \<Rightarrow> string" where
  "TrimSuffix s e = (if suffix e s then take (length s - length e) s else s)"

definition Contains :: "string \<Rightarrow> string \<Rightarrow> bool" where
  "Contains s p \<longleftrightarrow> sublist p s"

subsection \<open>Letter case\<close>

text \<open>
  \<open>strings.ToLower\<close> maps the bytes \<open>A\<close> to \<open>Z\<close> of an ASCII string; on a string with other
  bytes it maps runes through the Unicode tables, which are the parameter \<open>uni\<close>.
\<close>

definition ascii_lower :: "char \<Rightarrow> char" where
  "ascii_lower c = (let n = of_char c :: nat in
     if 65 \<le> n \<and> n \<le> 90 then char_of (n + 32) else c)"

definition is_ascii :: "string \<Rightarrow> bool" where
  "is_ascii s = list_all (\<lambda>c. (of_char c :: nat) < 128) s"

definition ToLower :: "(string \<Rightarrow> string) \<Rightarrow> string \<Rightarrow> string" where
  "ToLower uni s = (if is_ascii s then map ascii_lower s else uni s)"

text \<open>
  \<open>strings.EqualFold\<close> against an ASCII text without the letters \<open>k\<close> and \<open>s\<close> (the only ASCII
  letters with a non-ASCII simple fold): equality up to ASCII case.
\<close>

definition EqualFold :: "string \<Rightarrow> string \<Rightarrow> bool" where
  "EqualFold s t \<longleftrightarrow> map ascii_lower s = map ascii_lower t"

subsection \<open>Decimal\<close>

text \<open>\<open>strconv.Itoa\<close>.\<close>

fun decimal :: "nat \<Rightarrow> string" where
  "decimal n = (if n < 10 then [char_of (48 + n)] else decimal (n div 10) @ [char_of (48 + n mod 10)])"

declare decimal.simps [simp del]

definition Itoa :: "int \<Rightarrow> string" where
  "Itoa i = (if i < 0 then CHR ''-'' # decimal (nat (- i)) else decimal (nat i))"

subsection \<open>Hexadecimal\<close>

definition hextable :: string where
  "hextable = ''0123456789abcdef''"

definition hex_digit :: "nat \<Rightarrow> char" where
  "hex_digit n = hextable ! n"

definition EncodeToString :: "byte list \<Rightarrow> string" where
  "EncodeToString bs = concat (map (\<lambda>b. [hex_digit (unat b div 16), hex_digit (unat b mod 16)]) bs)"

lemma hextable_facts: "length hextable = 16" "distinct hextable"
    "c \<in> set hextable \<Longrightarrow> graphic c \<and> c \<noteq> CHR ''/'' \<and> c \<noteq> CHR ''.''"
  by (auto simp: hextable_def graphic_def)

lemma hex_digit_inj: "m < 16 \<Longrightarrow> n < 16 \<Longrightarrow> hex_digit m = hex_digit n \<Longrightarrow> m = n"
  by (simp add: hex_digit_def nth_eq_iff_index_eq hextable_facts)

lemma hex_digit_graphic:
  "n < 16 \<Longrightarrow> graphic (hex_digit n) \<and> hex_digit n \<noteq> CHR ''/'' \<and> hex_digit n \<noteq> CHR ''.''"
  by (rule hextable_facts) (simp add: hex_digit_def hextable_facts)

lemma unat_byte: "unat (b :: byte) < 256"
  using unsigned_less [of b, where 'a = nat] by simp

lemma length_EncodeToString [simp]: "length (EncodeToString bs) = 2 * length bs"
  by (induction bs) (auto simp: EncodeToString_def)

lemma EncodeToString_inj: "EncodeToString bs = EncodeToString cs \<Longrightarrow> bs = cs"
proof (induction bs arbitrary: cs)
  case Nil
  then show ?case by (cases cs) (auto simp: EncodeToString_def)
next
  case (Cons b bs)
  then obtain c cs' where cs: "cs = c # cs'" by (cases cs) (auto simp: EncodeToString_def)
  with Cons.prems have d: "unat b div 16 = unat c div 16" "unat b mod 16 = unat c mod 16"
    and rest: "EncodeToString bs = EncodeToString cs'"
    using unat_byte [of b] unat_byte [of c]
    by (auto simp: EncodeToString_def intro!: hex_digit_inj)
  from d have "unat b = unat c" by (metis div_mult_mod_eq)
  then have "b = c" by (rule unsigned_word_eqI)
  with Cons.IH [OF rest] cs show ?case by simp
qed

lemma EncodeToString_chars:
  "c \<in> set (EncodeToString bs) \<Longrightarrow> graphic c \<and> c \<noteq> CHR ''/'' \<and> c \<noteq> CHR ''.''"
proof -
  assume "c \<in> set (EncodeToString bs)"
  then obtain b :: byte where "c = hex_digit (unat b div 16) \<or> c = hex_digit (unat b mod 16)"
    by (auto simp: EncodeToString_def)
  moreover have "unat b div 16 < 16" "unat b mod 16 < 16" using unat_byte [of b] by auto
  ultimately show ?thesis using hex_digit_graphic by auto
qed

end
