(* ===== verification/Go_Path.thy ===== *)
theory Go_Path
  imports Go_Strings
begin

text \<open>
  Go's \<open>path\<close> package, and \<open>path/filepath\<close> on Unix where the two agree: \<open>Clean\<close>, \<open>Join\<close>,
  \<open>Dir\<close>, \<open>Base\<close> and \<open>Ext\<close>, with the lemmas on names that need no cleaning.
\<close>

text \<open>
  \<open>path.Clean\<close> goes through the elements left to right, keeping those that stay. Empty and
  \<open>.\<close> elements vanish, \<open>..\<close> removes the element before it, is kept where there is none in a
  relative path, and vanishes at the root.
\<close>

fun clean_elems :: "bool \<Rightarrow> string list \<Rightarrow> string list \<Rightarrow> string list" where
  "clean_elems rooted out [] = rev out"
| "clean_elems rooted out (e # es) =
    (if e = [] \<or> e = ''.'' then clean_elems rooted out es
     else if e = ''..'' then
       (case out of
          [] \<Rightarrow> clean_elems rooted (if rooted then [] else [''..'']) es
        | t # ts \<Rightarrow> if t = ''..'' then clean_elems rooted (''..'' # out) es
                   else clean_elems rooted ts es)
     else clean_elems rooted (e # out) es)"

definition Clean :: "string \<Rightarrow> string" where
  "Clean p =
    (if p = [] then ''.''
     else let rooted = (hd p = CHR ''/'');
              body = Join (clean_elems rooted [] (Split p (CHR ''/''))) (CHR ''/'');
              out = (if rooted then CHR ''/'' # body else body)
          in if out = [] then ''.'' else out)"

definition path_Join :: "string list \<Rightarrow> string" where
  "path_Join es =
    (case dropWhile (\<lambda>e. e = []) es of
       [] \<Rightarrow> []
     | fs \<Rightarrow> Clean (Join fs (CHR ''/'')))"

definition Dir :: "string \<Rightarrow> string" where
  "Dir p = Clean (rev (dropWhile (\<lambda>c. c \<noteq> CHR ''/'') (rev p)))"

definition Base :: "string \<Rightarrow> string" where
  "Base p =
    (if p = [] then ''.''
     else let q = TrimRight p (CHR ''/'');
              b = rev (takeWhile (\<lambda>c. c \<noteq> CHR ''/'') (rev q))
          in if b = [] then ''/'' else b)"

definition Ext :: "string \<Rightarrow> string" where
  "Ext p =
    (let t = takeWhile (\<lambda>c. c \<noteq> CHR ''/'') (rev p)
     in if CHR ''.'' \<in> set t then rev (takeWhile (\<lambda>c. c \<noteq> CHR ''.'') t @ ''.'') else [])"

subsection \<open>Names\<close>

text \<open>A path element that \<open>Clean\<close> leaves alone.\<close>

definition clean_name :: "string \<Rightarrow> bool" where
  "clean_name e \<longleftrightarrow> e \<noteq> [] \<and> e \<noteq> ''.'' \<and> e \<noteq> ''..'' \<and> CHR ''/'' \<notin> set e"

lemma last_clean_name: "clean_name e \<Longrightarrow> last e \<noteq> CHR ''/''"
  unfolding clean_name_def using last_in_set by metis

lemma clean_elems_names:
  "list_all clean_name es \<Longrightarrow> clean_elems rooted out es = rev out @ es"
  by (induction es arbitrary: out) (auto simp: clean_name_def)

lemma clean_elems_append:
  "list_all clean_name ds \<Longrightarrow> clean_elems rooted out (ds @ es) = clean_elems rooted (rev ds @ out) es"
  by (induction ds arbitrary: out) (auto simp: clean_name_def)

lemma Join_eq_Nil: "list_all clean_name es \<Longrightarrow> Join es c = [] \<longleftrightarrow> es = []"
  by (induction es c rule: Join.induct) (auto simp: clean_name_def)

lemma hd_Join_names: "list_all clean_name es \<Longrightarrow> es \<noteq> [] \<Longrightarrow> hd (Join es c) \<noteq> CHR ''/''"
  by (induction es c rule: Join.induct) (auto simp: clean_name_def neq_Nil_conv)

lemma Clean_Join_names:
  assumes "list_all clean_name es" "es \<noteq> []"
  shows "Clean (Join es (CHR ''/'')) = Join es (CHR ''/'')"
proof -
  have "\<forall>e \<in> set es. CHR ''/'' \<notin> set e" using assms by (auto simp: clean_name_def list_all_iff)
  with assms have "Split (Join es (CHR ''/'')) (CHR ''/'') = es" by (simp add: Split_Join)
  with assms show ?thesis
    by (simp add: Clean_def Join_eq_Nil hd_Join_names clean_elems_names)
qed

lemma path_Join_names:
  assumes "list_all clean_name es" "es \<noteq> []"
  shows "path_Join es = Join es (CHR ''/'')"
proof -
  from assms have "dropWhile (\<lambda>e. e = []) es = es"
    by (cases es) (auto simp: clean_name_def)
  with assms(2) have "path_Join es = Clean (Join es (CHR ''/''))"
    by (cases es) (simp_all add: path_Join_def)
  with assms show ?thesis by (simp add: Clean_Join_names)
qed

lemma Join_snoc: "ds \<noteq> [] \<Longrightarrow> Join (ds @ [f]) c = Join ds c @ c # f"
  by (induction ds c rule: Join.induct) auto

lemma Join_append: "ds \<noteq> [] \<Longrightarrow> fs \<noteq> [] \<Longrightarrow> Join (ds @ fs) c = Join ds c @ c # Join fs c"
  by (induction ds c rule: Join.induct) (auto simp: Join_Cons)

lemma path_Join_nested:
  assumes "list_all clean_name ds" "ds \<noteq> []" "clean_name f"
  shows "path_Join [path_Join ds, f] = path_Join (ds @ [f])"
proof -
  let ?x = "Join ds (CHR ''/'')"
  have all: "list_all clean_name (ds @ [f])" using assms by simp
  have "?x \<noteq> []" using assms by (simp add: Join_eq_Nil)
  then have "path_Join [?x, f] = Clean (Join (ds @ [f]) (CHR ''/''))"
    using assms(2) by (simp add: path_Join_def Join_snoc)
  then show ?thesis
    using Clean_Join_names [OF all] path_Join_names [OF assms(1,2)] path_Join_names [OF all] by simp
qed

lemma last_Join_names: "list_all clean_name es \<Longrightarrow> es \<noteq> [] \<Longrightarrow> last (Join es c) \<noteq> CHR ''/''"
proof (induction es rule: rev_induct)
  case (snoc f ds)
  then have f: "f \<noteq> []" "last f \<noteq> CHR ''/''"
    using last_clean_name by (auto simp: clean_name_def)
  with snoc show ?case by (cases "ds = []") (auto simp: Join_snoc)
qed simp

lemma Clean_trailing_slash:
  assumes "list_all clean_name es" "es \<noteq> []"
  shows "Clean (Join es (CHR ''/'') @ ''/'') = Join es (CHR ''/'')"
proof -
  let ?p = "Join es (CHR ''/'')"
  have free: "\<forall>e \<in> set (es @ [[]]). CHR ''/'' \<notin> set e"
    using assms by (auto simp: clean_name_def list_all_iff)
  have "?p @ ''/'' = Join (es @ [[]]) (CHR ''/'')" using assms by (simp add: Join_snoc)
  with free have "Split (?p @ ''/'') (CHR ''/'') = es @ [[]]" by (simp add: Split_Join)
  moreover have "hd (?p @ ''/'') \<noteq> CHR ''/''"
    using assms hd_Join_names [of es] by (simp add: Join_eq_Nil hd_append)
  ultimately show ?thesis
    using assms by (simp add: Clean_def Join_eq_Nil clean_elems_append)
qed

lemma Dir_Join:
  assumes "list_all clean_name ds" "ds \<noteq> []" "CHR ''/'' \<notin> set f"
  shows "Dir (Join (ds @ [f]) (CHR ''/'')) = Join ds (CHR ''/'')"
proof -
  have "dropWhile (\<lambda>c. c \<noteq> CHR ''/'') (rev f @ CHR ''/'' # s) = CHR ''/'' # s" for s
    using assms(3) dropWhile_free [of "CHR ''/''" "rev f"] by simp
  then have "Dir (Join (ds @ [f]) (CHR ''/'')) = Clean (Join ds (CHR ''/'') @ ''/'')"
    using assms(2) by (simp add: Dir_def Join_snoc)
  with Clean_trailing_slash [OF assms(1,2)] show ?thesis by simp
qed

subsection \<open>File names\<close>

lemma Base_nonempty: "Base p \<noteq> []"
  by (auto simp: Base_def Let_def)

lemma Base_no_slash: "Base p \<noteq> ''/'' \<Longrightarrow> CHR ''/'' \<notin> set (Base p)"
  by (auto simp: Base_def Let_def dest: set_takeWhileD split: if_splits)

lemma Base_clean_name: "clean_name f \<Longrightarrow> Base f = f"
proof -
  assume f: "clean_name f"
  then have "last f \<noteq> CHR ''/''" by (rule last_clean_name)
  with f have "TrimRight f (CHR ''/'') = f" by (auto simp: TrimRight_id clean_name_def)
  moreover have "takeWhile (\<lambda>c. c \<noteq> CHR ''/'') (rev f) = rev f"
    using f by (auto simp: clean_name_def takeWhile_eq_all_conv)
  ultimately show ?thesis
    using f by (simp add: Base_def clean_name_def del: takeWhile_eq_all_conv)
qed

lemma Ext_suffix: "suffix (Ext p) p"
proof (cases "CHR ''.'' \<in> set (takeWhile (\<lambda>c. c \<noteq> CHR ''/'') (rev p))")
  case True
  then obtain u v where t: "takeWhile (\<lambda>c. c \<noteq> CHR ''/'') (rev p) = u @ CHR ''.'' # v"
    and u: "CHR ''.'' \<notin> set u"
    by (meson split_list_first)
  have "rev p = (u @ CHR ''.'' # v) @ dropWhile (\<lambda>c. c \<noteq> CHR ''/'') (rev p)"
    using takeWhile_dropWhile_id [of "\<lambda>c. c \<noteq> CHR ''/''" "rev p"] t by simp
  then have "prefix (u @ ''.'') (rev p)" by (metis append.assoc append_Cons append_Nil prefixI)
  moreover have "Ext p = rev (u @ ''.'')"
    using True u t takeWhile_free [OF u, of v] by (simp add: Ext_def)
  ultimately show ?thesis by (simp add: suffix_to_prefix)
next
  case False
  then show ?thesis by (simp add: Ext_def)
qed

end
