(* ===== verification/Go_Effects.thy ===== *)
theory Go_Effects
  imports Go_Path
begin

text \<open>
  Go functions with effects. A function that returns \<open>(T, error)\<close> and acts on the state of the
  system is a \<open>prog\<close>: it takes the state of the world and returns either an error or a value,
  and the new state. \<open>bindP\<close> is the call followed by \<open>if err != nil { return err }\<close>;
  \<open>attemptP\<close> hands the error to the caller, for the places where the code looks at it.
\<close>

subsection \<open>Errors\<close>

text \<open>
  Errors of the packages the program calls: \<open>pgx.ErrNoRows\<close>, a \<open>PgError\<close> with its SQLSTATE of
  either of the two \<open>pgconn\<close> packages (the one inside \<open>github.com/jackc/pgx/v5\<close> and the
  stand-alone \<open>github.com/jackc/pgconn\<close>), \<open>redis.Nil\<close>, a \<open>smithy.APIError\<close> with its code,
  \<open>syscall.ENOSPC\<close>, an \<open>exec.ExitError\<close> of a process killed by \<open>SIGKILL\<close>, and every other one by its text.
\<close>

datatype driver_error =
    NoRows
  | PgErrorV5 string string
  | PgErrorV1 string string
  | RedisNil
  | ApiError string string
  | ENOSPC
  | Killed string
  | OtherError string

datatype err =
    ErrNotFound | ErrAlreadyExists | ErrInvalidCredentials | ErrSessionNotFound
  | ErrRoomEnded | ErrRoomForbidden | ErrMediaRequiredForMovieMode | ErrMediaForbiddenForRoom
  | ErrInvalidUploadInput | ErrForbiddenMedia | ErrMediaNotReady | ErrUploadedObjectNotFound
  | ErrStorageDelete | ErrInvalidManifestKey | ErrPlaybackStateNotFound
  | New string
  | Wrap string err
  | Driver driver_error
  | OutOfFuel

text \<open>
  \<open>OutOfFuel\<close> is no error of the program: it is the result of a loop that has used up the number
  of rounds its model was given.
\<close>

text \<open>The text of an error (\<open>err.Error()\<close>); \<open>Wrap\<close> is \<open>fmt.Errorf\<close> with one \<open>%w\<close>.\<close>

fun driver_text :: "driver_error \<Rightarrow> string" where
  "driver_text NoRows = ''no rows in result set''"
| "driver_text (PgErrorV5 code msg) = msg"
| "driver_text (PgErrorV1 code msg) = msg"
| "driver_text RedisNil = ''redis: nil''"
| "driver_text (ApiError code msg) = msg"
| "driver_text (Killed msg) = msg"
| "driver_text ENOSPC = ''no space left on device''"
| "driver_text (OtherError msg) = msg"

fun Error :: "err \<Rightarrow> string" where
  "Error ErrNotFound = ''not found''"
| "Error ErrAlreadyExists = ''already exists''"
| "Error ErrInvalidCredentials = ''invalid credentials''"
| "Error ErrSessionNotFound = ''session not found''"
| "Error ErrRoomEnded = ''room is ended''"
| "Error ErrRoomForbidden = ''room access forbidden''"
| "Error ErrMediaRequiredForMovieMode = ''media is required for movie mode''"
| "Error ErrMediaForbiddenForRoom = ''media is forbidden for room''"
| "Error ErrInvalidUploadInput = ''invalid upload input''"
| "Error ErrForbiddenMedia = ''forbidden media''"
| "Error ErrMediaNotReady = ''media is not ready''"
| "Error ErrUploadedObjectNotFound = ''uploaded object not found''"
| "Error ErrStorageDelete = ''media storage delete failed''"
| "Error ErrInvalidManifestKey = ''invalid playback manifest token''"
| "Error ErrPlaybackStateNotFound = ''playback state not found''"
| "Error (New msg) = msg"
| "Error (Wrap msg e) = msg"
| "Error (Driver d) = driver_text d"
| "Error OutOfFuel = []"

text \<open>\<open>errors.Is(err, target)\<close> for a sentinel target: follow the wrapped errors.\<close>

fun Is :: "err \<Rightarrow> err \<Rightarrow> bool" where
  "Is (Wrap msg e) t = (Wrap msg e = t \<or> Is e t)"
| "Is e t = (e = t)"

lemma Is_refl [simp]: "Is e e"
  by (cases e) simp_all

subsection \<open>Programs\<close>

type_synonym ('w, 'a) prog = "'w \<Rightarrow> (err + 'a) \<times> 'w"

definition retP :: "'a \<Rightarrow> ('w, 'a) prog" where
  "retP x w = (Inr x, w)"

definition failP :: "err \<Rightarrow> ('w, 'a) prog" where
  "failP e w = (Inl e, w)"

definition bindP :: "('w, 'a) prog \<Rightarrow> ('a \<Rightarrow> ('w, 'b) prog) \<Rightarrow> ('w, 'b) prog" where
  "bindP m f w = (case m w of (Inl e, w1) \<Rightarrow> (Inl e, w1) | (Inr x, w1) \<Rightarrow> f x w1)"

definition attemptP :: "('w, 'a) prog \<Rightarrow> ('w, err + 'a) prog" where
  "attemptP m w = (case m w of (r, w1) \<Rightarrow> (Inr r, w1))"

text \<open>A call that cannot fail, such as reading the clock.\<close>

definition readP :: "('w \<Rightarrow> 'a \<times> 'w) \<Rightarrow> ('w, 'a) prog" where
  "readP c w = (case c w of (x, w1) \<Rightarrow> (Inr x, w1))"

text \<open>Replace the error of a call: \<open>if err != nil { return f(err) }\<close>.\<close>

definition mapErrP :: "(err \<Rightarrow> err) \<Rightarrow> ('w, 'a) prog \<Rightarrow> ('w, 'a) prog" where
  "mapErrP f m w = (case m w of (Inl e, w1) \<Rightarrow> (Inl (f e), w1) | (Inr x, w1) \<Rightarrow> (Inr x, w1))"

text \<open>\<open>defer c()\<close> around the rest of a function: \<open>c\<close> runs whatever the rest returns.\<close>

definition deferP :: "('w \<Rightarrow> unit \<times> 'w) \<Rightarrow> ('w, 'a) prog \<Rightarrow> ('w, 'a) prog" where
  "deferP c m w = (case m w of (r, w1) \<Rightarrow> (r, snd (c w1)))"

lemma deferP_eq [prog_simps]:
  "deferP c m w = (r, w') \<longleftrightarrow> (\<exists>w1. m w = (r, w1) \<and> w' = snd (c w1))"
  by (auto simp: deferP_def split: prod.splits)

lemma retP_eq [prog_simps]: "retP x w = (r, w') \<longleftrightarrow> r = Inr x \<and> w' = w"
  by (auto simp: retP_def)

lemma failP_eq [prog_simps]: "failP e w = (r, w') \<longleftrightarrow> r = Inl e \<and> w' = w"
  by (auto simp: failP_def)

lemma bindP_Inr [prog_simps]:
  "bindP m f w = (Inr y, w') \<longleftrightarrow> (\<exists>x w1. m w = (Inr x, w1) \<and> f x w1 = (Inr y, w'))"
  by (auto simp: bindP_def split: prod.splits sum.splits)

lemma bindP_Inl [prog_simps]:
  "bindP m f w = (Inl e, w') \<longleftrightarrow>
    m w = (Inl e, w') \<or> (\<exists>x w1. m w = (Inr x, w1) \<and> f x w1 = (Inl e, w'))"
  by (auto simp: bindP_def split: prod.splits sum.splits)

lemma attemptP_eq [prog_simps]:
  "attemptP m w = (r, w') \<longleftrightarrow> (\<exists>x. r = Inr x \<and> m w = (x, w'))"
  by (auto simp: attemptP_def split: prod.splits)

lemma readP_eq [prog_simps]: "readP c w = (r, w') \<longleftrightarrow> (\<exists>x. r = Inr x \<and> c w = (x, w'))"
  by (auto simp: readP_def split: prod.splits)

lemma mapErrP_Inr [prog_simps]: "mapErrP f m w = (Inr x, w') \<longleftrightarrow> m w = (Inr x, w')"
  by (auto simp: mapErrP_def split: prod.splits sum.splits)

lemma mapErrP_Inl [prog_simps]:
  "mapErrP f m w = (Inl e, w') \<longleftrightarrow> (\<exists>e'. e = f e' \<and> m w = (Inl e', w'))"
  by (auto simp: mapErrP_def split: prod.splits sum.splits)

text \<open>Evaluation of a program whose first call is known.\<close>

lemma bindP_step: "m w = (Inr x, w1) \<Longrightarrow> bindP m f w = f x w1"
  by (simp add: bindP_def)

lemma bindP_stop: "m w = (Inl e, w1) \<Longrightarrow> bindP m f w = (Inl e, w1)"
  by (simp add: bindP_def)

lemma bindP_assoc: "bindP (bindP m f) g = bindP m (\<lambda>x. bindP (f x) g)"
  by (auto simp: bindP_def fun_eq_iff split: prod.splits sum.splits)

lemma bindP_retP: "bindP (retP x) f = f x"
  by (simp add: bindP_def retP_def fun_eq_iff)

lemmas eval_prog = retP_def failP_def bindP_def attemptP_def readP_def mapErrP_def deferP_def

subsection \<open>Programs that stay inside a relation\<close>

text \<open>
  \<open>stays R m\<close>: whatever the outcome, the state \<open>m\<close> leaves is related by \<open>R\<close> to the state it
  found. For a reflexive and transitive \<open>R\<close> this holds of a composite program as soon as it
  holds of its calls. An invariant \<open>I\<close> is the relation \<open>\<lambda>w w'. I w \<longrightarrow> I w'\<close>, a frame
  condition the relation \<open>\<lambda>w w'. f w' = f w\<close>.
\<close>

definition stays :: "('w \<Rightarrow> 'w \<Rightarrow> bool) \<Rightarrow> ('w, 'a) prog \<Rightarrow> bool" where
  "stays R m \<longleftrightarrow> (\<forall>w. R w (snd (m w)))"

lemma staysD: "stays R m \<Longrightarrow> m w = (r, w') \<Longrightarrow> R w w'"
  by (metis snd_conv stays_def)

text \<open>
  A call that keeps the invariant \<open>invar\<close> and changes nothing of what \<open>view\<close> shows of the state.
\<close>

definition quiet :: "('w \<Rightarrow> bool) \<Rightarrow> ('w \<Rightarrow> 'v) \<Rightarrow> 'w \<Rightarrow> 'w \<Rightarrow> bool" where
  "quiet invar view w w' \<longleftrightarrow> (invar w \<longrightarrow> invar w' \<and> view w' = view w)"

lemma quietD:
  "stays (quiet invar view) m \<Longrightarrow> invar w \<Longrightarrow> m w = (r, w') \<Longrightarrow> invar w' \<and> view w' = view w"
  by (auto dest: staysD simp: quiet_def)

text \<open>
  What an \<open>UPDATE .. WHERE id = $1\<close> promises through \<open>view\<close>: on success the row \<open>k\<close> was there,
  satisfied \<open>P\<close> and is now \<open>f\<close> of what it was, and no other row changed; on failure nothing
  changed, or the same change was made and only the answer was lost; \<open>missing\<close> is the
  failure that reports that no row satisfied the condition.
\<close>

definition updated ::
  "('w \<Rightarrow> bool) \<Rightarrow> ('w \<Rightarrow> 'k \<Rightarrow> 'r option) \<Rightarrow> 'k \<Rightarrow> ('r \<Rightarrow> bool) \<Rightarrow> ('r \<Rightarrow> 'r) \<Rightarrow> 'w \<Rightarrow> 'w \<Rightarrow> bool" where
  "updated invar view k P f w w' \<longleftrightarrow>
    invar w' \<and> (\<exists>r. view w k = Some r \<and> P r \<and> view w' = (view w)(k \<mapsto> f r))"

definition update_law ::
  "('w \<Rightarrow> bool) \<Rightarrow> ('w \<Rightarrow> 'k \<Rightarrow> 'r option) \<Rightarrow> 'k \<Rightarrow> ('r \<Rightarrow> bool) \<Rightarrow> ('r \<Rightarrow> 'r) \<Rightarrow> err \<Rightarrow> ('w, 'a) prog \<Rightarrow> bool"
  where
  "update_law invar view k P f missing m \<longleftrightarrow>
    (\<forall>w r w'. invar w \<longrightarrow> m w = (r, w') \<longrightarrow>
      (case r of
         Inr _ \<Rightarrow> updated invar view k P f w w'
       | Inl e \<Rightarrow> invar w' \<and>
           (if Is e missing then view w' = view w \<and> (\<forall>r. view w k = Some r \<longrightarrow> \<not> P r)
            else view w' = view w \<or> updated invar view k P f w w')))"

lemma update_law_Inr:
  "update_law invar view k P f missing m \<Longrightarrow> invar w \<Longrightarrow> m w = (Inr x, w') \<Longrightarrow>
    updated invar view k P f w w'"
  by (fastforce simp: update_law_def)

lemma update_law_Inl:
  "update_law invar view k P f missing m \<Longrightarrow> invar w \<Longrightarrow> m w = (Inl e, w') \<Longrightarrow>
    invar w' \<and> (view w' = view w \<or> updated invar view k P f w w')"
  by (fastforce simp: update_law_def split: if_splits)

lemma update_law_missing:
  "update_law invar view k P f missing m \<Longrightarrow> invar w \<Longrightarrow> m w = (Inl e, w') \<Longrightarrow> Is e missing \<Longrightarrow>
    invar w' \<and> view w' = view w \<and> (\<forall>r. view w k = Some r \<longrightarrow> \<not> P r)"
  by (fastforce simp: update_law_def)

text \<open>Whatever the outcome, an update keeps every reflexive relation its change is in.\<close>

lemma update_law_stays:
  assumes law: "update_law invar view k P f missing m"
    and same: "\<And>w w'. invar w \<Longrightarrow> invar w' \<Longrightarrow> view w' = view w \<Longrightarrow> R w w'"
    and change: "\<And>w w' r. invar w \<Longrightarrow> invar w' \<Longrightarrow> view w k = Some r \<Longrightarrow> P r \<Longrightarrow>
      view w' = (view w)(k \<mapsto> f r) \<Longrightarrow> R w w'"
    and invar: "invar w" and run: "m w = (r, w')"
  shows "R w w'"
proof (cases r)
  case (Inl e)
  with update_law_Inl [OF law invar] run same change invar show ?thesis
    unfolding updated_def by blast
next
  case (Inr x)
  with update_law_Inr [OF law invar] run change invar show ?thesis
    unfolding updated_def by blast
qed

locale world_order =
  fixes R :: "'w \<Rightarrow> 'w \<Rightarrow> bool"
  assumes R_refl: "R w w"
    and R_trans: "R u v \<Longrightarrow> R v w \<Longrightarrow> R u w"
begin

lemma stays_ret [frame_intros]: "stays R (retP x)"
  by (simp add: stays_def retP_def R_refl)

lemma stays_fail [frame_intros]: "stays R (failP e)"
  by (simp add: stays_def failP_def R_refl)

lemma stays_bind [frame_intros]:
  assumes "stays R m" "\<And>x. stays R (f x)"
  shows "stays R (bindP m f)"
  unfolding stays_def
proof
  fix w
  obtain r w1 where m: "m w = (r, w1)" by (cases "m w")
  with assms(1) have "R w w1" by (rule staysD)
  moreover have "R w1 (snd (f x w1))" for x using assms(2) by (simp add: stays_def)
  ultimately show "R w (snd (bindP m f w))"
    using m by (auto simp: bindP_def split: sum.splits intro: R_trans)
qed

text \<open>The continuation has to stay in \<open>R\<close> only for results the call can have.\<close>

lemma stays_bind_result:
  assumes "stays R m" "\<And>x w w'. m w = (Inr x, w') \<Longrightarrow> stays R (f x)"
  shows "stays R (bindP m f)"
  unfolding stays_def
proof
  fix w
  obtain r w1 where m: "m w = (r, w1)" by (cases "m w")
  with assms(1) have "R w w1" by (rule staysD)
  with m show "R w (snd (bindP m f w))"
    using assms(2) by (auto simp: bindP_def stays_def split: sum.splits intro: R_trans)
qed

text \<open>The same for a relation that says something only of states that satisfy \<open>I\<close>.\<close>

lemma stays_bind_from:
  assumes "stays R m" "\<And>x w w'. I w \<Longrightarrow> m w = (Inr x, w') \<Longrightarrow> stays R (f x)" "\<And>w w'. \<not> I w \<Longrightarrow> R w w'"
  shows "stays R (bindP m f)"
  unfolding stays_def
proof
  fix w
  show "R w (snd (bindP m f w))"
  proof (cases "I w")
    case True
    obtain r w1 where m: "m w = (r, w1)" by (cases "m w")
    with assms(1) have "R w w1" by (rule staysD)
    with m show ?thesis
      using assms(2) [OF True] by (auto simp: bindP_def stays_def split: sum.splits intro: R_trans)
  qed (rule assms(3))
qed

lemma stays_defer [frame_intros]:
  assumes "stays R m" "stays R (readP c)"
  shows "stays R (deferP c m)"
  unfolding stays_def
proof
  fix w
  obtain r w1 where m: "m w = (r, w1)" by (cases "m w")
  with assms(1) have "R w w1" by (rule staysD)
  moreover from assms(2) have "R w1 (snd (c w1))"
    by (cases "c w1") (auto simp: stays_def readP_def split: prod.splits)
  ultimately show "R w (snd (deferP c m w))"
    using m R_trans by (auto simp: deferP_def)
qed

lemma stays_attempt [frame_intros]: "stays R m \<Longrightarrow> stays R (attemptP m)"
  by (auto simp: stays_def attemptP_def split: prod.splits) (metis snd_conv)

lemma stays_mapErr [frame_intros]: "stays R m \<Longrightarrow> stays R (mapErrP f m)"
  by (auto simp: stays_def mapErrP_def split: prod.splits sum.splits) (metis snd_conv)+

lemma stays_if [frame_intros]:
  "(b \<Longrightarrow> stays R m) \<Longrightarrow> (\<not> b \<Longrightarrow> stays R n) \<Longrightarrow> stays R (if b then m else n)"
  by simp

lemma stays_case_option [frame_intros]:
  "(x = None \<Longrightarrow> stays R m) \<Longrightarrow> (\<And>y. x = Some y \<Longrightarrow> stays R (f y)) \<Longrightarrow>
    stays R (case x of None \<Rightarrow> m | Some y \<Rightarrow> f y)"
  by (cases x) auto

lemma stays_case_sum [frame_intros]:
  "(\<And>e. x = Inl e \<Longrightarrow> stays R (m e)) \<Longrightarrow> (\<And>y. x = Inr y \<Longrightarrow> stays R (f y)) \<Longrightarrow>
    stays R (case x of Inl e \<Rightarrow> m e | Inr y \<Rightarrow> f y)"
  by (cases x) auto

lemma stays_case_list [frame_intros]:
  "(xs = [] \<Longrightarrow> stays R m) \<Longrightarrow> (\<And>y ys. xs = y # ys \<Longrightarrow> stays R (f y ys)) \<Longrightarrow>
    stays R (case xs of [] \<Rightarrow> m | y # ys \<Rightarrow> f y ys)"
  by (cases xs) auto

lemma stays_case_prod [frame_intros]:
  "(\<And>a b. x = (a, b) \<Longrightarrow> stays R (f a b)) \<Longrightarrow> stays R (case x of (a, b) \<Rightarrow> f a b)"
  by (cases x) auto

end

text \<open>
  Rows develop: every row stays, and is related by \<open>E\<close> to what it was. For a reflexive and
  transitive \<open>E\<close> a program has this property as soon as its calls have it, and the calls of a
  repository have it by their laws.
\<close>

definition develops ::
    "('w \<Rightarrow> bool) \<Rightarrow> ('w \<Rightarrow> 'k \<Rightarrow> 'r option) \<Rightarrow> ('r \<Rightarrow> 'r \<Rightarrow> bool) \<Rightarrow> 'w \<Rightarrow> 'w \<Rightarrow> bool" where
  "develops invar view E w w' \<longleftrightarrow> (invar w \<longrightarrow> invar w' \<and>
    (\<forall>k r. view w k = Some r \<longrightarrow> (\<exists>r'. view w' k = Some r' \<and> E r r')))"

lemma developsD:
  "stays (develops invar view E) m \<Longrightarrow> invar w \<Longrightarrow> m w = (q, w') \<Longrightarrow> view w k = Some r \<Longrightarrow>
    invar w' \<and> (\<exists>r'. view w' k = Some r' \<and> E r r')"
  by (auto dest!: staysD simp: develops_def)

locale row_order =
  fixes E :: "'r \<Rightarrow> 'r \<Rightarrow> bool"
  assumes E_refl: "E r r"
    and E_trans: "E q r \<Longrightarrow> E r s \<Longrightarrow> E q s"
begin

lemma develops_refl: "develops invar view E w w"
  by (simp add: develops_def E_refl)

lemma develops_trans: "develops invar view E u v \<Longrightarrow> develops invar view E v w \<Longrightarrow> develops invar view E u w"
  unfolding develops_def by (meson E_trans)

lemma develops_order: "world_order (develops invar view E)"
  by unfold_locales (fact develops_refl, fact develops_trans)

lemma develops_quiet: "stays (quiet invar view) m \<Longrightarrow> stays (develops invar view E) m"
  by (auto simp: stays_def quiet_def develops_def E_refl)

lemma develops_change:
  assumes "invar w \<Longrightarrow> invar w' \<and> (view w' = view w \<or>
    (\<exists>k r'. (\<forall>r. view w k = Some r \<longrightarrow> E r r') \<and> view w' = (view w)(k \<mapsto> r')))"
  shows "develops invar view E w w'"
  unfolding develops_def
proof (intro impI conjI allI)
  assume inv: "invar w"
  with assms show "invar w'" by blast
  fix k r
  assume at: "view w k = Some r"
  from assms [OF inv] show "\<exists>r'. view w' k = Some r' \<and> E r r'"
  proof (elim conjE disjE exE)
    assume "view w' = view w"
    with at E_refl show ?thesis by simp
  next
    fix j r'
    assume "\<forall>r. view w j = Some r \<longrightarrow> E r r'" "view w' = (view w)(j \<mapsto> r')"
    with at E_refl show ?thesis by (cases "j = k") auto
  qed
qed

lemma develops_update:
  assumes law: "update_law invar view k P f missing m"
    and f: "\<And>r. P r \<Longrightarrow> E r (f r)"
  shows "stays (develops invar view E) m"
  unfolding stays_def
proof
  fix w
  obtain r w' where run: "m w = (r, w')" by (cases "m w")
  have "develops invar view E w w'"
  proof (cases "invar w")
    case True
    show ?thesis
    proof (rule update_law_stays [where R = "develops invar view E", OF law _ _ True run])
      show "develops invar view E u u'" if "invar u" "invar u'" "view u' = view u" for u u'
        using that by (intro develops_change) simp
      show "develops invar view E u u'" if "invar u" "invar u'" "view u k = Some q" "P q"
          "view u' = (view u)(k \<mapsto> f q)" for u u' q
        by (rule develops_change) (use that f [of q] in \<open>force intro!: exI [of _ k]\<close>)
    qed
  qed (simp add: develops_def)
  with run show "develops invar view E w (snd (m w))" by simp
qed

text \<open>An insertion, which may be carried out although its answer is lost.\<close>

lemma develops_insert:
  assumes "\<And>w r w'. invar w \<Longrightarrow> m w = (r, w') \<Longrightarrow> invar w' \<and>
    (view w' = view w \<or> (\<exists>k r'. view w k = None \<and> view w' = (view w)(k \<mapsto> r')))"
  shows "stays (develops invar view E) m"
  unfolding stays_def
proof
  fix w
  obtain r w' where run: "m w = (r, w')" by (cases "m w")
  have "develops invar view E w w'"
    by (rule develops_change) (use assms [OF _ run] in force)
  with run show "develops invar view E w (snd (m w))" by simp
qed

end

text \<open>A call that leaves what \<open>f\<close> shows of the state as it is.\<close>

definition unchanged :: "('w \<Rightarrow> 'v) \<Rightarrow> 'w \<Rightarrow> 'w \<Rightarrow> bool" where
  "unchanged f w w' \<longleftrightarrow> f w' = f w"

interpretation same: world_order "unchanged f" for f :: "'w \<Rightarrow> 'v"
  by unfold_locales (simp_all add: unchanged_def)

interpretation calm: world_order "quiet invar view" for invar :: "'w \<Rightarrow> bool" and view :: "'w \<Rightarrow> 'v"
  by unfold_locales (auto simp: quiet_def)

text \<open>A call that changes no row but \<open>k\<close>.\<close>

definition touches :: "('w \<Rightarrow> bool) \<Rightarrow> ('w \<Rightarrow> 'k \<Rightarrow> 'r option) \<Rightarrow> 'k \<Rightarrow> 'w \<Rightarrow> 'w \<Rightarrow> bool" where
  "touches invar view k w w' \<longleftrightarrow> (invar w \<longrightarrow> invar w' \<and> (\<forall>j. j \<noteq> k \<longrightarrow> view w' j = view w j))"

interpretation touch: world_order "touches invar view k"
  for invar :: "'w \<Rightarrow> bool" and view :: "'w \<Rightarrow> 'k \<Rightarrow> 'r option" and k :: 'k
  by unfold_locales (auto simp: touches_def)

lemma touches_quiet: "stays (quiet invar view) m \<Longrightarrow> stays (touches invar view k) m"
  by (auto simp: stays_def quiet_def touches_def)

lemma touches_update: "update_law invar view k P f missing m \<Longrightarrow> stays (touches invar view k) m"
  unfolding stays_def
proof
  fix w
  assume law: "update_law invar view k P f missing m"
  obtain r w' where run: "m w = (r, w')" by (cases "m w")
  have "touches invar view k w w'"
  proof (cases "invar w")
    case True
    show ?thesis
      by (rule update_law_stays [where R = "touches invar view k", OF law _ _ True run])
        (auto simp: touches_def)
  qed (simp add: touches_def)
  with run show "touches invar view k w (snd (m w))" by simp
qed

end
