(* ===== verification/Store.thy ===== *)
theory Store
  imports Go_Effects
begin

text \<open>
  The rows of the four tables (\<open>internal/repository\<close>, \<open>migrations\<close>), the state of the whole
  system, and how a SQL statement runs on it. The statements themselves are in the repository
  theories; here are the schema's constraints and the ways a call through the connection pool
  can end.
\<close>

subsection \<open>Rows\<close>

datatype MediaStatus = MediaUploading | MediaUploaded | MediaProcessing | MediaReady | MediaFailed

fun MediaStatus_string :: "MediaStatus \<Rightarrow> string" where
  "MediaStatus_string MediaUploading = ''uploading''"
| "MediaStatus_string MediaUploaded = ''uploaded''"
| "MediaStatus_string MediaProcessing = ''processing''"
| "MediaStatus_string MediaReady = ''ready''"
| "MediaStatus_string MediaFailed = ''failed''"

record Media =
  media_ID :: string
  media_OwnerUserID :: string
  media_Title :: string
  media_OriginalName :: string
  media_StorageKey :: string
  media_PlaybackURL :: string
  media_PreviewURL :: "string option"
  media_DurationSec :: "int option"
  media_FileSizeBytes :: int
  media_MimeType :: string
  media_Status :: MediaStatus
  media_CreatedAt :: time
  media_DeletedAt :: "time option"

datatype RoomStatus = RoomPending | RoomActive | RoomEnded

fun RoomStatus_string :: "RoomStatus \<Rightarrow> string" where
  "RoomStatus_string RoomPending = ''pending''"
| "RoomStatus_string RoomActive = ''active''"
| "RoomStatus_string RoomEnded = ''ended''"

text \<open>The order of a room's life; no operation moves a room back along it.\<close>

fun RoomStatus_rank :: "RoomStatus \<Rightarrow> nat" where
  "RoomStatus_rank RoomPending = 0"
| "RoomStatus_rank RoomActive = 1"
| "RoomStatus_rank RoomEnded = 2"

instantiation RoomStatus :: linorder
begin

definition less_eq_RoomStatus :: "RoomStatus \<Rightarrow> RoomStatus \<Rightarrow> bool" where
  "s \<le> t \<longleftrightarrow> RoomStatus_rank s \<le> RoomStatus_rank t"

definition less_RoomStatus :: "RoomStatus \<Rightarrow> RoomStatus \<Rightarrow> bool" where
  "s < t \<longleftrightarrow> RoomStatus_rank s < RoomStatus_rank t"

instance
proof
  fix s t u :: RoomStatus
  show "s < t \<longleftrightarrow> s \<le> t \<and> \<not> t \<le> s" by (auto simp: less_eq_RoomStatus_def less_RoomStatus_def)
  show "s \<le> s" by (simp add: less_eq_RoomStatus_def)
  show "s \<le> t \<Longrightarrow> t \<le> u \<Longrightarrow> s \<le> u" by (simp add: less_eq_RoomStatus_def)
  show "s \<le> t \<Longrightarrow> t \<le> s \<Longrightarrow> s = t"
    by (cases s; cases t) (auto simp: less_eq_RoomStatus_def)
  show "s \<le> t \<or> t \<le> s" by (auto simp: less_eq_RoomStatus_def)
qed

end

lemma RoomEnded_top [simp]: "s \<le> RoomEnded" "RoomEnded \<le> s \<longleftrightarrow> s = RoomEnded"
  by (cases s; simp add: less_eq_RoomStatus_def)+

record Room =
  room_ID :: string
  room_Name :: string
  room_OwnerUserID :: string
  room_MediaID :: "string option"
  room_Status :: RoomStatus
  room_CreatedAt :: time
  room_EndedAt :: "time option"

record Session =
  sess_ID :: string
  sess_UserID :: string
  sess_RefreshTokenHash :: string
  sess_AccessJTI :: string
  sess_Version :: int
  sess_IssuedAt :: time
  sess_ExpiresAt :: time
  sess_RevokedAt :: "time option"

record User =
  user_ID :: string
  user_Name :: string
  user_Email :: string
  user_EmailConfirmed :: bool
  user_PasswordHash :: string
  user_CreatedAt :: time

subsection \<open>The database and the world\<close>

record db =
  media_tbl :: "Media list"
  rooms_tbl :: "Room list"
  users_tbl :: "User list"
  sessions_tbl :: "Session list"

text \<open>
  The state the program runs in: the database, the transcoder's in-memory job queue
  (\<open>jobQueue chan string\<close>), and the environment: Redis, the object store, LiveKit, the file
  system, the clock, the entropy source. The environment's type is a parameter: only the
  operations on it are known, as arguments of the services.
\<close>

record 'e world =
  db :: db
  jobQueue :: "string list"
  env :: 'e

text \<open>A call to a service outside the program acts on the environment alone.\<close>

definition ext :: "('e, 'a) prog \<Rightarrow> ('e world, 'a) prog" where
  "ext c w = (case c (env w) of (r, e) \<Rightarrow> (r, w\<lparr>env := e\<rparr>))"

definition ext_read :: "('e \<Rightarrow> 'a \<times> 'e) \<Rightarrow> 'e world \<Rightarrow> 'a \<times> 'e world" where
  "ext_read c w = (case c (env w) of (x, e) \<Rightarrow> (x, w\<lparr>env := e\<rparr>))"

lemma ext_frame: "ext c w = (r, w') \<Longrightarrow> db w' = db w \<and> jobQueue w' = jobQueue w"
  by (auto simp: ext_def split: prod.splits)

lemma ext_read_frame: "ext_read c w = (x, w') \<Longrightarrow> db w' = db w \<and> jobQueue w' = jobQueue w"
  by (auto simp: ext_read_def split: prod.splits)

subsection \<open>The schema's constraints\<close>

text \<open>
  Primary keys, \<open>UNIQUE\<close> columns and foreign keys of \<open>migrations/001_init.sql\<close> and
  \<open>migrations/002_media_and_rooms_schema.sql\<close>.
\<close>

definition db_unique :: "db \<Rightarrow> bool" where
  "db_unique d \<longleftrightarrow>
    distinct (map media_ID (media_tbl d)) \<and> distinct (map media_StorageKey (media_tbl d)) \<and>
    distinct (map room_ID (rooms_tbl d)) \<and>
    distinct (map user_ID (users_tbl d)) \<and> distinct (map user_Email (users_tbl d)) \<and>
    distinct (map sess_ID (sessions_tbl d)) \<and>
    distinct (map sess_RefreshTokenHash (sessions_tbl d)) \<and>
    distinct (map sess_AccessJTI (sessions_tbl d))"

definition db_foreign :: "db \<Rightarrow> bool" where
  "db_foreign d \<longleftrightarrow>
    (\<forall>m \<in> set (media_tbl d). media_OwnerUserID m \<in> user_ID ` set (users_tbl d)) \<and>
    (\<forall>r \<in> set (rooms_tbl d). room_OwnerUserID r \<in> user_ID ` set (users_tbl d) \<and>
      (\<forall>i. room_MediaID r = Some i \<longrightarrow> i \<in> media_ID ` set (media_tbl d))) \<and>
    (\<forall>s \<in> set (sessions_tbl d). sess_UserID s \<in> user_ID ` set (users_tbl d))"

definition db_ok :: "db \<Rightarrow> bool" where
  "db_ok d \<longleftrightarrow> db_unique d \<and> db_foreign d"

definition world_ok :: "'e world \<Rightarrow> bool" where
  "world_ok w \<longleftrightarrow> db_ok (db w)"

subsection \<open>Running a statement\<close>

text \<open>
  A statement reads the server's clock (\<open>now()\<close>) and the tables, and either violates a
  constraint (SQLSTATE and message, tables unchanged) or returns rows and the new tables.
\<close>

type_synonym 'r stmt = "time \<Rightarrow> db \<Rightarrow> (string \<times> string) + ('r list \<times> db)"

text \<open>
  The pool and the server behind it, as the program sees them: for every call the environment
  decides whether the server answers, the statement never reaches it (a lost connection, an
  expired context, a value the server rejects), or it is carried out and only the answer is
  lost.
\<close>

datatype pg_outcome = Answer | Refuse string | LoseReply string

record 'e pgpool =
  pg_outcome :: "'e \<Rightarrow> pg_outcome \<times> 'e"
  pg_now :: "'e \<Rightarrow> time"

text \<open>A \<open>TIMESTAMPTZ\<close> column holds microseconds.\<close>

definition timestamptz :: "time \<Rightarrow> time" where
  "timestamptz t = t div 1000 * 1000"

definition run_stmt :: "'e pgpool \<Rightarrow> 'r stmt \<Rightarrow> ('e world, 'r list) prog" where
  "run_stmt pool st w =
    (case pg_outcome pool (env w) of
       (Answer, e) \<Rightarrow>
         (case st (pg_now pool (env w)) (db w) of
            Inl (code, msg) \<Rightarrow> (Inl (Driver (PgErrorV5 code msg)), w\<lparr>env := e\<rparr>)
          | Inr (rows, d) \<Rightarrow> (Inr rows, w\<lparr>db := d, env := e\<rparr>))
     | (Refuse msg, e) \<Rightarrow> (Inl (Driver (OtherError msg)), w\<lparr>env := e\<rparr>)
     | (LoseReply msg, e) \<Rightarrow>
         (Inl (Driver (OtherError msg)),
          w\<lparr>db := (case st (pg_now pool (env w)) (db w) of
                     Inl _ \<Rightarrow> db w
                   | Inr (rows, d) \<Rightarrow> d), env := e\<rparr>))"

text \<open>\<open>QueryRow(..).Scan(..)\<close>: the first row, or \<open>pgx.ErrNoRows\<close>.\<close>

definition query_row :: "'e pgpool \<Rightarrow> 'r stmt \<Rightarrow> ('e world, 'r) prog" where
  "query_row pool st =
    bindP (run_stmt pool st) (\<lambda>rows. case rows of [] \<Rightarrow> failP (Driver NoRows) | r # _ \<Rightarrow> retP r)"

text \<open>\<open>Exec(..)\<close> followed by \<open>ct.RowsAffected() == 0\<close>.\<close>

definition exec_affecting :: "'e pgpool \<Rightarrow> 'r stmt \<Rightarrow> ('e world, unit) prog" where
  "exec_affecting pool st =
    bindP (run_stmt pool st) (\<lambda>rows. if rows = [] then failP ErrNotFound else retP ())"

text \<open>\<open>errors.Is(err, pgx.ErrNoRows)\<close> turned into the repository's sentinel.\<close>

definition no_rows_as :: "err \<Rightarrow> err \<Rightarrow> err" where
  "no_rows_as e' e = (if Is e (Driver NoRows) then e' else e)"

lemma run_stmt_Inr [sql_simps]:
  "run_stmt pool st w = (Inr rows, w') \<longleftrightarrow>
    (\<exists>d e. pg_outcome pool (env w) = (Answer, e) \<and>
      st (pg_now pool (env w)) (db w) = Inr (rows, d) \<and> w' = w\<lparr>db := d, env := e\<rparr>)"
  by (auto simp: run_stmt_def split: prod.splits pg_outcome.splits sum.splits)

lemma run_stmt_answer:
  "run_stmt pool st w = (Inr rows, w') \<Longrightarrow>
    st (pg_now pool (env w)) (db w) = Inr (rows, db w')"
  by (auto simp: sql_simps)

lemma run_stmt_InlD:
  assumes "run_stmt pool st w = (Inl x, w')"
  shows "(\<exists>code msg. x = Driver (PgErrorV5 code msg) \<and> db w' = db w) \<or>
    (\<exists>msg. x = Driver (OtherError msg) \<and>
      (db w' = db w \<or> (\<exists>rows. st (pg_now pool (env w)) (db w) = Inr (rows, db w'))))"
  using assms by (auto simp: run_stmt_def split: prod.splits pg_outcome.splits sum.splits)

lemma run_stmt_queue: "run_stmt pool st w = (r, w') \<Longrightarrow> jobQueue w' = jobQueue w"
  by (auto simp: run_stmt_def split: prod.splits pg_outcome.splits sum.splits)

text \<open>
  What a statement does to the tables, whatever the outcome of the call: nothing, or the change
  it makes.
\<close>

lemma run_stmt_db:
  assumes "run_stmt pool st w = (r, w')"
  shows "db w' = db w \<or> (\<exists>rows. st (pg_now pool (env w)) (db w) = Inr (rows, db w'))"
proof (cases r)
  case (Inl x)
  with assms run_stmt_InlD show ?thesis by blast
next
  case (Inr rows)
  with assms show ?thesis by (auto simp: sql_simps)
qed

lemma stays_run_stmt:
  assumes refl: "\<And>w. R w w"
    and db: "\<And>w w' rows t. jobQueue w' = jobQueue w \<Longrightarrow> st t (db w) = Inr (rows, db w') \<Longrightarrow> R w w'"
    and env: "\<And>w w'. db w' = db w \<Longrightarrow> jobQueue w' = jobQueue w \<Longrightarrow> R w w'"
  shows "stays R (run_stmt pool st)"
  unfolding stays_def
proof
  fix w
  obtain r w' where run: "run_stmt pool st w = (r, w')" by (cases "run_stmt pool st w")
  from run_stmt_db [OF run] run_stmt_queue [OF run] db env have "R w w'" by blast
  with run show "R w (snd (run_stmt pool st w))" by simp
qed

lemma stays_ext:
  assumes "\<And>w w'. db w' = db w \<Longrightarrow> jobQueue w' = jobQueue w \<Longrightarrow> R w w'"
  shows "stays R (ext c)"
  unfolding stays_def
proof
  fix w
  show "R w (snd (ext c w))" by (rule assms) (auto simp: ext_def split: prod.splits)
qed

lemma stays_ext_read:
  assumes "\<And>w w'. db w' = db w \<Longrightarrow> jobQueue w' = jobQueue w \<Longrightarrow> R w w'"
  shows "stays R (readP (ext_read c))"
  unfolding stays_def
proof
  fix w
  show "R w (snd (readP (ext_read c) w))"
    by (rule assms) (auto simp: readP_def ext_read_def split: prod.splits)
qed

subsection \<open>Statements that change one row\<close>

text \<open>
  \<open>stmt_updates st v k P f\<close>: on a database that meets its constraints, the statement is the
  change \<open>f\<close> of the row \<open>v d k\<close> if that row satisfies \<open>P\<close>, and returns it; otherwise it
  changes nothing and returns no row.
\<close>

definition stmt_updates ::
  "'r stmt \<Rightarrow> (db \<Rightarrow> 'k \<Rightarrow> 'r option) \<Rightarrow> 'k \<Rightarrow> ('r \<Rightarrow> bool) \<Rightarrow> ('r \<Rightarrow> 'r) \<Rightarrow> bool" where
  "stmt_updates st v k P f \<longleftrightarrow>
    (\<forall>t d rows d'. db_ok d \<longrightarrow> st t d = Inr (rows, d') \<longrightarrow> db_ok d' \<and>
      (if rows = [] then v d' = v d \<and> (\<forall>r. v d k = Some r \<longrightarrow> \<not> P r)
       else \<exists>r. v d k = Some r \<and> P r \<and> rows = [f r] \<and> v d' = (v d)(k \<mapsto> f r)))"

lemma stmt_updatesD:
  assumes "stmt_updates st v k P f" "db_ok d" "st t d = Inr (rows, d')"
  shows "db_ok d' \<and>
      (if rows = [] then v d' = v d \<and> (\<forall>r. v d k = Some r \<longrightarrow> \<not> P r)
       else \<exists>r. v d k = Some r \<and> P r \<and> rows = [f r] \<and> v d' = (v d)(k \<mapsto> f r))"
  using assms unfolding stmt_updates_def by blast

lemma keyed_stmt_updates:
  fixes key :: "'r \<Rightarrow> 'k"
  assumes dist: "\<And>d. db_ok d \<Longrightarrow> distinct (map key (tbl d))"
    and key: "\<And>r. key (f r) = key r"
    and st: "\<And>t d rows d'. db_ok d \<Longrightarrow> st t d = Inr (rows, d') \<Longrightarrow> db_ok d' \<and>
      rows = map f (filter (\<lambda>r. key r = k \<and> P r) (tbl d)) \<and>
      tbl d' = update_where (\<lambda>r. key r = k \<and> P r) f (tbl d)"
  shows "stmt_updates st (\<lambda>d j. row_of key j (tbl d)) k P f"
  unfolding stmt_updates_def
proof (intro allI impI)
  fix t d rows d'
  assume ok: "db_ok d" and run: "st t d = Inr (rows, d')"
  let ?hit = "\<lambda>r. key r = k \<and> P r"
  let ?new = "update_where ?hit f (tbl d)"
  from st [OF ok run] have ok': "db_ok d'" and rows: "rows = map f (filter ?hit (tbl d))"
    and tbl': "tbl d' = ?new"
    by blast+
  note upd = keyed_update [OF dist [OF ok] key, of k P]
  show "db_ok d' \<and>
    (if rows = [] then (\<lambda>j. row_of key j (tbl d')) = (\<lambda>j. row_of key j (tbl d)) \<and>
       (\<forall>r. row_of key k (tbl d) = Some r \<longrightarrow> \<not> P r)
     else \<exists>r. row_of key k (tbl d) = Some r \<and> P r \<and> rows = [f r] \<and>
       (\<lambda>j. row_of key j (tbl d')) = (\<lambda>j. row_of key j (tbl d))(k \<mapsto> f r))"
  proof (cases "filter ?hit (tbl d) = []")
    case True
    with upd have "?new = tbl d" and no: "\<forall>r. row_of key k (tbl d) = Some r \<longrightarrow> \<not> P r" by simp_all
    with tbl' have "tbl d' = tbl d" by simp
    moreover from True rows have "rows = []" by simp
    ultimately show ?thesis using ok' no by simp
  next
    case False
    with upd have "\<exists>r. row_of key k (tbl d) = Some r \<and> P r \<and> map f (filter ?hit (tbl d)) = [f r] \<and>
        (\<lambda>j. row_of key j ?new) = (\<lambda>j. row_of key j (tbl d))(k \<mapsto> f r)"
      by (simp only: if_False)
    moreover from False rows have "rows \<noteq> []" by simp
    ultimately show ?thesis using ok' unfolding tbl' rows by (simp only: if_False simp_thms)
  qed
qed

text \<open>A call whose failure is neither a missing row nor the statement's doing.\<close>

lemma run_stmt_update_Inl:
  assumes st: "stmt_updates st v k P f" and ok: "world_ok w"
    and run: "run_stmt pool st w = (Inl x, w')"
  shows "(\<exists>y. x = Driver y \<and> y \<noteq> NoRows) \<and> world_ok w' \<and>
    (v (db w') = v (db w) \<or> updated world_ok (\<lambda>w. v (db w)) k P f w w')"
proof -
  from run_stmt_InlD [OF run] have x: "\<exists>y. x = Driver y \<and> y \<noteq> NoRows" by blast
  have "world_ok w' \<and> (v (db w') = v (db w) \<or> updated world_ok (\<lambda>w. v (db w)) k P f w w')"
    using run_stmt_db [OF run]
  proof
    assume "db w' = db w"
    with ok show ?thesis by (simp add: world_ok_def)
  next
    assume "\<exists>rows. st (pg_now pool (env w)) (db w) = Inr (rows, db w')"
    then obtain rows where "st (pg_now pool (env w)) (db w) = Inr (rows, db w')" by blast
    with stmt_updatesD [OF st] ok show ?thesis
      unfolding updated_def world_ok_def by (metis (no_types))
  qed
  with x show ?thesis by blast
qed

lemma exec_affecting_law:
  assumes st: "stmt_updates st v k P f"
  shows "update_law world_ok (\<lambda>w. v (db w)) k P f ErrNotFound (exec_affecting pool st)"
  unfolding update_law_def
proof (intro allI impI)
  fix w r w'
  assume ok: "world_ok w" and run: "exec_affecting pool st w = (r, w')"
  from run consider
      (fail) x where "run_stmt pool st w = (Inl x, w')" "r = Inl x"
    | (rows) rows where "run_stmt pool st w = (Inr rows, w')"
        "r = (if rows = [] then Inl ErrNotFound else Inr ())"
    by (cases "run_stmt pool st w")
      (auto simp: exec_affecting_def bindP_def retP_def failP_def split: sum.splits if_splits)
  then show "case r of Inr _ \<Rightarrow> updated world_ok (\<lambda>w. v (db w)) k P f w w'
      | Inl e \<Rightarrow> world_ok w' \<and>
          (if Is e ErrNotFound then v (db w') = v (db w) \<and> (\<forall>r. v (db w) k = Some r \<longrightarrow> \<not> P r)
           else v (db w') = v (db w) \<or> updated world_ok (\<lambda>w. v (db w)) k P f w w')"
  proof cases
    case fail
    with run_stmt_update_Inl [OF st ok, of pool] show ?thesis by auto
  next
    case rows
    then obtain t where "st t (db w) = Inr (rows, db w')" by (auto simp: sql_simps)
    with stmt_updatesD [OF st] ok have "db_ok (db w') \<and>
      (if rows = [] then v (db w') = v (db w) \<and> (\<forall>r. v (db w) k = Some r \<longrightarrow> \<not> P r)
       else \<exists>r. v (db w) k = Some r \<and> P r \<and> rows = [f r] \<and> v (db w') = (v (db w))(k \<mapsto> f r))"
      unfolding world_ok_def by blast
    with rows(2) show ?thesis by (cases "rows = []") (auto simp: updated_def world_ok_def)
  qed
qed

lemma query_row_Inr [sql_simps]:
  "query_row pool st w = (Inr r, w') \<longleftrightarrow> (\<exists>xs. run_stmt pool st w = (Inr (r # xs), w'))"
proof (cases "run_stmt pool st w")
  case (Pair q w1)
  then show ?thesis
    by (cases q)
      (auto simp: query_row_def bindP_def retP_def failP_def split: list.splits)
qed

lemma query_row_run: "query_row pool st w = (r, w') \<Longrightarrow> \<exists>q. run_stmt pool st w = (q, w')"
  by (auto simp: query_row_def bindP_def retP_def failP_def split: prod.splits sum.splits list.splits)

text \<open>The ways \<open>query_row\<close> ends when a missing row is reported as the sentinel \<open>missing\<close>.\<close>

lemma query_row_cases:
  assumes run: "mapErrP (no_rows_as missing) (query_row pool st) w = (r, w')"
  obtains (fail) y where "run_stmt pool st w = (Inl (Driver y), w')" "y \<noteq> NoRows"
      "r = Inl (Driver y)"
    | (none) "run_stmt pool st w = (Inr [], w')" "r = Inl missing"
    | (row) x xs where "run_stmt pool st w = (Inr (x # xs), w')" "r = Inr x"
proof (cases "run_stmt pool st w")
  case (Pair q w1)
  show ?thesis
  proof (cases q)
    case (Inl e)
    with Pair run_stmt_InlD [of pool st w e w1] obtain y where "e = Driver y" "y \<noteq> NoRows" by blast
    with run Pair Inl fail show ?thesis
      by (auto simp: query_row_def mapErrP_def bindP_def no_rows_as_def)
  next
    case (Inr rows)
    with run Pair none row show ?thesis
      by (cases rows)
        (auto simp: query_row_def mapErrP_def bindP_def retP_def failP_def no_rows_as_def)
  qed
qed

lemma query_row_law:
  assumes st: "stmt_updates st v k P f" and sentinel: "\<And>y. missing \<noteq> Driver y"
  shows "update_law world_ok (\<lambda>w. v (db w)) k P f missing
      (mapErrP (no_rows_as missing) (query_row pool st))"
  unfolding update_law_def
proof (intro allI impI)
  fix w r w'
  assume ok: "world_ok w"
    and run: "mapErrP (no_rows_as missing) (query_row pool st) w = (r, w')"
  from run show "case r of Inr _ \<Rightarrow> updated world_ok (\<lambda>w. v (db w)) k P f w w'
      | Inl e \<Rightarrow> world_ok w' \<and>
          (if Is e missing then v (db w') = v (db w) \<and> (\<forall>r. v (db w) k = Some r \<longrightarrow> \<not> P r)
           else v (db w') = v (db w) \<or> updated world_ok (\<lambda>w. v (db w)) k P f w w')"
  proof (cases rule: query_row_cases)
    case fail
    with run_stmt_update_Inl [OF st ok, of pool] sentinel show ?thesis by auto
  next
    case none
    then obtain t where "st t (db w) = Inr ([], db w')" by (auto simp: sql_simps)
    with stmt_updatesD [OF st, of "db w" t "[]"] ok none show ?thesis by (simp add: world_ok_def)
  next
    case (row x xs)
    then obtain t where "st t (db w) = Inr (x # xs, db w')" by (auto simp: sql_simps)
    with stmt_updatesD [OF st, of "db w" t "x # xs"] ok row show ?thesis
      by (auto simp: updated_def world_ok_def)
  qed
qed

lemma query_row_result:
  assumes st: "stmt_updates st v k P f" and ok: "world_ok w"
    and run: "mapErrP (no_rows_as missing) (query_row pool st) w = (Inr r, w')"
  shows "v (db w') k = Some r"
  using run
proof (cases rule: query_row_cases)
  case (row x xs)
  then obtain t where "st t (db w) = Inr (x # xs, db w')" by (auto simp: sql_simps)
  with stmt_updatesD [OF st, of "db w" t "x # xs"] ok row show ?thesis
    by (auto simp: world_ok_def)
qed simp_all

subsection \<open>Statements that only read\<close>

definition stmt_reads :: "'r stmt \<Rightarrow> bool" where
  "stmt_reads st \<longleftrightarrow> (\<forall>t d rows d'. st t d = Inr (rows, d') \<longrightarrow> d' = d)"

lemma run_stmt_reads:
  assumes "stmt_reads st" "run_stmt pool st w = (r, w')"
  shows "db w' = db w"
  using run_stmt_db [OF assms(2)] assms(1) by (auto simp: stmt_reads_def)

lemma stays_reads:
  assumes st: "stmt_reads st"
    and R: "\<And>w w'. db w' = db w \<Longrightarrow> jobQueue w' = jobQueue w \<Longrightarrow> R w w'"
  shows "stays R (run_stmt pool st)"
  unfolding stays_def
proof
  fix w
  obtain r w' where run: "run_stmt pool st w = (r, w')" by (cases "run_stmt pool st w")
  with run_stmt_reads [OF st] run_stmt_queue show "R w (snd (run_stmt pool st w))"
    by (metis R snd_conv)
qed

lemma query_row_state:
  "snd (query_row pool st w) = snd (run_stmt pool st w)"
  "snd (exec_affecting pool st w) = snd (run_stmt pool st w)"
  by (auto simp: query_row_def exec_affecting_def bindP_def retP_def failP_def
      split: prod.splits sum.splits list.splits)

lemma mapErrP_state: "snd (mapErrP f m w) = snd (m w)"
  by (auto simp: mapErrP_def split: prod.splits sum.splits)

lemma stays_query_row:
  assumes "stays R (run_stmt pool st)"
  shows "stays R (query_row pool st)" "stays R (mapErrP f (query_row pool st))"
    "stays R (exec_affecting pool st)"
  using assms by (simp_all add: stays_def query_row_state mapErrP_state)

text \<open>The database is a service of its own: talking to it leaves what \<open>f\<close> shows of the rest alone.\<close>

definition pool_keeps :: "'e pgpool \<Rightarrow> ('e \<Rightarrow> 'v) \<Rightarrow> bool" where
  "pool_keeps pool f \<longleftrightarrow> (\<forall>e. f (snd (pg_outcome pool e)) = f e)"

lemma pool_keeps_run_stmt:
  assumes "pool_keeps pool f"
  shows "stays (unchanged (\<lambda>w. f (env w))) (run_stmt pool st)"
  unfolding stays_def
proof
  fix w
  have "env (snd (run_stmt pool st w)) = snd (pg_outcome pool (env w))"
    by (auto simp: run_stmt_def split: prod.splits pg_outcome.splits sum.splits)
  with assms show "unchanged (\<lambda>w. f (env w)) w (snd (run_stmt pool st w))"
    by (simp add: pool_keeps_def unchanged_def)
qed

text \<open>Calls that change neither the tables nor the queue, as those outside the program.\<close>

definition same_data :: "'e world \<Rightarrow> 'e world \<Rightarrow> bool" where
  "same_data w w' \<longleftrightarrow> db w' = db w \<and> jobQueue w' = jobQueue w"

interpretation data: world_order same_data
  by unfold_locales (simp_all add: same_data_def)

lemma same_data_ext [frame_intros]: "stays same_data (ext c)" "stays same_data (readP (ext_read d))"
  by (rule stays_ext stays_ext_read, simp add: same_data_def)+

lemma same_data_quiet: "stays same_data m \<Longrightarrow> stays (quiet world_ok (\<lambda>w. v (db w))) m"
  by (auto simp: stays_def same_data_def quiet_def world_ok_def)

end
