(* ===== verification/Room_Repository.thy ===== *)
theory Room_Repository
  imports Store "HOL-Library.Multiset"
begin

text \<open>
  \<open>internal/repository/rooms.go\<close>: the interface \<open>RoomRepository\<close>, its Postgres
  implementation, and the contract the services rely on, interpreted on the implementation.
\<close>

record 'w RoomRepository =
  rr_CreateRoom :: "Room \<Rightarrow> ('w, Room) prog"
  rr_ListRoomsByOwner :: "string \<Rightarrow> ('w, Room list) prog"
  rr_ListActiveRooms :: "('w, Room list) prog"
  rr_GetRoomByID :: "string \<Rightarrow> ('w, Room) prog"
  rr_UpdateRoomMedia :: "string \<Rightarrow> string option \<Rightarrow> ('w, Room) prog"
  rr_EndRoom :: "string \<Rightarrow> time \<Rightarrow> ('w, unit) prog"

subsection \<open>The statements\<close>

text \<open>
  \<open>INSERT INTO rooms (id, name, owner_user_id, media_id, status, created_at)\<close>: \<open>ended_at\<close> is
  left out, so it is null in the row that is stored and returned.
\<close>

definition rooms_insert :: "Room \<Rightarrow> Room stmt" where
  "rooms_insert room now d =
    (let row = room\<lparr>room_CreatedAt := timestamptz (room_CreatedAt room), room_EndedAt := None\<rparr>
     in if room_ID room \<in> room_ID ` set (rooms_tbl d)
        then Inl (''23505'', ''duplicate key value violates unique constraint'')
        else if room_OwnerUserID room \<notin> user_ID ` set (users_tbl d) \<or>
          (case room_MediaID room of None \<Rightarrow> False
             | Some i \<Rightarrow> i \<notin> media_ID ` set (media_tbl d))
        then Inl (''23503'', ''insert or update violates foreign key constraint'')
        else Inr ([row], d\<lparr>rooms_tbl := rooms_tbl d @ [row]\<rparr>))"

text \<open>
  \<open>ORDER BY created_at DESC\<close> (\<open>ASC\<close>): SQL leaves the order of equal keys open; the model keeps
  the order of insertion among them.
\<close>

definition rooms_by_owner :: "string \<Rightarrow> Room stmt" where
  "rooms_by_owner owner now d =
    Inr (sort_key (\<lambda>r. - room_CreatedAt r)
           (filter (\<lambda>r. room_OwnerUserID r = owner) (rooms_tbl d)), d)"

definition rooms_active :: "Room stmt" where
  "rooms_active now d =
    Inr (sort_key room_CreatedAt (filter (\<lambda>r. room_Status r = RoomActive) (rooms_tbl d)), d)"

definition rooms_select :: "string \<Rightarrow> Room stmt" where
  "rooms_select i now d = Inr (filter (\<lambda>r. room_ID r = i) (rooms_tbl d), d)"

text \<open>\<open>UPDATE rooms SET status = 'ended', ended_at = $2 WHERE id = $1 AND status = 'active'\<close>.\<close>

definition rooms_end :: "string \<Rightarrow> time \<Rightarrow> Room stmt" where
  "rooms_end i endedAt now d =
    (let hit = (\<lambda>r. room_ID r = i \<and> room_Status r = RoomActive);
         set_row = (\<lambda>r. r\<lparr>room_Status := RoomEnded, room_EndedAt := Some (timestamptz endedAt)\<rparr>)
     in Inr (map set_row (filter hit (rooms_tbl d)),
             d\<lparr>rooms_tbl := update_where hit set_row (rooms_tbl d)\<rparr>))"

text \<open>\<open>UPDATE rooms SET media_id = $2 WHERE id = $1 RETURNING ..\<close>.\<close>

definition rooms_set_media :: "string \<Rightarrow> string option \<Rightarrow> Room stmt" where
  "rooms_set_media i mediaID now d =
    (let hit = (\<lambda>r. room_ID r = i);
         set_row = (\<lambda>r. r\<lparr>room_MediaID := mediaID\<rparr>)
     in if filter hit (rooms_tbl d) \<noteq> [] \<and>
          (case mediaID of None \<Rightarrow> False | Some m \<Rightarrow> m \<notin> media_ID ` set (media_tbl d))
        then Inl (''23503'', ''insert or update violates foreign key constraint'')
        else Inr (map set_row (filter hit (rooms_tbl d)),
                  d\<lparr>rooms_tbl := update_where hit set_row (rooms_tbl d)\<rparr>))"

subsection \<open>The Postgres implementation\<close>

definition PostgresRoom_CreateRoom :: "'e pgpool \<Rightarrow> Room \<Rightarrow> ('e world, Room) prog" where
  "PostgresRoom_CreateRoom pool room = query_row pool (rooms_insert room)"

definition PostgresRoom_ListRoomsByOwner :: "'e pgpool \<Rightarrow> string \<Rightarrow> ('e world, Room list) prog" where
  "PostgresRoom_ListRoomsByOwner pool owner = run_stmt pool (rooms_by_owner owner)"

definition PostgresRoom_ListActiveRooms :: "'e pgpool \<Rightarrow> ('e world, Room list) prog" where
  "PostgresRoom_ListActiveRooms pool = run_stmt pool rooms_active"

definition PostgresRoom_GetRoomByID :: "'e pgpool \<Rightarrow> string \<Rightarrow> ('e world, Room) prog" where
  "PostgresRoom_GetRoomByID pool i =
    mapErrP (no_rows_as ErrNotFound) (query_row pool (rooms_select i))"

definition PostgresRoom_EndRoom :: "'e pgpool \<Rightarrow> string \<Rightarrow> time \<Rightarrow> ('e world, unit) prog" where
  "PostgresRoom_EndRoom pool i endedAt = exec_affecting pool (rooms_end i endedAt)"

definition PostgresRoom_UpdateRoomMedia ::
    "'e pgpool \<Rightarrow> string \<Rightarrow> string option \<Rightarrow> ('e world, Room) prog" where
  "PostgresRoom_UpdateRoomMedia pool i mediaID =
    mapErrP (no_rows_as ErrNotFound) (query_row pool (rooms_set_media i mediaID))"

definition NewPostgresRoomRepository :: "'e pgpool \<Rightarrow> 'e world RoomRepository" where
  "NewPostgresRoomRepository pool =
    \<lparr>rr_CreateRoom = PostgresRoom_CreateRoom pool,
     rr_ListRoomsByOwner = PostgresRoom_ListRoomsByOwner pool,
     rr_ListActiveRooms = PostgresRoom_ListActiveRooms pool,
     rr_GetRoomByID = PostgresRoom_GetRoomByID pool,
     rr_UpdateRoomMedia = PostgresRoom_UpdateRoomMedia pool,
     rr_EndRoom = PostgresRoom_EndRoom pool\<rparr>"

lemma NewPostgresRoomRepository_simps [simp]:
  "rr_CreateRoom (NewPostgresRoomRepository pool) = PostgresRoom_CreateRoom pool"
  "rr_ListRoomsByOwner (NewPostgresRoomRepository pool) = PostgresRoom_ListRoomsByOwner pool"
  "rr_ListActiveRooms (NewPostgresRoomRepository pool) = PostgresRoom_ListActiveRooms pool"
  "rr_GetRoomByID (NewPostgresRoomRepository pool) = PostgresRoom_GetRoomByID pool"
  "rr_UpdateRoomMedia (NewPostgresRoomRepository pool) = PostgresRoom_UpdateRoomMedia pool"
  "rr_EndRoom (NewPostgresRoomRepository pool) = PostgresRoom_EndRoom pool"
  by (simp_all add: NewPostgresRoomRepository_def)

subsection \<open>The contract\<close>

text \<open>
  What a service may assume of its \<open>RoomRepository\<close>: \<open>room_at\<close> is the room of an identifier,
  \<open>media_known\<close> the media identifiers a room may refer to.
\<close>

locale room_repository =
  fixes R :: "'w RoomRepository"
    and invar :: "'w \<Rightarrow> bool"
    and room_at :: "'w \<Rightarrow> string \<Rightarrow> Room option"
  assumes room_at_ID: "invar w \<Longrightarrow> room_at w i = Some r \<Longrightarrow> room_ID r = i"
    and GetRoomByID_quiet: "stays (quiet invar room_at) (rr_GetRoomByID R i)"
    and GetRoomByID_Inr: "invar w \<Longrightarrow> rr_GetRoomByID R i w = (Inr r, w') \<Longrightarrow> room_at w i = Some r"
    and GetRoomByID_missing:
      "invar w \<Longrightarrow> rr_GetRoomByID R i w = (Inl e, w') \<Longrightarrow> Is e ErrNotFound \<Longrightarrow> room_at w i = None"
    and ListActiveRooms_quiet: "stays (quiet invar room_at) (rr_ListActiveRooms R)"
    and ListActiveRooms_Inr: "invar w \<Longrightarrow> rr_ListActiveRooms R w = (Inr rs, w') \<Longrightarrow>
      distinct (map room_ID rs) \<and>
      set rs = {r. room_at w (room_ID r) = Some r \<and> room_Status r = RoomActive}"
    and ListRoomsByOwner_quiet: "stays (quiet invar room_at) (rr_ListRoomsByOwner R u)"
    and EndRoom_law: "update_law invar room_at i (\<lambda>r. room_Status r = RoomActive)
      (\<lambda>r. r\<lparr>room_Status := RoomEnded, room_EndedAt := Some (timestamptz t)\<rparr>) ErrNotFound
      (rr_EndRoom R i t)"
    and UpdateRoomMedia_law: "update_law invar room_at i (\<lambda>r. True)
      (\<lambda>r. r\<lparr>room_MediaID := m\<rparr>) ErrNotFound (rr_UpdateRoomMedia R i m)"
    and UpdateRoomMedia_row: "invar w \<Longrightarrow> rr_UpdateRoomMedia R i m w = (Inr r, w') \<Longrightarrow>
      room_at w' i = Some r"
    and CreateRoom_Inr: "invar w \<Longrightarrow> rr_CreateRoom R room w = (Inr r, w') \<Longrightarrow>
      invar w' \<and> room_at w (room_ID room) = None \<and>
      r = room\<lparr>room_CreatedAt := timestamptz (room_CreatedAt room), room_EndedAt := None\<rparr> \<and>
      room_at w' = (room_at w)(room_ID room \<mapsto> r)"
    and CreateRoom_Inl: "invar w \<Longrightarrow> rr_CreateRoom R room w = (Inl e, w') \<Longrightarrow>
      invar w' \<and> (room_at w' = room_at w \<or> room_at w (room_ID room) = None \<and>
        room_at w' = (room_at w)(room_ID room \<mapsto>
          room\<lparr>room_CreatedAt := timestamptz (room_CreatedAt room), room_EndedAt := None\<rparr>))"

subsection \<open>The implementation meets the contract\<close>

definition room_view :: "db \<Rightarrow> string \<Rightarrow> Room option" where
  "room_view d i = row_of room_ID i (rooms_tbl d)"

abbreviation room_row :: "'e world \<Rightarrow> string \<Rightarrow> Room option" where
  "room_row \<equiv> \<lambda>w. room_view (db w)"

lemma quiet_env: "db w' = db w \<Longrightarrow> quiet world_ok (\<lambda>w. v (db w)) w w'"
  by (simp add: quiet_def world_ok_def)

lemma rooms_insert_ok:
  assumes "db_ok d" "rooms_insert room now d = Inr (rows, d')"
  shows "db_ok d' \<and> room_ID room \<notin> room_ID ` set (rooms_tbl d) \<and>
    rows = [room\<lparr>room_CreatedAt := timestamptz (room_CreatedAt room), room_EndedAt := None\<rparr>] \<and>
    rooms_tbl d' = rooms_tbl d @ rows"
  using assms
  by (auto simp: rooms_insert_def Let_def db_ok_def db_unique_def db_foreign_def
      split: if_splits option.splits)

lemma db_ok_rooms_update:
  assumes "db_ok d" and key: "\<And>r. P r \<Longrightarrow> room_ID (f r) = room_ID r"
    and owner: "\<And>r. P r \<Longrightarrow> room_OwnerUserID (f r) = room_OwnerUserID r"
    and media: "\<And>r i. r \<in> set (rooms_tbl d) \<Longrightarrow> P r \<Longrightarrow> room_MediaID (f r) = Some i \<Longrightarrow>
      i \<in> media_ID ` set (media_tbl d)"
  shows "db_ok (d\<lparr>rooms_tbl := update_where P f (rooms_tbl d)\<rparr>)"
proof -
  have "db_unique (d\<lparr>rooms_tbl := update_where P f (rooms_tbl d)\<rparr>)"
    using assms(1) key by (simp add: db_ok_def db_unique_def map_update_where)
  moreover have "db_foreign (d\<lparr>rooms_tbl := update_where P f (rooms_tbl d)\<rparr>)"
    using assms(1) owner media
    unfolding db_ok_def db_foreign_def by (auto dest!: set_update_where)
  ultimately show ?thesis by (simp add: db_ok_def)
qed

lemma rooms_end_ok:
  assumes ok: "db_ok d" and run: "rooms_end i t now d = Inr (rows, d')"
  shows "db_ok d'"
proof -
  let ?hit = "\<lambda>r. room_ID r = i \<and> room_Status r = RoomActive"
  let ?f = "\<lambda>r. r\<lparr>room_Status := RoomEnded, room_EndedAt := Some (timestamptz t)\<rparr>"
  from ok have "db_ok (d\<lparr>rooms_tbl := update_where ?hit ?f (rooms_tbl d)\<rparr>)"
    by (rule db_ok_rooms_update) (use ok in \<open>auto simp: db_ok_def db_foreign_def\<close>)
  with run show ?thesis by (auto simp: rooms_end_def Let_def)
qed

lemma rooms_set_media_ok:
  assumes ok: "db_ok d" and run: "rooms_set_media i m now d = Inr (rows, d')"
  shows "db_ok d'"
proof -
  let ?hit = "\<lambda>r. room_ID r = i"
  let ?f = "\<lambda>r. r\<lparr>room_MediaID := m\<rparr>"
  from ok have "db_ok (d\<lparr>rooms_tbl := update_where ?hit ?f (rooms_tbl d)\<rparr>)"
    by (rule db_ok_rooms_update)
      (use run in \<open>auto simp: rooms_set_media_def Let_def filter_empty_conv
        split: if_splits option.splits\<close>)
  with run show ?thesis by (auto simp: rooms_set_media_def Let_def split: if_splits)
qed

lemma room_view_abs: "room_view = (\<lambda>d j. row_of room_ID j (rooms_tbl d))"
  by (simp add: fun_eq_iff room_view_def)

lemma db_ok_room_IDs: "db_ok d \<Longrightarrow> distinct (map room_ID (rooms_tbl d))"
  by (simp add: db_ok_def db_unique_def)

lemma rooms_end_updates:
  "stmt_updates (rooms_end i t) room_view i (\<lambda>r. room_Status r = RoomActive)
    (\<lambda>r. r\<lparr>room_Status := RoomEnded, room_EndedAt := Some (timestamptz t)\<rparr>)"
  unfolding room_view_abs
proof (rule keyed_stmt_updates)
  fix now d rows d'
  assume "db_ok d" and run: "rooms_end i t now d = Inr (rows, d')"
  then have "db_ok d'" by (rule rooms_end_ok)
  with run show "db_ok d' \<and> rows = map (\<lambda>r. r\<lparr>room_Status := RoomEnded,
        room_EndedAt := Some (timestamptz t)\<rparr>)
        (filter (\<lambda>r. room_ID r = i \<and> room_Status r = RoomActive) (rooms_tbl d)) \<and>
      rooms_tbl d' = update_where (\<lambda>r. room_ID r = i \<and> room_Status r = RoomActive)
        (\<lambda>r. r\<lparr>room_Status := RoomEnded, room_EndedAt := Some (timestamptz t)\<rparr>) (rooms_tbl d)"
    by (auto simp: rooms_end_def Let_def)
qed (simp_all add: db_ok_room_IDs)

lemma rooms_set_media_updates:
  "stmt_updates (rooms_set_media i m) room_view i (\<lambda>r. True) (\<lambda>r. r\<lparr>room_MediaID := m\<rparr>)"
  unfolding room_view_abs
proof (rule keyed_stmt_updates)
  fix now d rows d'
  assume "db_ok d" and run: "rooms_set_media i m now d = Inr (rows, d')"
  then have "db_ok d'" by (rule rooms_set_media_ok)
  with run show "db_ok d' \<and> rows = map (\<lambda>r. r\<lparr>room_MediaID := m\<rparr>)
        (filter (\<lambda>r. room_ID r = i \<and> True) (rooms_tbl d)) \<and>
      rooms_tbl d' = update_where (\<lambda>r. room_ID r = i \<and> True)
        (\<lambda>r. r\<lparr>room_MediaID := m\<rparr>) (rooms_tbl d)"
    by (auto simp: rooms_set_media_def Let_def split: if_splits)
qed (simp_all add: db_ok_room_IDs)

lemma rooms_reads: "stmt_reads (rooms_select i)" "stmt_reads rooms_active"
    "stmt_reads (rooms_by_owner u)"
  by (auto simp: stmt_reads_def rooms_select_def rooms_active_def rooms_by_owner_def)

lemma rooms_quiet: "stmt_reads st \<Longrightarrow> stays (quiet world_ok (\<lambda>w. v (db w))) (run_stmt pool st)"
  by (rule stays_reads) (auto intro: quiet_env)

lemma rooms_select_rows:
  "db_ok d \<Longrightarrow> rooms_select i t d =
    Inr (case room_view d i of None \<Rightarrow> [] | Some r \<Rightarrow> [r], d)"
  by (simp add: rooms_select_def room_view_def filter_key_row_of' db_ok_def db_unique_def)

lemma rooms_active_rows:
  assumes ok: "db_ok d" and run: "rooms_active t d = Inr (rs, d')"
  shows "distinct (map room_ID rs) \<and>
    set rs = {r. room_view d (room_ID r) = Some r \<and> room_Status r = RoomActive}"
proof -
  let ?P = "\<lambda>r. room_Status r = RoomActive"
  from ok have dist: "distinct (map room_ID (rooms_tbl d))" by (simp add: db_ok_def db_unique_def)
  from run have rs: "rs = sort_key room_CreatedAt (filter ?P (rooms_tbl d))"
    by (auto simp: rooms_active_def)
  have "mset (map room_ID rs) = mset (map room_ID (filter ?P (rooms_tbl d)))"
    by (simp add: rs)
  moreover have "distinct (map room_ID (filter ?P (rooms_tbl d)))"
    using dist by (rule distinct_map_filter)
  ultimately have "distinct (map room_ID rs)" by (metis mset_eq_imp_distinct_iff)
  moreover have "r \<in> set (rooms_tbl d) \<longleftrightarrow> room_view d (room_ID r) = Some r" for r
    unfolding room_view_def using row_of_member [OF dist, of r] row_of_Some by metis
  ultimately show ?thesis by (auto simp: rs)
qed

interpretation pg_rooms: room_repository "NewPostgresRoomRepository pool" world_ok room_row
  for pool :: "'e pgpool"
proof (unfold_locales, simp_all only: NewPostgresRoomRepository_simps)
  fix w w' :: "'e world" and i u :: string and t :: time and m :: "string option"
    and room r :: Room and rs :: "Room list" and e :: err
  show "room_row w i = Some r \<Longrightarrow> room_ID r = i" if "world_ok w"
    by (auto simp: room_view_def dest: row_of_Some)
  show "stays (quiet world_ok room_row) (PostgresRoom_GetRoomByID pool i)"
    unfolding PostgresRoom_GetRoomByID_def
    by (intro stays_query_row rooms_quiet rooms_reads)
  show "stays (quiet world_ok room_row) (PostgresRoom_ListActiveRooms pool)"
    unfolding PostgresRoom_ListActiveRooms_def by (intro rooms_quiet rooms_reads)
  show "stays (quiet world_ok room_row) (PostgresRoom_ListRoomsByOwner pool u)"
    unfolding PostgresRoom_ListRoomsByOwner_def by (intro rooms_quiet rooms_reads)
  show "update_law world_ok room_row i (\<lambda>r. room_Status r = RoomActive)
      (\<lambda>r. r\<lparr>room_Status := RoomEnded, room_EndedAt := Some (timestamptz t)\<rparr>) ErrNotFound
      (PostgresRoom_EndRoom pool i t)"
    unfolding PostgresRoom_EndRoom_def by (intro exec_affecting_law rooms_end_updates)
  show "update_law world_ok room_row i (\<lambda>r. True) (\<lambda>r. r\<lparr>room_MediaID := m\<rparr>) ErrNotFound
      (PostgresRoom_UpdateRoomMedia pool i m)"
    unfolding PostgresRoom_UpdateRoomMedia_def by (intro query_row_law rooms_set_media_updates) simp
  assume ok: "world_ok w"
  show "PostgresRoom_GetRoomByID pool i w = (Inr r, w') \<Longrightarrow> room_row w i = Some r"
    unfolding PostgresRoom_GetRoomByID_def
    by (erule query_row_cases)
      (use ok in \<open>auto simp: sql_simps rooms_select_rows world_ok_def split: option.splits\<close>)
  show "PostgresRoom_GetRoomByID pool i w = (Inl e, w') \<Longrightarrow> Is e ErrNotFound \<Longrightarrow> room_row w i = None"
    unfolding PostgresRoom_GetRoomByID_def
    by (erule query_row_cases)
      (use ok in \<open>auto simp: sql_simps rooms_select_rows world_ok_def split: option.splits\<close>)
  show "PostgresRoom_ListActiveRooms pool w = (Inr rs, w') \<Longrightarrow> distinct (map room_ID rs) \<and>
      set rs = {r. room_row w (room_ID r) = Some r \<and> room_Status r = RoomActive}"
    unfolding PostgresRoom_ListActiveRooms_def
    using ok rooms_active_rows [of "db w"] by (auto simp: sql_simps world_ok_def)
  show "PostgresRoom_UpdateRoomMedia pool i m w = (Inr r, w') \<Longrightarrow> room_row w' i = Some r"
    unfolding PostgresRoom_UpdateRoomMedia_def
    by (rule query_row_result [OF rooms_set_media_updates ok])
  let ?row = "room\<lparr>room_CreatedAt := timestamptz (room_CreatedAt room), room_EndedAt := None\<rparr>"
  have ins: "world_ok w' \<and> room_row w (room_ID room) = None \<and> rows = [?row] \<and>
      room_row w' = (room_row w)(room_ID room \<mapsto> ?row)"
    if "rooms_insert room t' (db w) = Inr (rows, db w')" for t' rows
    using rooms_insert_ok [OF _ that] ok
    by (auto simp: world_ok_def room_view_def fun_eq_iff row_of_None row_of_insert)
  show "PostgresRoom_CreateRoom pool room w = (Inr r, w') \<Longrightarrow> world_ok w' \<and>
      room_row w (room_ID room) = None \<and> r = ?row \<and> room_row w' = (room_row w)(room_ID room \<mapsto> r)"
    by (auto simp: PostgresRoom_CreateRoom_def query_row_Inr dest!: run_stmt_answer ins)
  show "PostgresRoom_CreateRoom pool room w = (Inl e, w') \<Longrightarrow> world_ok w' \<and>
      (room_row w' = room_row w \<or> room_row w (room_ID room) = None \<and>
        room_row w' = (room_row w)(room_ID room \<mapsto> ?row))"
  proof -
    assume "PostgresRoom_CreateRoom pool room w = (Inl e, w')"
    then obtain q where "run_stmt pool (rooms_insert room) w = (q, w')"
      unfolding PostgresRoom_CreateRoom_def by (blast dest: query_row_run)
    from run_stmt_db [OF this] ins ok show ?thesis by (auto simp: world_ok_def)
  qed
qed

end
