(* ===== verification/Media_Repository.thy ===== *)
theory Media_Repository
  imports Store "HOL-Library.Multiset"
begin

text \<open>
  \<open>internal/repository/media.go\<close>: the interface \<open>MediaRepository\<close>, its Postgres
  implementation, and the contract the services rely on, interpreted on the implementation.
  A deleted row stays in the table with its \<open>deleted_at\<close>; every statement but the insertion
  sees rows that are not deleted only.
\<close>

record 'w MediaRepository =
  mr_Create :: "Media \<Rightarrow> ('w, Media) prog"
  mr_ListByOwner :: "string \<Rightarrow> ('w, Media list) prog"
  mr_GetByID :: "string \<Rightarrow> ('w, Media) prog"
  mr_ListExistingIDs :: "string list \<Rightarrow> ('w, string list) prog"
  mr_UpdateUploadState :: "string \<Rightarrow> MediaStatus \<Rightarrow> int \<Rightarrow> string \<Rightarrow> ('w, unit) prog"
  mr_UpdateStatus :: "string \<Rightarrow> MediaStatus \<Rightarrow> ('w, unit) prog"
  mr_UpdateTranscodeResult ::
    "string \<Rightarrow> string \<Rightarrow> string option \<Rightarrow> int option \<Rightarrow> MediaStatus \<Rightarrow> ('w, unit) prog"
  mr_SoftDelete :: "string \<Rightarrow> time \<Rightarrow> ('w, unit) prog"

definition live :: "Media \<Rightarrow> bool" where
  "live m \<longleftrightarrow> media_DeletedAt m = None"

subsection \<open>The statements\<close>

definition stored_media :: "Media \<Rightarrow> Media" where
  "stored_media m =
    m\<lparr>media_CreatedAt := timestamptz (media_CreatedAt m),
      media_DeletedAt := map_option timestamptz (media_DeletedAt m)\<rparr>"

definition media_insert :: "Media \<Rightarrow> Media stmt" where
  "media_insert m now d =
    (if media_ID m \<in> media_ID ` set (media_tbl d) \<or>
        media_StorageKey m \<in> media_StorageKey ` set (media_tbl d)
     then Inl (''23505'', ''duplicate key value violates unique constraint'')
     else if media_OwnerUserID m \<notin> user_ID ` set (users_tbl d)
     then Inl (''23503'', ''insert or update violates foreign key constraint'')
     else Inr ([stored_media m], d\<lparr>media_tbl := media_tbl d @ [stored_media m]\<rparr>))"

definition media_by_owner :: "string \<Rightarrow> Media stmt" where
  "media_by_owner owner now d =
    Inr (sort_key (\<lambda>m. - media_CreatedAt m)
           (filter (\<lambda>m. media_OwnerUserID m = owner \<and> live m) (media_tbl d)), d)"

definition media_select :: "string \<Rightarrow> Media stmt" where
  "media_select i now d = Inr (filter (\<lambda>m. media_ID m = i \<and> live m) (media_tbl d), d)"

text \<open>\<open>SELECT id FROM media WHERE deleted_at IS NULL AND id = ANY($1)\<close>.\<close>

definition media_existing :: "string list \<Rightarrow> string stmt" where
  "media_existing ids now d =
    Inr (map media_ID (filter (\<lambda>m. live m \<and> media_ID m \<in> set ids) (media_tbl d)), d)"

text \<open>\<open>UPDATE media SET .. WHERE id = $1 AND deleted_at IS NULL\<close>.\<close>

definition media_update :: "string \<Rightarrow> (Media \<Rightarrow> Media) \<Rightarrow> Media stmt" where
  "media_update i f now d =
    (let hit = (\<lambda>m. media_ID m = i \<and> live m)
     in Inr (map f (filter hit (media_tbl d)), d\<lparr>media_tbl := update_where hit f (media_tbl d)\<rparr>))"

definition set_upload :: "MediaStatus \<Rightarrow> int \<Rightarrow> string \<Rightarrow> Media \<Rightarrow> Media" where
  "set_upload st sz mime m =
    m\<lparr>media_Status := st, media_FileSizeBytes := sz, media_MimeType := mime\<rparr>"

definition set_status :: "MediaStatus \<Rightarrow> Media \<Rightarrow> Media" where
  "set_status st m = m\<lparr>media_Status := st\<rparr>"

definition set_transcode ::
    "string \<Rightarrow> string option \<Rightarrow> int option \<Rightarrow> MediaStatus \<Rightarrow> Media \<Rightarrow> Media" where
  "set_transcode url preview dur st m =
    m\<lparr>media_Status := st, media_PlaybackURL := url, media_PreviewURL := preview,
      media_DurationSec := dur, media_MimeType := ''application/vnd.apple.mpegurl''\<rparr>"

definition set_deleted :: "time \<Rightarrow> Media \<Rightarrow> Media" where
  "set_deleted t m = m\<lparr>media_DeletedAt := Some (timestamptz t)\<rparr>"

text \<open>\<open>duration_sec\<close> is an \<open>INTEGER\<close> column: 32 bits.\<close>

definition fits_int4 :: "int \<Rightarrow> bool" where
  "fits_int4 n \<longleftrightarrow> - 2147483648 \<le> n \<and> n \<le> 2147483647"

definition media_set_transcode ::
    "string \<Rightarrow> string \<Rightarrow> string option \<Rightarrow> int option \<Rightarrow> MediaStatus \<Rightarrow> Media stmt" where
  "media_set_transcode i url preview dur st now d =
    (if (case dur of None \<Rightarrow> True | Some n \<Rightarrow> fits_int4 n)
     then media_update i (set_transcode url preview dur st) now d
     else Inl (''22003'', ''integer out of range''))"

subsection \<open>The Postgres implementation\<close>

definition PostgresMedia_Create :: "'e pgpool \<Rightarrow> Media \<Rightarrow> ('e world, Media) prog" where
  "PostgresMedia_Create pool m = query_row pool (media_insert m)"

definition PostgresMedia_ListByOwner :: "'e pgpool \<Rightarrow> string \<Rightarrow> ('e world, Media list) prog" where
  "PostgresMedia_ListByOwner pool owner = run_stmt pool (media_by_owner owner)"

definition PostgresMedia_GetByID :: "'e pgpool \<Rightarrow> string \<Rightarrow> ('e world, Media) prog" where
  "PostgresMedia_GetByID pool i =
    mapErrP (no_rows_as ErrNotFound) (query_row pool (media_select i))"

definition PostgresMedia_ListExistingIDs ::
    "'e pgpool \<Rightarrow> string list \<Rightarrow> ('e world, string list) prog" where
  "PostgresMedia_ListExistingIDs pool ids =
    (if ids = [] then retP [] else run_stmt pool (media_existing ids))"

definition PostgresMedia_UpdateUploadState ::
    "'e pgpool \<Rightarrow> string \<Rightarrow> MediaStatus \<Rightarrow> int \<Rightarrow> string \<Rightarrow> ('e world, unit) prog" where
  "PostgresMedia_UpdateUploadState pool i st sz mime =
    exec_affecting pool (media_update i (set_upload st sz mime))"

definition PostgresMedia_UpdateStatus ::
    "'e pgpool \<Rightarrow> string \<Rightarrow> MediaStatus \<Rightarrow> ('e world, unit) prog" where
  "PostgresMedia_UpdateStatus pool i st = exec_affecting pool (media_update i (set_status st))"

definition PostgresMedia_UpdateTranscodeResult ::
    "'e pgpool \<Rightarrow> string \<Rightarrow> string \<Rightarrow> string option \<Rightarrow> int option \<Rightarrow> MediaStatus \<Rightarrow> ('e world, unit) prog"
  where
  "PostgresMedia_UpdateTranscodeResult pool i url preview dur st =
    exec_affecting pool (media_set_transcode i url preview dur st)"

definition PostgresMedia_SoftDelete :: "'e pgpool \<Rightarrow> string \<Rightarrow> time \<Rightarrow> ('e world, unit) prog" where
  "PostgresMedia_SoftDelete pool i deletedAt =
    exec_affecting pool (media_update i (set_deleted deletedAt))"

definition NewPostgresMediaRepository :: "'e pgpool \<Rightarrow> 'e world MediaRepository" where
  "NewPostgresMediaRepository pool =
    \<lparr>mr_Create = PostgresMedia_Create pool,
     mr_ListByOwner = PostgresMedia_ListByOwner pool,
     mr_GetByID = PostgresMedia_GetByID pool,
     mr_ListExistingIDs = PostgresMedia_ListExistingIDs pool,
     mr_UpdateUploadState = PostgresMedia_UpdateUploadState pool,
     mr_UpdateStatus = PostgresMedia_UpdateStatus pool,
     mr_UpdateTranscodeResult = PostgresMedia_UpdateTranscodeResult pool,
     mr_SoftDelete = PostgresMedia_SoftDelete pool\<rparr>"

lemma NewPostgresMediaRepository_simps [simp]:
  "mr_Create (NewPostgresMediaRepository pool) = PostgresMedia_Create pool"
  "mr_ListByOwner (NewPostgresMediaRepository pool) = PostgresMedia_ListByOwner pool"
  "mr_GetByID (NewPostgresMediaRepository pool) = PostgresMedia_GetByID pool"
  "mr_ListExistingIDs (NewPostgresMediaRepository pool) = PostgresMedia_ListExistingIDs pool"
  "mr_UpdateUploadState (NewPostgresMediaRepository pool) = PostgresMedia_UpdateUploadState pool"
  "mr_UpdateStatus (NewPostgresMediaRepository pool) = PostgresMedia_UpdateStatus pool"
  "mr_UpdateTranscodeResult (NewPostgresMediaRepository pool) =
     PostgresMedia_UpdateTranscodeResult pool"
  "mr_SoftDelete (NewPostgresMediaRepository pool) = PostgresMedia_SoftDelete pool"
  by (simp_all add: NewPostgresMediaRepository_def)

subsection \<open>The contract\<close>

text \<open>\<open>media_at\<close> is the row of an identifier, deleted or not.\<close>

locale media_repository =
  fixes R :: "'w MediaRepository"
    and invar :: "'w \<Rightarrow> bool"
    and media_at :: "'w \<Rightarrow> string \<Rightarrow> Media option"
  assumes media_at_ID: "invar w \<Longrightarrow> media_at w i = Some m \<Longrightarrow> media_ID m = i"
    and GetByID_quiet: "stays (quiet invar media_at) (mr_GetByID R i)"
    and GetByID_Inr: "invar w \<Longrightarrow> mr_GetByID R i w = (Inr m, w') \<Longrightarrow>
      media_at w i = Some m \<and> live m"
    and GetByID_missing: "invar w \<Longrightarrow> mr_GetByID R i w = (Inl e, w') \<Longrightarrow> Is e ErrNotFound \<Longrightarrow>
      media_at w i = Some m \<Longrightarrow> \<not> live m"
    and ListByOwner_quiet: "stays (quiet invar media_at) (mr_ListByOwner R u)"
    and ListByOwner_Inr: "invar w \<Longrightarrow> mr_ListByOwner R u w = (Inr ms, w') \<Longrightarrow>
      distinct (map media_ID ms) \<and> sorted (map (\<lambda>m. - media_CreatedAt m) ms) \<and>
      set ms = {m. media_at w (media_ID m) = Some m \<and> media_OwnerUserID m = u \<and> live m}"
    and ListExistingIDs_quiet: "stays (quiet invar media_at) (mr_ListExistingIDs R ids)"
    and ListExistingIDs_Inr: "invar w \<Longrightarrow> mr_ListExistingIDs R ids w = (Inr js, w') \<Longrightarrow>
      set js = {i \<in> set ids. \<exists>m. media_at w i = Some m \<and> live m}"
    and UpdateUploadState_law: "update_law invar media_at i live (set_upload st sz mime) ErrNotFound
      (mr_UpdateUploadState R i st sz mime)"
    and UpdateStatus_law: "update_law invar media_at i live (set_status st) ErrNotFound
      (mr_UpdateStatus R i st)"
    and UpdateTranscodeResult_law:
      "update_law invar media_at i live (set_transcode url preview dur st) ErrNotFound
        (mr_UpdateTranscodeResult R i url preview dur st)"
    and SoftDelete_law: "update_law invar media_at i live (set_deleted t) ErrNotFound
      (mr_SoftDelete R i t)"
    and Create_Inr: "invar w \<Longrightarrow> mr_Create R m w = (Inr m', w') \<Longrightarrow>
      invar w' \<and> media_at w (media_ID m) = None \<and> m' = stored_media m \<and>
      media_at w' = (media_at w)(media_ID m \<mapsto> stored_media m)"
    and Create_Inl: "invar w \<Longrightarrow> mr_Create R m w = (Inl e, w') \<Longrightarrow>
      invar w' \<and> (media_at w' = media_at w \<or> media_at w (media_ID m) = None \<and>
        media_at w' = (media_at w)(media_ID m \<mapsto> stored_media m))"

subsection \<open>The implementation meets the contract\<close>

definition media_view :: "db \<Rightarrow> string \<Rightarrow> Media option" where
  "media_view d i = row_of media_ID i (media_tbl d)"

abbreviation media_row :: "'e world \<Rightarrow> string \<Rightarrow> Media option" where
  "media_row \<equiv> \<lambda>w. media_view (db w)"

lemma media_view_abs: "media_view = (\<lambda>d j. row_of media_ID j (media_tbl d))"
  by (simp add: fun_eq_iff media_view_def)

lemma db_ok_media_IDs: "db_ok d \<Longrightarrow> distinct (map media_ID (media_tbl d))"
  by (simp add: db_ok_def db_unique_def)

lemma media_member_view: "db_ok d \<Longrightarrow> m \<in> set (media_tbl d) \<longleftrightarrow> media_view d (media_ID m) = Some m"
  unfolding media_view_def using row_of_member [OF db_ok_media_IDs] row_of_Some by metis

lemma stored_media_simps [simp]:
  "media_ID (stored_media m) = media_ID m"
  "media_OwnerUserID (stored_media m) = media_OwnerUserID m"
  "media_StorageKey (stored_media m) = media_StorageKey m"
  "media_Status (stored_media m) = media_Status m"
  "live (stored_media m) = live m"
  by (simp_all add: stored_media_def live_def)

lemma media_insert_ok:
  assumes "db_ok d" "media_insert m now d = Inr (rows, d')"
  shows "db_ok d' \<and> media_ID m \<notin> media_ID ` set (media_tbl d) \<and> rows = [stored_media m] \<and>
    media_tbl d' = media_tbl d @ rows"
  using assms
  by (auto simp: media_insert_def db_ok_def db_unique_def db_foreign_def split: if_splits)

text \<open>A change of a media row that keeps the columns other tables and constraints look at.\<close>

definition keeps_media_keys :: "(Media \<Rightarrow> Media) \<Rightarrow> bool" where
  "keeps_media_keys f \<longleftrightarrow> (\<forall>m. media_ID (f m) = media_ID m \<and>
    media_StorageKey (f m) = media_StorageKey m \<and> media_OwnerUserID (f m) = media_OwnerUserID m)"

lemma keeps_media_keys [intro]:
  "keeps_media_keys (set_upload st sz mime)" "keeps_media_keys (set_status st)"
  "keeps_media_keys (set_transcode url preview dur st)" "keeps_media_keys (set_deleted t)"
  by (simp_all add: keeps_media_keys_def set_upload_def set_status_def set_transcode_def
      set_deleted_def)

lemma db_ok_media_update:
  assumes ok: "db_ok d" and f: "keeps_media_keys f"
  shows "db_ok (d\<lparr>media_tbl := update_where P f (media_tbl d)\<rparr>)"
proof -
  let ?new = "update_where P f (media_tbl d)"
  from f have "map media_ID ?new = map media_ID (media_tbl d)"
    "map media_StorageKey ?new = map media_StorageKey (media_tbl d)"
    "map media_OwnerUserID ?new = map media_OwnerUserID (media_tbl d)"
    by (simp_all add: map_update_where keeps_media_keys_def)
  moreover from this(1,3) have "media_ID ` set ?new = media_ID ` set (media_tbl d)"
    "media_OwnerUserID ` set ?new = media_OwnerUserID ` set (media_tbl d)"
    by (metis list.set_map)+
  moreover have "media_OwnerUserID m \<in> user_ID ` set (users_tbl d)" if "m \<in> set ?new" for m
    using that ok calculation(5) unfolding db_ok_def db_foreign_def
    by (metis (no_types, lifting) imageE imageI)
  ultimately show ?thesis
    using ok unfolding db_ok_def db_unique_def db_foreign_def by simp
qed

lemma media_update_updates:
  assumes f: "keeps_media_keys f"
  shows "stmt_updates (media_update i f) media_view i live f"
  unfolding media_view_abs
proof (rule keyed_stmt_updates)
  fix now d rows d'
  assume ok: "db_ok d" and run: "media_update i f now d = Inr (rows, d')"
  have "db_ok (d\<lparr>media_tbl := update_where (\<lambda>m. media_ID m = i \<and> live m) f (media_tbl d)\<rparr>)"
    by (rule db_ok_media_update [OF ok f])
  with run show "db_ok d' \<and> rows = map f (filter (\<lambda>m. media_ID m = i \<and> live m) (media_tbl d)) \<and>
      media_tbl d' = update_where (\<lambda>m. media_ID m = i \<and> live m) f (media_tbl d)"
    by (auto simp: media_update_def Let_def)
qed (use f in \<open>simp_all add: db_ok_media_IDs keeps_media_keys_def\<close>)

lemma media_set_transcode_updates:
  "stmt_updates (media_set_transcode i url preview dur st) media_view i live
    (set_transcode url preview dur st)"
  using media_update_updates [OF keeps_media_keys(3)]
  by (auto simp: stmt_updates_def media_set_transcode_def)

lemma media_reads: "stmt_reads (media_select i)" "stmt_reads (media_existing ids)"
    "stmt_reads (media_by_owner u)"
  by (auto simp: stmt_reads_def media_select_def media_existing_def media_by_owner_def)

lemma media_select_rows:
  "db_ok d \<Longrightarrow> media_select i t d =
    Inr (case media_view d i of None \<Rightarrow> [] | Some m \<Rightarrow> if live m then [m] else [], d)"
  by (simp add: media_select_def media_view_def filter_key_row_of db_ok_media_IDs)

lemma media_by_owner_rows:
  assumes ok: "db_ok d" and run: "media_by_owner u t d = Inr (ms, d')"
  shows "distinct (map media_ID ms) \<and> sorted (map (\<lambda>m. - media_CreatedAt m) ms) \<and>
    set ms = {m. media_view d (media_ID m) = Some m \<and> media_OwnerUserID m = u \<and> live m}"
proof -
  let ?sel = "filter (\<lambda>m. media_OwnerUserID m = u \<and> live m) (media_tbl d)"
  from run have ms: "ms = sort_key (\<lambda>m. - media_CreatedAt m) ?sel"
    by (auto simp: media_by_owner_def)
  have "mset (map media_ID ms) = mset (map media_ID ?sel)" by (simp add: ms)
  moreover have "distinct (map media_ID ?sel)"
    using db_ok_media_IDs [OF ok] by (rule distinct_map_filter)
  ultimately have "distinct (map media_ID ms)" by (metis mset_eq_imp_distinct_iff)
  then show ?thesis using media_member_view [OF ok] by (auto simp: ms)
qed

lemma media_quiet_env: "db w' = db w \<Longrightarrow> quiet world_ok media_row w w'"
  by (simp add: quiet_def world_ok_def)

lemma media_quiet: "stmt_reads st \<Longrightarrow> stays (quiet world_ok media_row) (run_stmt pool st)"
  by (rule stays_reads) (auto intro: media_quiet_env)

interpretation pg_media: media_repository "NewPostgresMediaRepository pool" world_ok media_row
  for pool :: "'e pgpool"
proof (unfold_locales, simp_all only: NewPostgresMediaRepository_simps)
  fix w w' :: "'e world" and i u url mime :: string and preview dur st sz t
    and m m' :: Media and ms ids js e
  show "media_row w i = Some m \<Longrightarrow> media_ID m = i" if "world_ok w"
    by (auto simp: media_view_def dest: row_of_Some)
  show "stays (quiet world_ok media_row) (PostgresMedia_GetByID pool i)"
    unfolding PostgresMedia_GetByID_def
    by (intro stays_query_row media_quiet media_reads)
  show "stays (quiet world_ok media_row) (PostgresMedia_ListByOwner pool u)"
    unfolding PostgresMedia_ListByOwner_def by (intro media_quiet media_reads)
  show "stays (quiet world_ok media_row) (PostgresMedia_ListExistingIDs pool ids)"
    using media_quiet [OF media_reads(2), of pool ids]
    by (auto simp: PostgresMedia_ListExistingIDs_def stays_def retP_def quiet_def)
  show "update_law world_ok media_row i live (set_upload st sz mime) ErrNotFound
      (PostgresMedia_UpdateUploadState pool i st sz mime)"
    unfolding PostgresMedia_UpdateUploadState_def by (intro exec_affecting_law media_update_updates) auto
  show "update_law world_ok media_row i live (set_status st) ErrNotFound
      (PostgresMedia_UpdateStatus pool i st)"
    unfolding PostgresMedia_UpdateStatus_def by (intro exec_affecting_law media_update_updates) auto
  show "update_law world_ok media_row i live (set_transcode url preview dur st) ErrNotFound
      (PostgresMedia_UpdateTranscodeResult pool i url preview dur st)"
    unfolding PostgresMedia_UpdateTranscodeResult_def
    by (intro exec_affecting_law media_set_transcode_updates)
  show "update_law world_ok media_row i live (set_deleted t) ErrNotFound
      (PostgresMedia_SoftDelete pool i t)"
    unfolding PostgresMedia_SoftDelete_def by (intro exec_affecting_law media_update_updates) auto
  assume ok: "world_ok w"
  show "PostgresMedia_GetByID pool i w = (Inr m, w') \<Longrightarrow> media_row w i = Some m \<and> live m"
    unfolding PostgresMedia_GetByID_def
    by (erule query_row_cases)
      (use ok in \<open>auto simp: sql_simps media_select_rows world_ok_def split: option.splits if_splits\<close>)
  show "PostgresMedia_GetByID pool i w = (Inl e, w') \<Longrightarrow> Is e ErrNotFound \<Longrightarrow>
      media_row w i = Some m \<Longrightarrow> \<not> live m"
    unfolding PostgresMedia_GetByID_def
    by (erule query_row_cases)
      (use ok in \<open>auto simp: sql_simps media_select_rows world_ok_def split: option.splits if_splits\<close>)
  show "PostgresMedia_ListByOwner pool u w = (Inr ms, w') \<Longrightarrow>
      distinct (map media_ID ms) \<and> sorted (map (\<lambda>m. - media_CreatedAt m) ms) \<and>
      set ms = {m. media_row w (media_ID m) = Some m \<and> media_OwnerUserID m = u \<and> live m}"
    unfolding PostgresMedia_ListByOwner_def
    by (rule media_by_owner_rows) (use ok in \<open>auto simp: world_ok_def dest: run_stmt_answer\<close>)
  show "PostgresMedia_ListExistingIDs pool ids w = (Inr js, w') \<Longrightarrow>
      set js = {i \<in> set ids. \<exists>m. media_row w i = Some m \<and> live m}"
  proof -
    assume run: "PostgresMedia_ListExistingIDs pool ids w = (Inr js, w')"
    show ?thesis
    proof (cases "ids = []")
      case True
      with run show ?thesis by (simp add: PostgresMedia_ListExistingIDs_def prog_simps)
    next
      case False
      with run have "js = map media_ID (filter (\<lambda>m. live m \<and> media_ID m \<in> set ids) (media_tbl (db w)))"
        by (auto simp: PostgresMedia_ListExistingIDs_def media_existing_def sql_simps)
      moreover have "m \<in> set (media_tbl (db w)) \<longleftrightarrow> media_row w (media_ID m) = Some m" for m
        using ok by (simp add: world_ok_def media_member_view)
      ultimately show ?thesis
        by (auto simp: media_view_def image_iff dest: row_of_Some)
    qed
  qed
  have ins: "world_ok w' \<and> media_row w (media_ID m) = None \<and> rows = [stored_media m] \<and>
      media_row w' = (media_row w)(media_ID m \<mapsto> stored_media m)"
    if "media_insert m t' (db w) = Inr (rows, db w')" for t' rows
    using media_insert_ok [OF _ that] ok
    by (auto simp: world_ok_def media_view_def fun_eq_iff row_of_None row_of_insert)
  show "PostgresMedia_Create pool m w = (Inr m', w') \<Longrightarrow> world_ok w' \<and>
      media_row w (media_ID m) = None \<and> m' = stored_media m \<and>
      media_row w' = (media_row w)(media_ID m \<mapsto> stored_media m)"
    by (auto simp: PostgresMedia_Create_def query_row_Inr dest!: run_stmt_answer ins)
  show "PostgresMedia_Create pool m w = (Inl e, w') \<Longrightarrow> world_ok w' \<and>
      (media_row w' = media_row w \<or> media_row w (media_ID m) = None \<and>
        media_row w' = (media_row w)(media_ID m \<mapsto> stored_media m))"
  proof -
    assume "PostgresMedia_Create pool m w = (Inl e, w')"
    then obtain q where "run_stmt pool (media_insert m) w = (q, w')"
      unfolding PostgresMedia_Create_def by (blast dest: query_row_run)
    from run_stmt_db [OF this] ins ok show ?thesis by (auto simp: world_ok_def)
  qed
qed

subsection \<open>The life of a media\<close>

text \<open>A media keeps what identifies it and its key in the store, and a deleted one never changes.\<close>

definition media_evolves :: "Media \<Rightarrow> Media \<Rightarrow> bool" where
  "media_evolves m m' \<longleftrightarrow>
    media_ID m' = media_ID m \<and> media_OwnerUserID m' = media_OwnerUserID m \<and>
    media_StorageKey m' = media_StorageKey m \<and> media_OriginalName m' = media_OriginalName m \<and>
    media_Title m' = media_Title m \<and> media_CreatedAt m' = media_CreatedAt m \<and> (\<not> live m \<longrightarrow> m' = m)"

interpretation media_dev: row_order media_evolves
  by unfold_locales (auto simp: media_evolves_def)

interpretation media_grow: world_order "develops invar view media_evolves"
  for invar :: "'w \<Rightarrow> bool" and view :: "'w \<Rightarrow> 'k \<Rightarrow> Media option"
  by (rule media_dev.develops_order)

lemma media_evolves_sets:
  assumes "live m"
  shows "media_evolves m (set_upload st sz mime m)" "media_evolves m (set_status st m)"
    "media_evolves m (set_transcode url preview dur st m)" "media_evolves m (set_deleted t m)"
  using assms
  by (simp_all add: media_evolves_def set_upload_def set_status_def set_transcode_def set_deleted_def)

context media_repository
begin

abbreviation grows :: "'w \<Rightarrow> 'w \<Rightarrow> bool" where
  "grows \<equiv> develops invar media_at media_evolves"

lemma grows_updates:
  "stays grows (mr_UpdateUploadState R i st sz mime)" "stays grows (mr_UpdateStatus R i st)"
  "stays grows (mr_UpdateTranscodeResult R i url preview dur st)" "stays grows (mr_SoftDelete R i t)"
  by (rule media_dev.develops_update [OF UpdateUploadState_law]
        media_dev.develops_update [OF UpdateStatus_law]
        media_dev.develops_update [OF UpdateTranscodeResult_law]
        media_dev.develops_update [OF SoftDelete_law], erule media_evolves_sets)+

lemma grows_Create: "stays grows (mr_Create R m)"
proof (rule media_dev.develops_insert)
  fix w r w'
  assume "invar w" and "mr_Create R m w = (r, w')"
  with Create_Inr [of w m] Create_Inl [of w m]
  show "invar w' \<and> (media_at w' = media_at w \<or>
      (\<exists>k r'. media_at w k = None \<and> media_at w' = (media_at w)(k \<mapsto> r')))"
    by (cases r) blast+
qed

lemma grows_reads:
  "stays grows (mr_GetByID R i)" "stays grows (mr_ListByOwner R u)" "stays grows (mr_ListExistingIDs R ids)"
  by (intro media_dev.develops_quiet GetByID_quiet ListByOwner_quiet ListExistingIDs_quiet)+

lemma touches_updates:
  "stays (touches invar media_at i) (mr_UpdateUploadState R i st sz mime)"
  "stays (touches invar media_at i) (mr_UpdateStatus R i st)"
  "stays (touches invar media_at i) (mr_UpdateTranscodeResult R i url preview dur st)"
  "stays (touches invar media_at i) (mr_SoftDelete R i t)"
  by (rule touches_update [OF UpdateUploadState_law] touches_update [OF UpdateStatus_law]
        touches_update [OF UpdateTranscodeResult_law] touches_update [OF SoftDelete_law])+

end

end
