(* ===== verification/Livekit_Client.thy ===== *)
theory Livekit_Client
  imports Store
begin

text \<open>
  \<open>internal/livekit/client.go\<close>: the requests and the access tokens the program builds. The
  LiveKit SDK that sends the requests, signs the tokens and verifies webhooks is a parameter.
\<close>

record CreateRoomRequest =
  crr_Name :: string
  crr_EmptyTimeout :: "32 word"
  crr_MaxParticipants :: "32 word"

record VideoGrant =
  vg_Room :: string
  vg_RoomJoin :: bool
  vg_CanPublish :: "bool option"
  vg_CanSubscribe :: "bool option"

record AccessToken =
  at_apiKey :: string
  at_secret :: string
  at_identity :: string
  at_name :: string
  at_videoGrant :: VideoGrant
  at_validFor :: duration

record WebhookEvent =
  ev_Event :: string
  ev_RoomName :: string
  ev_Identity :: string

text \<open>
  The SDK: the two calls of the room service, \<open>AccessToken.ToJWT\<close>, and
  \<open>webhook.ReceiveWebhookEvent\<close>, which checks a request (of type \<open>'q\<close>) against the key
  provider's key and secret.
\<close>

record ('w, 'q) livekit_sdk =
  sdk_CreateRoom :: "CreateRoomRequest \<Rightarrow> ('w, unit) prog"
  sdk_DeleteRoom :: "string \<Rightarrow> ('w, unit) prog"
  sdk_ToJWT :: "AccessToken \<Rightarrow> ('w, string) prog"
  sdk_ReceiveWebhookEvent :: "string \<Rightarrow> string \<Rightarrow> 'q \<Rightarrow> ('w, WebhookEvent option) prog"

record ('w, 'q) Client =
  cl_apiKey :: string
  cl_apiSecret :: string
  cl_webhookSecret :: string
  cl_roomAutoTimeout :: duration
  cl_tokenTTL :: duration
  cl_sdk :: "('w, 'q) livekit_sdk"

definition NewClient ::
    "('w, 'q) livekit_sdk \<Rightarrow> string \<Rightarrow> string \<Rightarrow> string \<Rightarrow> duration \<Rightarrow> duration \<Rightarrow> ('w, 'q) Client" where
  "NewClient sdk apiKey apiSecret webhookSecret roomAutoTimeout tokenTTL =
    \<lparr>cl_apiKey = apiKey, cl_apiSecret = apiSecret,
     cl_webhookSecret = (if webhookSecret = [] then apiSecret else webhookSecret),
     cl_roomAutoTimeout = roomAutoTimeout, cl_tokenTTL = tokenTTL, cl_sdk = sdk\<rparr>"

text \<open>\<open>uint32(c.roomAutoTimeout.Seconds())\<close>, whole seconds of a timeout that is not negative.\<close>

definition Client_CreateRoom :: "('w, 'q) Client \<Rightarrow> string \<Rightarrow> ('w, unit) prog" where
  "Client_CreateRoom c name =
    sdk_CreateRoom (cl_sdk c)
      \<lparr>crr_Name = name, crr_EmptyTimeout = word_of_int (cl_roomAutoTimeout c div Second),
       crr_MaxParticipants = 16\<rparr>"

definition Client_DeleteRoom :: "('w, 'q) Client \<Rightarrow> string \<Rightarrow> ('w, unit) prog" where
  "Client_DeleteRoom c name = sdk_DeleteRoom (cl_sdk c) name"

definition room_token :: "('w, 'q) Client \<Rightarrow> string \<Rightarrow> string \<Rightarrow> string \<Rightarrow> AccessToken" where
  "room_token c identity roomName participantName =
    \<lparr>at_apiKey = cl_apiKey c, at_secret = cl_apiSecret c, at_identity = identity,
     at_name = participantName,
     at_videoGrant = \<lparr>vg_Room = roomName, vg_RoomJoin = True, vg_CanPublish = Some True,
       vg_CanSubscribe = Some True\<rparr>,
     at_validFor = cl_tokenTTL c\<rparr>"

definition Client_GenerateToken ::
    "('w, 'q) Client \<Rightarrow> string \<Rightarrow> string \<Rightarrow> string \<Rightarrow> ('w, string) prog" where
  "Client_GenerateToken c identity roomName participantName =
    sdk_ToJWT (cl_sdk c) (room_token c identity roomName participantName)"

definition Client_ReceiveWebhook :: "('w, 'q) Client \<Rightarrow> 'q \<Rightarrow> ('w, WebhookEvent option) prog" where
  "Client_ReceiveWebhook c r =
    sdk_ReceiveWebhookEvent (cl_sdk c) (cl_apiKey c) (cl_webhookSecret c) r"

text \<open>The SDK acting on the environment of a world.\<close>

definition ext_sdk :: "('e, 'q) livekit_sdk \<Rightarrow> ('e world, 'q) livekit_sdk" where
  "ext_sdk k =
    \<lparr>sdk_CreateRoom = (\<lambda>r. ext (sdk_CreateRoom k r)),
     sdk_DeleteRoom = (\<lambda>n. ext (sdk_DeleteRoom k n)),
     sdk_ToJWT = (\<lambda>t. ext (sdk_ToJWT k t)),
     sdk_ReceiveWebhookEvent = (\<lambda>key secret q. ext (sdk_ReceiveWebhookEvent k key secret q))\<rparr>"

lemma ext_sdk_simps [simp]:
  "sdk_CreateRoom (ext_sdk k) r = ext (sdk_CreateRoom k r)"
  "sdk_DeleteRoom (ext_sdk k) n = ext (sdk_DeleteRoom k n)"
  "sdk_ToJWT (ext_sdk k) t = ext (sdk_ToJWT k t)"
  "sdk_ReceiveWebhookEvent (ext_sdk k) key secret q = ext (sdk_ReceiveWebhookEvent k key secret q)"
  by (simp_all add: ext_sdk_def)

end
