(* ===== verification/Externals.thy ===== *)
theory Externals
  imports Livekit_Client Complex_Main
begin

text \<open>
  The code the program calls and that is not part of it: Redis, the S3 SDK, bcrypt, UUIDs, JWT
  signing, SHA-256, the clock and the entropy source. They are parameters. A record per
  package gives the calls the program makes; \<open>platform\<close> collects them over the environment
  \<open>'e\<close> of a world, and \<open>'q\<close> is the type of an incoming HTTP request.
\<close>

subsection \<open>Redis\<close>

record 'w redis_client =
  redis_Get :: "string \<Rightarrow> ('w, string) prog"
  redis_Set :: "string \<Rightarrow> string \<Rightarrow> duration \<Rightarrow> ('w, unit) prog"
  redis_Del :: "string \<Rightarrow> ('w, unit) prog"
  redis_SAdd :: "string \<Rightarrow> string \<Rightarrow> ('w, unit) prog"
  redis_SRem :: "string \<Rightarrow> string \<Rightarrow> ('w, unit) prog"

definition ext_redis :: "'e redis_client \<Rightarrow> 'e world redis_client" where
  "ext_redis r =
    \<lparr>redis_Get = (\<lambda>k. ext (redis_Get r k)),
     redis_Set = (\<lambda>k v ttl. ext (redis_Set r k v ttl)),
     redis_Del = (\<lambda>k. ext (redis_Del r k)),
     redis_SAdd = (\<lambda>k m. ext (redis_SAdd r k m)),
     redis_SRem = (\<lambda>k m. ext (redis_SRem r k m))\<rparr>"

lemma ext_redis_simps [simp]:
  "redis_Get (ext_redis r) k = ext (redis_Get r k)"
  "redis_Set (ext_redis r) k v ttl = ext (redis_Set r k v ttl)"
  "redis_Del (ext_redis r) k = ext (redis_Del r k)"
  "redis_SAdd (ext_redis r) k m = ext (redis_SAdd r k m)"
  "redis_SRem (ext_redis r) k m = ext (redis_SRem r k m)"
  by (simp_all add: ext_redis_def)

subsection \<open>The S3 SDK\<close>

record PutObjectInput =
  put_Bucket :: string
  put_Key :: string
  put_ContentType :: "string option"
  put_ACL :: "string option"

record HeadObjectOutput =
  hoo_ContentLength :: "int option"
  hoo_ContentType :: "string option"
  hoo_ETag :: "string option"
  hoo_LastModified :: "time option"

text \<open>
  \<open>s3_GetObject\<close> returns a body, a handle that \<open>s3_ReadAll\<close> reads to the end; \<open>s3_PutObject\<close>
  takes the handle of the file that is its body. \<open>s3_ListPage\<close> fetches a page of
  \<open>ListObjectsV2\<close>: the keys of its objects (a key is a pointer, so an option) and, while the
  listing is truncated, the token of the next page. \<open>s3_DeleteObjects\<close> answers with the keys that it
  has not deleted: each comes with an error of its own, and the call succeeds all the same.
\<close>

record 'w s3_client =
  s3_PresignPutObject :: "PutObjectInput \<Rightarrow> duration \<Rightarrow> ('w, string) prog"
  s3_PresignGetObject :: "string \<Rightarrow> string \<Rightarrow> duration \<Rightarrow> ('w, string) prog"
  s3_HeadObject :: "string \<Rightarrow> string \<Rightarrow> ('w, HeadObjectOutput) prog"
  s3_GetObject :: "string \<Rightarrow> string \<Rightarrow> ('w, nat) prog"
  s3_ReadAll :: "nat \<Rightarrow> ('w, string) prog"
  s3_CloseBody :: "nat \<Rightarrow> 'w \<Rightarrow> unit \<times> 'w"
  s3_PutObject :: "PutObjectInput \<Rightarrow> nat \<Rightarrow> ('w, unit) prog"
  s3_DeleteObject :: "string \<Rightarrow> string \<Rightarrow> ('w, unit) prog"
  s3_DeleteObjects :: "string \<Rightarrow> string list \<Rightarrow> ('w, string list) prog"
  s3_ListPage ::
    "string \<Rightarrow> string \<Rightarrow> string option \<Rightarrow> ('w, string option list \<times> string option) prog"

definition ext_s3 :: "'e s3_client \<Rightarrow> 'e world s3_client" where
  "ext_s3 c =
    \<lparr>s3_PresignPutObject = (\<lambda>i d. ext (s3_PresignPutObject c i d)),
     s3_PresignGetObject = (\<lambda>b k d. ext (s3_PresignGetObject c b k d)),
     s3_HeadObject = (\<lambda>b k. ext (s3_HeadObject c b k)),
     s3_GetObject = (\<lambda>b k. ext (s3_GetObject c b k)),
     s3_ReadAll = (\<lambda>h. ext (s3_ReadAll c h)),
     s3_CloseBody = (\<lambda>h. ext_read (s3_CloseBody c h)),
     s3_PutObject = (\<lambda>i f. ext (s3_PutObject c i f)),
     s3_DeleteObject = (\<lambda>b k. ext (s3_DeleteObject c b k)),
     s3_DeleteObjects = (\<lambda>b ks. ext (s3_DeleteObjects c b ks)),
     s3_ListPage = (\<lambda>b p t. ext (s3_ListPage c b p t))\<rparr>"

lemma ext_s3_simps [simp]:
  "s3_PresignPutObject (ext_s3 c) i d = ext (s3_PresignPutObject c i d)"
  "s3_PresignGetObject (ext_s3 c) b k d = ext (s3_PresignGetObject c b k d)"
  "s3_HeadObject (ext_s3 c) b k = ext (s3_HeadObject c b k)"
  "s3_GetObject (ext_s3 c) b k = ext (s3_GetObject c b k)"
  "s3_ReadAll (ext_s3 c) h = ext (s3_ReadAll c h)"
  "s3_CloseBody (ext_s3 c) h = ext_read (s3_CloseBody c h)"
  "s3_PutObject (ext_s3 c) i f = ext (s3_PutObject c i f)"
  "s3_DeleteObject (ext_s3 c) b k = ext (s3_DeleteObject c b k)"
  "s3_DeleteObjects (ext_s3 c) b ks = ext (s3_DeleteObjects c b ks)"
  "s3_ListPage (ext_s3 c) b p t = ext (s3_ListPage c b p t)"
  by (simp_all add: ext_s3_def)

subsection \<open>Credentials\<close>

text \<open>
  The claims of an access token. \<open>jwt_Sign\<close> is \<open>NewWithClaims(HS256, ..).SignedString(secret)\<close>,
  \<open>jwt_Parse\<close> is \<open>ParseWithClaims\<close> with the secret, which checks the signature and the times;
  its result tells whether the parsed token is valid. \<open>bcrypt_Compare\<close> tells whether the
  comparison returns no error.
\<close>

record Claims =
  claim_ID :: string
  claim_Subject :: string
  claim_IssuedAt :: time
  claim_ExpiresAt :: time
  claim_Username :: string

record 'w crypto =
  jwt_Sign :: "Claims \<Rightarrow> string \<Rightarrow> ('w, string) prog"
  jwt_Parse :: "string \<Rightarrow> string \<Rightarrow> ('w, Claims \<times> bool) prog"
  uuid_NewString :: "'w \<Rightarrow> string \<times> 'w"
  bcrypt_Generate :: "string \<Rightarrow> ('w, string) prog"
  bcrypt_Compare :: "string \<Rightarrow> string \<Rightarrow> bool"
  rand_Read :: "nat \<Rightarrow> ('w, byte list) prog"
  sha256_Sum :: "string \<Rightarrow> byte list"

definition ext_crypto :: "'e crypto \<Rightarrow> 'e world crypto" where
  "ext_crypto c =
    \<lparr>jwt_Sign = (\<lambda>cl s. ext (jwt_Sign c cl s)),
     jwt_Parse = (\<lambda>t s. ext (jwt_Parse c t s)),
     uuid_NewString = ext_read (uuid_NewString c),
     bcrypt_Generate = (\<lambda>p. ext (bcrypt_Generate c p)),
     bcrypt_Compare = bcrypt_Compare c,
     rand_Read = (\<lambda>n. ext (rand_Read c n)),
     sha256_Sum = sha256_Sum c\<rparr>"

lemma ext_crypto_simps [simp]:
  "jwt_Sign (ext_crypto c) cl s = ext (jwt_Sign c cl s)"
  "jwt_Parse (ext_crypto c) t s = ext (jwt_Parse c t s)"
  "uuid_NewString (ext_crypto c) = ext_read (uuid_NewString c)"
  "bcrypt_Generate (ext_crypto c) p = ext (bcrypt_Generate c p)"
  "bcrypt_Compare (ext_crypto c) = bcrypt_Compare c"
  "rand_Read (ext_crypto c) n = ext (rand_Read c n)"
  "sha256_Sum (ext_crypto c) = sha256_Sum c"
  by (simp_all add: ext_crypto_def)

subsection \<open>The file system and processes\<close>

text \<open>
  Files are handles; the error of closing one is ignored by the program. \<open>fs_ReadDir\<close> gives the
  name of each entry and whether it is a directory.
\<close>

record 'w filesystem =
  fs_Open :: "string \<Rightarrow> ('w, nat) prog"
  fs_Create :: "string \<Rightarrow> ('w, nat) prog"
  fs_Close :: "nat \<Rightarrow> 'w \<Rightarrow> unit \<times> 'w"
  fs_Copy :: "nat \<Rightarrow> nat \<Rightarrow> ('w, unit) prog"
  fs_MkdirAll :: "string \<Rightarrow> ('w, unit) prog"
  fs_MkdirTemp :: "string \<Rightarrow> string \<Rightarrow> ('w, string) prog"
  fs_RemoveAll :: "string \<Rightarrow> ('w, unit) prog"
  fs_ReadDir :: "string \<Rightarrow> ('w, (string \<times> bool) list) prog"
  fs_TempDir :: "'w \<Rightarrow> string \<times> 'w"

definition ext_fs :: "'e filesystem \<Rightarrow> 'e world filesystem" where
  "ext_fs f =
    \<lparr>fs_Open = (\<lambda>p. ext (fs_Open f p)),
     fs_Create = (\<lambda>p. ext (fs_Create f p)),
     fs_Close = (\<lambda>h. ext_read (fs_Close f h)),
     fs_Copy = (\<lambda>d h. ext (fs_Copy f d h)),
     fs_MkdirAll = (\<lambda>p. ext (fs_MkdirAll f p)),
     fs_MkdirTemp = (\<lambda>p q. ext (fs_MkdirTemp f p q)),
     fs_RemoveAll = (\<lambda>p. ext (fs_RemoveAll f p)),
     fs_ReadDir = (\<lambda>p. ext (fs_ReadDir f p)),
     fs_TempDir = ext_read (fs_TempDir f)\<rparr>"

lemma ext_fs_simps [simp]:
  "fs_Open (ext_fs f) p = ext (fs_Open f p)"
  "fs_Create (ext_fs f) p = ext (fs_Create f p)"
  "fs_Close (ext_fs f) h = ext_read (fs_Close f h)"
  "fs_Copy (ext_fs f) d h = ext (fs_Copy f d h)"
  "fs_MkdirAll (ext_fs f) p = ext (fs_MkdirAll f p)"
  "fs_MkdirTemp (ext_fs f) p q = ext (fs_MkdirTemp f p q)"
  "fs_RemoveAll (ext_fs f) p = ext (fs_RemoveAll f p)"
  "fs_ReadDir (ext_fs f) p = ext (fs_ReadDir f p)"
  "fs_TempDir (ext_fs f) = ext_read (fs_TempDir f)"
  by (simp_all add: ext_fs_def)

text \<open>
  Processes: \<open>ex_Run\<close> gives what the process writes to standard error, write by write, and its
  error if any; \<open>ex_CombinedOutput\<close> the whole output and the error.
\<close>

record 'w processes =
  ex_LookPath :: "string \<Rightarrow> ('w, string) prog"
  ex_Run :: "string \<Rightarrow> string list \<Rightarrow> 'w \<Rightarrow> (string list \<times> err option) \<times> 'w"
  ex_CombinedOutput :: "string \<Rightarrow> string list \<Rightarrow> 'w \<Rightarrow> (string \<times> err option) \<times> 'w"

definition ext_processes :: "'e processes \<Rightarrow> 'e world processes" where
  "ext_processes x =
    \<lparr>ex_LookPath = (\<lambda>p. ext (ex_LookPath x p)),
     ex_Run = (\<lambda>p args. ext_read (ex_Run x p args)),
     ex_CombinedOutput = (\<lambda>p args. ext_read (ex_CombinedOutput x p args))\<rparr>"

lemma ext_processes_simps [simp]:
  "ex_LookPath (ext_processes x) p = ext (ex_LookPath x p)"
  "ex_Run (ext_processes x) p args = ext_read (ex_Run x p args)"
  "ex_CombinedOutput (ext_processes x) p args = ext_read (ex_CombinedOutput x p args)"
  by (simp_all add: ext_processes_def)

text \<open>
  A context with a deadline: \<open>cx_Err\<close>, \<open>cx_Wait d\<close> (a \<open>select\<close> between its end and a timer of
  length \<open>d\<close>, true when the context ends first), and the time that remains.
\<close>

record 'w cancel_context =
  cx_Err :: "'w \<Rightarrow> err option \<times> 'w"
  cx_Wait :: "duration \<Rightarrow> 'w \<Rightarrow> bool \<times> 'w"
  cx_Remaining :: "'w \<Rightarrow> duration option \<times> 'w"

definition ext_context :: "'e cancel_context \<Rightarrow> 'e world cancel_context" where
  "ext_context c =
    \<lparr>cx_Err = ext_read (cx_Err c), cx_Wait = (\<lambda>d. ext_read (cx_Wait c d)),
     cx_Remaining = ext_read (cx_Remaining c)\<rparr>"

lemma ext_context_simps [simp]:
  "cx_Err (ext_context c) = ext_read (cx_Err c)"
  "cx_Wait (ext_context c) d = ext_read (cx_Wait c d)"
  "cx_Remaining (ext_context c) = ext_read (cx_Remaining c)"
  by (simp_all add: ext_context_def)

text \<open>
  A \<open>float64\<close>: a rational, an infinity or not a number. The texts of the standard library that
  are not modelled: \<open>strconv.ParseFloat\<close>, \<open>%q\<close>, \<open>%!w(..)\<close>, the text of a
  duration, lower case outside ASCII, and \<open>time.RFC3339\<close> both ways.
\<close>

datatype float64 = Fin rat | PosInf | NegInf | NaN

record gotext =
  gt_ParseFloat :: "string \<Rightarrow> err + float64"
  gt_Quote :: "string \<Rightarrow> string"
  gt_BadW :: "err \<Rightarrow> string"
  gt_Duration :: "duration \<Rightarrow> string"
  gt_Lower :: "string \<Rightarrow> string"
  gt_FormatRFC3339 :: "time \<Rightarrow> string"
  gt_ParseRFC3339 :: "string \<Rightarrow> time option"

subsection \<open>The platform\<close>

record ('e, 'q) platform =
  pf_pool :: "'e pgpool"
  pf_clock :: "'e \<Rightarrow> time \<times> 'e"
  pf_crypto :: "'e crypto"
  pf_livekit :: "('e, 'q) livekit_sdk"
  pf_redis :: "'e redis_client"
  pf_s3 :: "'e s3_client"
  pf_fs :: "'e filesystem"
  pf_exec :: "'e processes"
  pf_context :: "'e cancel_context"
  pf_text :: gotext

text \<open>A call outside the program changes no table and no queue.\<close>

lemma ext_quiet: "stays (quiet world_ok (\<lambda>w. v (db w))) (ext c)"
  by (rule stays_ext) (simp add: quiet_def world_ok_def)

lemma ext_read_quiet: "stays (quiet world_ok (\<lambda>w. v (db w))) (readP (ext_read c))"
  by (rule stays_ext_read) (simp add: quiet_def world_ok_def)

end
