(* ===== verification/Room_Service.thy ===== *)
theory Room_Service
  imports Room_Repository Media_Repository Externals
begin

text \<open>
  \<open>internal/service/room.go\<close>: rooms are created, joined, switched between conference and movie
  mode, and ended, by their owner or, once they are old, by a background job.
\<close>

record ('w, 'q) RoomService =
  rs_rooms :: "'w RoomRepository"
  rs_media :: "'w MediaRepository"
  rs_lk :: "('w, 'q) Client"
  rs_clock :: "'w \<Rightarrow> time \<times> 'w"
  rs_rand :: "nat \<Rightarrow> ('w, byte list) prog"

record CreateRoomInput =
  cri_Name :: string
  cri_OwnerUserID :: string
  cri_MediaID :: "string option"

text \<open>\<open>newID\<close>: 16 bytes of \<open>crypto/rand\<close> in hexadecimal.\<close>

definition newID :: "(nat \<Rightarrow> ('w, byte list) prog) \<Rightarrow> ('w, string) prog" where
  "newID rnd = bindP (rnd 16) (\<lambda>b. retP (EncodeToString b))"

definition CreateRoom :: "('w, 'q) RoomService \<Rightarrow> CreateRoomInput \<Rightarrow> ('w, Room) prog" where
  "CreateRoom s inp =
    bindP (newID (rs_rand s)) (\<lambda>roomID.
      let name = (if cri_Name inp = [] then ''room-'' @ roomID else cri_Name inp)
      in bindP (Client_CreateRoom (rs_lk s) name) (\<lambda>_.
           bindP (readP (rs_clock s)) (\<lambda>now.
             rr_CreateRoom (rs_rooms s)
               \<lparr>room_ID = roomID, room_Name = name, room_OwnerUserID = cri_OwnerUserID inp,
                room_MediaID = cri_MediaID inp, room_Status = RoomActive,
                room_CreatedAt = now, room_EndedAt = None\<rparr>)))"

definition ListRoomsByOwner :: "('w, 'q) RoomService \<Rightarrow> string \<Rightarrow> ('w, Room list) prog" where
  "ListRoomsByOwner s owner = rr_ListRoomsByOwner (rs_rooms s) owner"

definition JoinRoom ::
    "('w, 'q) RoomService \<Rightarrow> string \<Rightarrow> string \<Rightarrow> string \<Rightarrow> ('w, string \<times> Room) prog" where
  "JoinRoom s roomID identity participantName =
    bindP (rr_GetRoomByID (rs_rooms s) roomID) (\<lambda>room.
      if room_Status room \<noteq> RoomActive then failP ErrRoomEnded
      else bindP (Client_GenerateToken (rs_lk s) identity (room_Name room) participantName)
        (\<lambda>jwt. retP (jwt, room)))"

text \<open>The media a room is to show in a mode: the \<open>switch\<close> of \<open>UpdateRoomState\<close>.\<close>

definition next_media ::
    "('w, 'q) RoomService \<Rightarrow> string \<Rightarrow> string \<Rightarrow> string option \<Rightarrow> ('w, string option) prog" where
  "next_media s owner mode mediaID =
    (if mode = ''conference'' then retP None
     else if mode = ''movie'' then
       (case mediaID of
          None \<Rightarrow> failP ErrMediaRequiredForMovieMode
        | Some i \<Rightarrow>
            if i = [] then failP ErrMediaRequiredForMovieMode
            else bindP (mr_GetByID (rs_media s) i) (\<lambda>media.
              if media_OwnerUserID media \<noteq> owner then failP ErrMediaForbiddenForRoom
              else if media_Status media \<noteq> MediaReady then failP ErrMediaNotReady
              else retP (Some (media_ID media))))
     else failP ErrInvalidUploadInput)"

definition UpdateRoomState ::
    "('w, 'q) RoomService \<Rightarrow> string \<Rightarrow> string \<Rightarrow> string \<Rightarrow> string option \<Rightarrow> ('w, Room) prog" where
  "UpdateRoomState s roomID owner mode mediaID =
    bindP (rr_GetRoomByID (rs_rooms s) roomID) (\<lambda>room.
      if room_OwnerUserID room \<noteq> owner then failP ErrRoomForbidden
      else if room_Status room \<noteq> RoomActive then failP ErrRoomEnded
      else bindP (next_media s owner mode mediaID) (\<lambda>nextMediaID.
        rr_UpdateRoomMedia (rs_rooms s) roomID nextMediaID))"

definition endRoom :: "('w, 'q) RoomService \<Rightarrow> Room \<Rightarrow> ('w, Room) prog" where
  "endRoom s room =
    (if room_Status room \<noteq> RoomActive then retP room
     else bindP (readP (rs_clock s)) (\<lambda>endedAt.
       bindP (rr_EndRoom (rs_rooms s) (room_ID room) endedAt) (\<lambda>_.
         bindP (Client_DeleteRoom (rs_lk s) (room_Name room)) (\<lambda>_.
           retP (room\<lparr>room_Status := RoomEnded, room_EndedAt := Some endedAt\<rparr>)))))"

definition EndRoomByOwner :: "('w, 'q) RoomService \<Rightarrow> string \<Rightarrow> string \<Rightarrow> ('w, Room) prog" where
  "EndRoomByOwner s roomID owner =
    bindP (rr_GetRoomByID (rs_rooms s) roomID) (\<lambda>room.
      if room_OwnerUserID room \<noteq> owner then failP ErrRoomForbidden else endRoom s room)"

definition EndRoom :: "('w, 'q) RoomService \<Rightarrow> string \<Rightarrow> ('w, Room) prog" where
  "EndRoom s roomID = bindP (rr_GetRoomByID (rs_rooms s) roomID) (\<lambda>room. endRoom s room)"

text \<open>The loop of \<open>EndStaleActiveRooms\<close> over the rooms that were active when it started.\<close>

fun close_stale ::
    "('w, 'q) RoomService \<Rightarrow> time \<Rightarrow> duration \<Rightarrow> Room list \<Rightarrow> int \<Rightarrow> int \<Rightarrow> ('w, int \<times> int) prog" where
  "close_stale s now d [] closedCount failed = retP (closedCount, failed)"
| "close_stale s now d (room # rooms) closedCount failed =
    (if time_Sub now (room_CreatedAt room) < d then close_stale s now d rooms closedCount failed
     else bindP (attemptP (EndRoom s (room_ID room))) (\<lambda>r.
       case r of
         Inl e \<Rightarrow> if Is e ErrNotFound then close_stale s now d rooms closedCount failed
                  else close_stale s now d rooms closedCount (failed + 1)
       | Inr _ \<Rightarrow> close_stale s now d rooms (closedCount + 1) failed))"

definition EndStaleActiveRooms :: "('w, 'q) RoomService \<Rightarrow> duration \<Rightarrow> ('w, int \<times> int) prog" where
  "EndStaleActiveRooms s minActiveDuration =
    bindP (rr_ListActiveRooms (rs_rooms s)) (\<lambda>rooms.
      let d = (if minActiveDuration \<le> 0 then 24 * Hour else minActiveDuration)
      in bindP (readP (rs_clock s)) (\<lambda>now. close_stale s now d rooms 0 0))"

subsection \<open>How a room may develop\<close>

text \<open>It keeps what identifies it, its status never goes back, and its end is final.\<close>

definition room_evolves :: "Room \<Rightarrow> Room \<Rightarrow> bool" where
  "room_evolves r r' \<longleftrightarrow>
    room_ID r' = room_ID r \<and> room_Name r' = room_Name r \<and>
    room_OwnerUserID r' = room_OwnerUserID r \<and> room_CreatedAt r' = room_CreatedAt r \<and>
    room_Status r \<le> room_Status r' \<and>
    (room_Status r = RoomEnded \<longrightarrow> room_EndedAt r' = room_EndedAt r)"

lemma room_evolves_refl [simp]: "room_evolves r r"
  by (simp add: room_evolves_def)

lemma room_evolves_trans: "room_evolves r r' \<Longrightarrow> room_evolves r' r'' \<Longrightarrow> room_evolves r r''"
  by (auto simp: room_evolves_def)

interpretation room_dev: row_order room_evolves
  by unfold_locales (rule room_evolves_refl, rule room_evolves_trans)

lemma room_evolves_end:
  "room_Status r = RoomActive \<Longrightarrow>
    room_evolves r (r\<lparr>room_Status := RoomEnded, room_EndedAt := t\<rparr>)"
  by (simp add: room_evolves_def)

lemma room_evolves_media [simp]: "room_evolves r (r\<lparr>room_MediaID := m\<rparr>)"
  by (simp add: room_evolves_def)

text \<open>A room the background job closes: \<open>now.Sub(room.CreatedAt) < minActiveDuration\<close> is false.\<close>

definition stale :: "time \<Rightarrow> duration \<Rightarrow> Room \<Rightarrow> bool" where
  "stale now d r \<longleftrightarrow> \<not> time_Sub now (room_CreatedAt r) < d"

definition still_active :: "(string \<Rightarrow> Room option) \<Rightarrow> Room \<Rightarrow> bool" where
  "still_active rm r \<longleftrightarrow> (\<exists>q. rm (room_ID r) = Some q \<and> room_Status q = RoomActive)"

subsection \<open>The service over any repository that keeps the contract\<close>

text \<open>
  The services the room service uses besides its repositories (LiveKit, the clock, the entropy
  source) change neither rooms nor media, and reading rooms leaves media alone, and the other
  way round.
\<close>

locale room_service =
  rooms: room_repository "rs_rooms s" invar room_at +
  media: media_repository "rs_media s" invar media_at
  for s :: "('w, 'q) RoomService" and invar :: "'w \<Rightarrow> bool"
    and room_at :: "'w \<Rightarrow> string \<Rightarrow> Room option" and media_at :: "'w \<Rightarrow> string \<Rightarrow> Media option" +
  assumes lk_create_quiet: "stays (quiet invar room_at) (Client_CreateRoom (rs_lk s) n)"
    and lk_delete_quiet: "stays (quiet invar room_at) (Client_DeleteRoom (rs_lk s) n)"
    and lk_token_quiet: "stays (quiet invar room_at) (Client_GenerateToken (rs_lk s) i n p)"
    and clock_quiet: "stays (quiet invar room_at) (readP (rs_clock s))"
    and rand_quiet: "stays (quiet invar room_at) (rs_rand s k)"
    and get_media_quiet: "stays (quiet invar room_at) (mr_GetByID (rs_media s) m)"
    and get_room_quiet: "stays (quiet invar media_at) (rr_GetRoomByID (rs_rooms s) r)"
begin

definition evolves :: "'w \<Rightarrow> 'w \<Rightarrow> bool" where
  "evolves = develops invar room_at room_evolves"

lemma evolvesD:
  "evolves w w' \<Longrightarrow> invar w \<Longrightarrow> invar w' \<and>
    (\<forall>i r. room_at w i = Some r \<longrightarrow> (\<exists>r'. room_at w' i = Some r' \<and> room_evolves r r'))"
  by (simp add: evolves_def develops_def)

lemma quiet_evolves: "stays (quiet invar room_at) m \<Longrightarrow> stays evolves m"
  unfolding evolves_def by (rule room_dev.develops_quiet)

lemma GetRoomByID_same:
  "invar w \<Longrightarrow> rr_GetRoomByID (rs_rooms s) i w = (r, w1) \<Longrightarrow>
    invar w1 \<and> room_at w1 = room_at w \<and> media_at w1 = media_at w"
  using quietD [OF rooms.GetRoomByID_quiet] quietD [OF get_room_quiet] by blast

text \<open>\<open>endRoom\<close> on a room it has just read.\<close>

lemma endRoom_Inr:
  assumes inv: "invar w" and room: "room_at w i = Some room" and run: "endRoom s room w = (Inr r, w')"
  shows "invar w' \<and> room_Status r \<noteq> RoomActive \<and>
    (if room_Status room = RoomActive
     then \<exists>t. r = room\<lparr>room_Status := RoomEnded, room_EndedAt := Some t\<rparr> \<and>
       room_at w' = (room_at w)(i \<mapsto> room\<lparr>room_Status := RoomEnded, room_EndedAt := Some (timestamptz t)\<rparr>)
     else r = room \<and> room_at w' = room_at w)"
proof (cases "room_Status room = RoomActive")
  case False
  with run inv show ?thesis by (simp add: endRoom_def prog_simps)
next
  case True
  from rooms.room_at_ID [OF inv room] have i: "room_ID room = i" .
  from run True obtain t w1 w2 where
      c: "rs_clock s w = (t, w1)" and e: "rr_EndRoom (rs_rooms s) i t w1 = (Inr (), w2)"
      and d: "Client_DeleteRoom (rs_lk s) (room_Name room) w2 = (Inr (), w')"
      and r: "r = room\<lparr>room_Status := RoomEnded, room_EndedAt := Some t\<rparr>"
    by (auto simp: endRoom_def prog_simps i)
  from c have "readP (rs_clock s) w = (Inr t, w1)" by (simp add: prog_simps)
  from quietD [OF clock_quiet inv this] have w1: "invar w1" "room_at w1 = room_at w" by auto
  from update_law_Inr [OF rooms.EndRoom_law w1(1) e] w1 room
  have w2: "invar w2" "room_at w2 = (room_at w)(i \<mapsto>
      room\<lparr>room_Status := RoomEnded, room_EndedAt := Some (timestamptz t)\<rparr>)"
    by (auto simp: updated_def)
  from quietD [OF lk_delete_quiet w2(1) d] w2 r True show ?thesis by auto
qed

lemma endRoom_Inl:
  assumes inv: "invar w" and room: "room_at w i = Some room" and run: "endRoom s room w = (Inl x, w')"
  shows "invar w' \<and> room_Status room = RoomActive \<and> (room_at w' = room_at w \<or>
    (\<exists>t. room_at w' = (room_at w)(i \<mapsto>
      room\<lparr>room_Status := RoomEnded, room_EndedAt := Some (timestamptz t)\<rparr>)))"
proof -
  from rooms.room_at_ID [OF inv room] have i: "room_ID room = i" .
  from run have act: "room_Status room = RoomActive"
    by (auto simp: endRoom_def prog_simps split: if_splits)
  with run obtain t w1 where c: "readP (rs_clock s) w = (Inr t, w1)"
    and rest: "rr_EndRoom (rs_rooms s) i t w1 = (Inl x, w') \<or>
      (\<exists>w2. rr_EndRoom (rs_rooms s) i t w1 = (Inr (), w2) \<and>
        Client_DeleteRoom (rs_lk s) (room_Name room) w2 = (Inl x, w'))"
    by (auto simp: endRoom_def prog_simps i)
  from quietD [OF clock_quiet inv c] have w1: "invar w1" "room_at w1 = room_at w" by auto
  from rest show ?thesis
  proof
    assume "rr_EndRoom (rs_rooms s) i t w1 = (Inl x, w')"
    from update_law_Inl [OF rooms.EndRoom_law w1(1) this] w1 room act show ?thesis
      by (auto simp: updated_def)
  next
    assume "\<exists>w2. rr_EndRoom (rs_rooms s) i t w1 = (Inr (), w2) \<and>
      Client_DeleteRoom (rs_lk s) (room_Name room) w2 = (Inl x, w')"
    then obtain w2 where e: "rr_EndRoom (rs_rooms s) i t w1 = (Inr (), w2)"
      and d: "Client_DeleteRoom (rs_lk s) (room_Name room) w2 = (Inl x, w')" by blast
    from update_law_Inr [OF rooms.EndRoom_law w1(1) e] w1 room
    have "invar w2" "room_at w2 = (room_at w)(i \<mapsto>
        room\<lparr>room_Status := RoomEnded, room_EndedAt := Some (timestamptz t)\<rparr>)"
      by (auto simp: updated_def)
    with quietD [OF lk_delete_quiet _ d] act show ?thesis by auto
  qed
qed

text \<open>What ending a room by its owner does when it succeeds, and that nobody else changes it.\<close>

lemma EndRoomByOwner_Inr:
  assumes inv: "invar w" and run: "EndRoomByOwner s i owner w = (Inr r, w')"
  shows "invar w' \<and> (\<exists>room. room_at w i = Some room \<and> room_OwnerUserID room = owner \<and>
    room_Status r \<noteq> RoomActive \<and>
    (if room_Status room = RoomActive
     then \<exists>t. r = room\<lparr>room_Status := RoomEnded, room_EndedAt := Some t\<rparr> \<and>
       room_at w' = (room_at w)(i \<mapsto> room\<lparr>room_Status := RoomEnded, room_EndedAt := Some (timestamptz t)\<rparr>)
     else r = room \<and> room_at w' = room_at w))"
proof -
  from run obtain room w1 where g: "rr_GetRoomByID (rs_rooms s) i w = (Inr room, w1)"
    and own: "room_OwnerUserID room = owner" and e: "endRoom s room w1 = (Inr r, w')"
    by (auto simp: EndRoomByOwner_def prog_simps split: if_splits)
  from rooms.GetRoomByID_Inr [OF inv g] have at: "room_at w i = Some room" .
  from GetRoomByID_same [OF inv g] have w1: "invar w1" "room_at w1 = room_at w" by auto
  from endRoom_Inr [OF w1(1) _ e] at w1 own show ?thesis by auto
qed

lemma EndRoomByOwner_owner_only:
  assumes inv: "invar w" and run: "EndRoomByOwner s i owner w = (q, w')"
    and other: "\<And>room. room_at w i = Some room \<Longrightarrow> room_OwnerUserID room \<noteq> owner"
  shows "room_at w' = room_at w \<and> (\<exists>e. q = Inl e)"
proof (cases q)
  case (Inr r)
  with EndRoomByOwner_Inr [OF inv] run other show ?thesis by blast
next
  case (Inl e)
  from run [unfolded Inl] obtain q1 w1 where g: "rr_GetRoomByID (rs_rooms s) i w = (q1, w1)"
    and rest: "q1 = Inl e \<and> w' = w1 \<or> (\<exists>room. q1 = Inr room \<and>
      (if room_OwnerUserID room \<noteq> owner then w' = w1 else endRoom s room w1 = (Inl e, w')))"
    by (auto simp: EndRoomByOwner_def prog_simps split: if_splits)
  from GetRoomByID_same [OF inv g] rest rooms.GetRoomByID_Inr [OF inv] g other Inl
  show ?thesis by (auto split: if_splits)
qed

text \<open>Joining hands out a token for the LiveKit room of an active room, and changes nothing.\<close>

lemma JoinRoom_Inr:
  assumes inv: "invar w" and run: "JoinRoom s i identity name w = (Inr (jwt, room), w')"
  shows "room_at w i = Some room \<and> room_Status room = RoomActive \<and> room_at w' = room_at w \<and>
    (\<exists>w1. sdk_ToJWT (cl_sdk (rs_lk s)) (room_token (rs_lk s) identity (room_Name room) name) w1
       = (Inr jwt, w'))"
proof -
  from run obtain w1 where g: "rr_GetRoomByID (rs_rooms s) i w = (Inr room, w1)"
    and act: "room_Status room = RoomActive"
    and t: "Client_GenerateToken (rs_lk s) identity (room_Name room) name w1 = (Inr jwt, w')"
    by (auto simp: JoinRoom_def prog_simps split: if_splits)
  from GetRoomByID_same [OF inv g] quietD [OF lk_token_quiet _ t] act t rooms.GetRoomByID_Inr [OF inv g]
  show ?thesis by (auto simp: Client_GenerateToken_def)
qed

text \<open>
  The room's media after a change of mode: none in conference mode; in movie mode a media that
  was there, ready and the owner's own.
\<close>

lemma next_media_Inr:
  assumes inv: "invar w" and run: "next_media s owner mode mediaID w = (Inr nm, w')"
  shows "invar w' \<and> room_at w' = room_at w \<and>
    (mode = ''conference'' \<and> nm = None \<or>
     mode = ''movie'' \<and> (\<exists>i m. mediaID = Some i \<and> i \<noteq> [] \<and> nm = Some i \<and>
       media_at w i = Some m \<and> live m \<and> media_OwnerUserID m = owner \<and> media_Status m = MediaReady))"
proof (cases "mode = ''conference''")
  case True
  with run inv show ?thesis by (simp add: next_media_def prog_simps)
next
  case False
  with run obtain i m where mode: "mode = ''movie''" and i: "mediaID = Some i" "i \<noteq> []"
    and g: "mr_GetByID (rs_media s) i w = (Inr m, w')"
    and m: "media_OwnerUserID m = owner" "media_Status m = MediaReady" "nm = Some (media_ID m)"
    by (auto simp: next_media_def prog_simps split: if_splits option.splits)
  from media.GetByID_Inr [OF inv g] quietD [OF get_media_quiet inv g]
    media.media_at_ID [OF inv, of i m] mode i m
  show ?thesis by auto
qed

lemma UpdateRoomState_Inr:
  assumes inv: "invar w" and run: "UpdateRoomState s i owner mode mediaID w = (Inr r, w')"
  shows "\<exists>room nm. room_at w i = Some room \<and> room_OwnerUserID room = owner \<and>
    room_Status room = RoomActive \<and> r = room\<lparr>room_MediaID := nm\<rparr> \<and>
    invar w' \<and> room_at w' = (room_at w)(i \<mapsto> r) \<and>
    (mode = ''conference'' \<and> nm = None \<or>
     mode = ''movie'' \<and> (\<exists>j m. mediaID = Some j \<and> j \<noteq> [] \<and> nm = Some j \<and>
       media_at w j = Some m \<and> live m \<and> media_OwnerUserID m = owner \<and> media_Status m = MediaReady))"
proof -
  from run obtain room w1 nm w2 where g: "rr_GetRoomByID (rs_rooms s) i w = (Inr room, w1)"
    and own: "room_OwnerUserID room = owner" and act: "room_Status room = RoomActive"
    and n: "next_media s owner mode mediaID w1 = (Inr nm, w2)"
    and u: "rr_UpdateRoomMedia (rs_rooms s) i nm w2 = (Inr r, w')"
    by (auto simp: UpdateRoomState_def prog_simps split: if_splits)
  from GetRoomByID_same [OF inv g]
  have w1: "invar w1" "room_at w1 = room_at w" "media_at w1 = media_at w" by auto
  from next_media_Inr [OF w1(1) n] have w2: "invar w2" "room_at w2 = room_at w" using w1 by auto
  from rooms.GetRoomByID_Inr [OF inv g] have at: "room_at w i = Some room" .
  from update_law_Inr [OF rooms.UpdateRoomMedia_law w2(1) u] w2 at
  have w': "invar w'" "room_at w' = (room_at w)(i \<mapsto> room\<lparr>room_MediaID := nm\<rparr>)"
    by (auto simp: updated_def)
  with rooms.UpdateRoomMedia_row [OF w2(1) u] have "r = room\<lparr>room_MediaID := nm\<rparr>" by simp
  with at own act w' next_media_Inr [OF w1(1) n] w1 show ?thesis by auto
qed

text \<open>Every operation lets every room develop, whatever fails on the way.\<close>

lemma world_order_evolves: "world_order evolves"
  unfolding evolves_def by (rule room_dev.develops_order)

lemma evolves_repo:
  "stays evolves (rr_GetRoomByID (rs_rooms s) i)" "stays evolves (rr_ListActiveRooms (rs_rooms s))"
  "stays evolves (rr_ListRoomsByOwner (rs_rooms s) u)" "stays evolves (mr_GetByID (rs_media s) m)"
  "stays evolves (Client_CreateRoom (rs_lk s) n)" "stays evolves (Client_DeleteRoom (rs_lk s) n)"
  "stays evolves (Client_GenerateToken (rs_lk s) j n p)" "stays evolves (readP (rs_clock s))"
  "stays evolves (rs_rand s k)"
  by (intro quiet_evolves rooms.GetRoomByID_quiet rooms.ListActiveRooms_quiet
      rooms.ListRoomsByOwner_quiet get_media_quiet lk_create_quiet lk_delete_quiet lk_token_quiet
      clock_quiet rand_quiet)+

lemma evolves_EndRoom: "stays evolves (rr_EndRoom (rs_rooms s) i t)"
  unfolding evolves_def by (rule room_dev.develops_update [OF rooms.EndRoom_law]) (rule room_evolves_end)

lemma evolves_UpdateRoomMedia: "stays evolves (rr_UpdateRoomMedia (rs_rooms s) i m)"
  unfolding evolves_def
  by (rule room_dev.develops_update [OF rooms.UpdateRoomMedia_law]) (rule room_evolves_media)

lemma evolves_new_room: "stays evolves (rr_CreateRoom (rs_rooms s) room)"
  unfolding evolves_def
proof (rule room_dev.develops_insert)
  fix w r w'
  assume "invar w" and "rr_CreateRoom (rs_rooms s) room w = (r, w')"
  with rooms.CreateRoom_Inr [of w room] rooms.CreateRoom_Inl [of w room]
  show "invar w' \<and> (room_at w' = room_at w \<or>
      (\<exists>k r'. room_at w k = None \<and> room_at w' = (room_at w)(k \<mapsto> r')))"
    by (cases r) blast+
qed

lemma endRoom_missing:
  assumes inv: "invar w" and room: "room_at w i = Some room"
    and run: "endRoom s room w = (Inl x, w')" and x: "Is x ErrNotFound"
  shows "\<forall>r. room_at w' i = Some r \<longrightarrow> room_Status r \<noteq> RoomActive"
proof -
  from rooms.room_at_ID [OF inv room] have i: "room_ID room = i" .
  from run obtain t w1 where c: "readP (rs_clock s) w = (Inr t, w1)"
    and rest: "rr_EndRoom (rs_rooms s) i t w1 = (Inl x, w') \<or>
      (\<exists>w2. rr_EndRoom (rs_rooms s) i t w1 = (Inr (), w2) \<and>
        Client_DeleteRoom (rs_lk s) (room_Name room) w2 = (Inl x, w'))"
    by (auto simp: endRoom_def prog_simps i split: if_splits)
  from quietD [OF clock_quiet inv c] have w1: "invar w1" "room_at w1 = room_at w" by auto
  from rest show ?thesis
  proof
    assume "rr_EndRoom (rs_rooms s) i t w1 = (Inl x, w')"
    from update_law_missing [OF rooms.EndRoom_law w1(1) this x] show ?thesis by auto
  next
    assume "\<exists>w2. rr_EndRoom (rs_rooms s) i t w1 = (Inr (), w2) \<and>
      Client_DeleteRoom (rs_lk s) (room_Name room) w2 = (Inl x, w')"
    then obtain w2 where e: "rr_EndRoom (rs_rooms s) i t w1 = (Inr (), w2)"
      and d: "Client_DeleteRoom (rs_lk s) (room_Name room) w2 = (Inl x, w')" by blast
    from update_law_Inr [OF rooms.EndRoom_law w1(1) e]
    have "invar w2" "\<forall>r. room_at w2 i = Some r \<longrightarrow> room_Status r \<noteq> RoomActive"
      by (auto simp: updated_def)
    with quietD [OF lk_delete_quiet _ d] show ?thesis by auto
  qed
qed

text \<open>\<open>EndRoom\<close> of one room: the others stay, and it is over unless the call fails otherwise.\<close>

lemma EndRoom_one:
  assumes inv: "invar w" and run: "EndRoom s i w = (q, w')"
  shows "invar w' \<and> (\<forall>j. j \<noteq> i \<longrightarrow> room_at w' j = room_at w j) \<and>
    ((\<exists>r. q = Inr r) \<or> (\<exists>e. q = Inl e \<and> Is e ErrNotFound) \<longrightarrow>
      (\<forall>r. room_at w' i = Some r \<longrightarrow> room_Status r \<noteq> RoomActive))"
proof -
  obtain g w1 where g: "rr_GetRoomByID (rs_rooms s) i w = (g, w1)"
    by (cases "rr_GetRoomByID (rs_rooms s) i w")
  from GetRoomByID_same [OF inv g] have w1: "invar w1" "room_at w1 = room_at w" by auto
  show ?thesis
  proof (cases g)
    case (Inl e)
    with g run have "q = Inl e" "w' = w1" by (simp_all add: EndRoom_def bindP_stop)
    with w1 rooms.GetRoomByID_missing [OF inv] g Inl show ?thesis by auto
  next
    case (Inr room)
    with g run have e: "endRoom s room w1 = (q, w')" by (simp add: EndRoom_def bindP_step)
    from rooms.GetRoomByID_Inr [OF inv] g Inr w1 have at: "room_at w1 i = Some room" by simp
    show ?thesis
    proof (cases q)
      case (Inr r)
      from endRoom_Inr [OF w1(1) at e [unfolded Inr]] w1 at show ?thesis
        by (auto split: if_splits)
    next
      case (Inl x)
      from endRoom_Inl [OF w1(1) at e [unfolded Inl]] w1
      have "invar w' \<and> (\<forall>j. j \<noteq> i \<longrightarrow> room_at w' j = room_at w j)" by auto
      moreover have "\<forall>r. room_at w' i = Some r \<longrightarrow> room_Status r \<noteq> RoomActive" if "Is x ErrNotFound"
        using endRoom_missing [OF w1(1) at e [unfolded Inl] that] .
      ultimately show ?thesis using Inl by auto
    qed
  qed
qed

sublocale evolving: world_order evolves
  by (rule world_order_evolves)

lemma evolves_endRoom: "stays evolves (endRoom s room)"
  unfolding endRoom_def
  by (intro frame_intros evolves_repo evolves_EndRoom)

lemma evolves_EndRoom_op: "stays evolves (EndRoom s i)"
  unfolding EndRoom_def by (intro frame_intros evolves_repo evolves_endRoom)

lemma evolves_close_stale: "stays evolves (close_stale s now d rooms closedCount failed)"
proof (induction rooms arbitrary: closedCount failed)
  case Nil
  show ?case unfolding close_stale.simps by (intro frame_intros)
next
  case (Cons room rooms)
  show ?case unfolding close_stale.simps by (intro frame_intros evolves_EndRoom_op Cons.IH)
qed

lemma evolves_next_media: "stays evolves (next_media s owner mode m)"
  unfolding next_media_def by (intro frame_intros evolves_repo)

lemma evolves_newID: "stays evolves (newID (rs_rand s))"
  unfolding newID_def by (intro frame_intros evolves_repo)

lemma evolves_operations:
  "stays evolves (CreateRoom s inp)" "stays evolves (ListRoomsByOwner s owner)"
  "stays evolves (JoinRoom s i identity name)" "stays evolves (UpdateRoomState s i owner mode m)"
  "stays evolves (EndRoomByOwner s i owner)" "stays evolves (EndRoom s i)"
  "stays evolves (EndStaleActiveRooms s d)"
  unfolding CreateRoom_def ListRoomsByOwner_def JoinRoom_def UpdateRoomState_def EndRoomByOwner_def
    EndStaleActiveRooms_def Let_def
  by (intro frame_intros evolves_repo evolves_newID evolves_new_room evolves_next_media
      evolves_UpdateRoomMedia evolves_endRoom evolves_EndRoom_op evolves_close_stale)+

text \<open>
  The loop over the active rooms: rooms that are not stale are not touched, and every stale room
  that is still active at the end has been counted as failed.
\<close>

lemma close_stale_total: "\<exists>p w'. close_stale s now d rooms closedCount failed w = (Inr p, w')"
proof (induction rooms arbitrary: closedCount failed w)
  case (Cons room rooms)
  obtain q w1 where "EndRoom s (room_ID room) w = (q, w1)" by (cases "EndRoom s (room_ID room) w")
  then have "attemptP (EndRoom s (room_ID room)) w = (Inr q, w1)" by (simp add: prog_simps)
  with Cons.IH show ?case by (cases q) (simp_all add: bindP_step)
qed (simp add: retP_def)

lemma still_active_evolves:
  "invar w \<Longrightarrow> evolves w w' \<Longrightarrow> room_at w (room_ID r) = Some q \<Longrightarrow> still_active (room_at w') r \<Longrightarrow>
    room_Status q \<le> RoomActive"
  by (auto simp: still_active_def room_evolves_def dest!: evolvesD) (metis option.inject)

lemma close_stale_spec:
  assumes "invar w" "distinct (map room_ID rooms)"
    "close_stale s now d rooms closedCount failed w = (Inr (closedCount', failed'), w')"
  shows "invar w' \<and> closedCount \<le> closedCount' \<and> failed \<le> failed' \<and>
    closedCount' + failed' \<le> closedCount + failed + int (length (filter (stale now d) rooms)) \<and>
    (\<forall>i. i \<notin> room_ID ` set (filter (stale now d) rooms) \<longrightarrow> room_at w' i = room_at w i) \<and>
    int (length (filter (\<lambda>r. stale now d r \<and> still_active (room_at w') r) rooms)) \<le> failed' - failed"
  using assms
proof (induction rooms arbitrary: closedCount failed w)
  case Nil
  then show ?case by (simp add: prog_simps)
next
  case (Cons room rooms)
  note inv = Cons.prems(1)
  from Cons.prems(2) have fresh: "room_ID room \<notin> room_ID ` set rooms"
    and dist: "distinct (map room_ID rooms)" by auto
  show ?case
  proof (cases "stale now d room")
    case False
    with Cons.prems(3) have "close_stale s now d rooms closedCount failed w = (Inr (closedCount', failed'), w')"
      by (simp add: stale_def)
    from Cons.IH [OF inv dist this] False show ?thesis by auto
  next
    case True
    obtain q w1 where e: "EndRoom s (room_ID room) w = (q, w1)" by (cases "EndRoom s (room_ID room) w")
    define c where "c = (if \<exists>r. q = Inr r then closedCount + 1 else closedCount)"
    define f where "f = (case q of Inl x \<Rightarrow> if Is x ErrNotFound then failed else failed + 1
      | Inr r \<Rightarrow> failed)"
    from e True Cons.prems(3)
    have run: "close_stale s now d rooms c f w1 = (Inr (closedCount', failed'), w')"
      by (cases q) (auto simp: stale_def bindP_def attemptP_def c_def f_def)
    note one = EndRoom_one [OF inv e]
    then have inv1: "invar w1" by blast
    note IH = Cons.IH [OF inv1 dist run]
    have same: "room_at w' (room_ID room) = room_at w1 (room_ID room)"
      using IH fresh by auto
    have "still_active (room_at w') room \<Longrightarrow> f = failed + 1"
      using one same by (cases q) (auto simp: f_def still_active_def)
    moreover have "closedCount \<le> c" "failed \<le> f" "c + f \<le> closedCount + failed + 1"
      by (auto simp: c_def f_def split: sum.splits)
    moreover have "room_at w' i = room_at w i"
      if "i \<notin> room_ID ` set (filter (stale now d) (room # rooms))" for i
      using that True IH one by auto
    ultimately show ?thesis using IH True by auto
  qed
qed

lemma EndStaleActiveRooms_Inr:
  assumes inv: "invar w" and run: "EndStaleActiveRooms s d0 w = (Inr (closedCount, failed), w')"
    and d: "d = (if d0 \<le> 0 then 24 * Hour else d0)"
  shows "\<exists>rooms now. (\<exists>u u'. rs_clock s u = (now, u')) \<and> distinct (map room_ID rooms) \<and>
    set rooms = {r. room_at w (room_ID r) = Some r \<and> room_Status r = RoomActive} \<and>
    invar w' \<and> 0 \<le> closedCount \<and> 0 \<le> failed \<and>
    closedCount + failed \<le> int (length (filter (stale now d) rooms)) \<and>
    (\<forall>i. i \<notin> room_ID ` set (filter (stale now d) rooms) \<longrightarrow> room_at w' i = room_at w i) \<and>
    int (length (filter (\<lambda>r. stale now d r \<and> still_active (room_at w') r) rooms)) \<le> failed"
proof -
  from run d obtain rooms w1 now w2 where l: "rr_ListActiveRooms (rs_rooms s) w = (Inr rooms, w1)"
    and c: "readP (rs_clock s) w1 = (Inr now, w2)"
    and loop: "close_stale s now d rooms 0 0 w2 = (Inr (closedCount, failed), w')"
    by (auto simp: EndStaleActiveRooms_def prog_simps Let_def)
  from quietD [OF rooms.ListActiveRooms_quiet inv l] have w1: "invar w1" "room_at w1 = room_at w" by auto
  from quietD [OF clock_quiet w1(1) c] w1 have w2: "invar w2" "room_at w2 = room_at w" by auto
  note listed = rooms.ListActiveRooms_Inr [OF inv l]
  from c have "\<exists>u u'. rs_clock s u = (now, u')" by (auto simp: prog_simps)
  with close_stale_spec [OF w2(1) conjunct1 [OF listed] loop] listed w2 show ?thesis
    by (intro exI [of _ rooms] exI [of _ now]) simp
qed

end

subsection \<open>The service on the program's own repositories\<close>

definition NewRoomService ::
    "'w RoomRepository \<Rightarrow> 'w MediaRepository \<Rightarrow> ('w, 'q) Client \<Rightarrow> ('w \<Rightarrow> time \<times> 'w) \<Rightarrow>
      (nat \<Rightarrow> ('w, byte list) prog) \<Rightarrow> ('w, 'q) RoomService" where
  "NewRoomService rooms media lk now rnd =
    \<lparr>rs_rooms = rooms, rs_media = media, rs_lk = lk, rs_clock = now, rs_rand = rnd\<rparr>"

text \<open>The service as \<open>cmd/api/main.go\<close> builds it.\<close>

definition pg_room_service ::
    "('e, 'q) platform \<Rightarrow> string \<Rightarrow> string \<Rightarrow> string \<Rightarrow> duration \<Rightarrow> duration \<Rightarrow>
      ('e world, 'q) RoomService" where
  "pg_room_service pf apiKey apiSecret webhookSecret timeout ttl =
    NewRoomService (NewPostgresRoomRepository (pf_pool pf)) (NewPostgresMediaRepository (pf_pool pf))
      (NewClient (ext_sdk (pf_livekit pf)) apiKey apiSecret webhookSecret timeout ttl)
      (ext_read (pf_clock pf)) (rand_Read (ext_crypto (pf_crypto pf)))"

lemma pg_room_service_simps [simp]:
  "rs_rooms (pg_room_service pf k sec whs timeout ttl) = NewPostgresRoomRepository (pf_pool pf)"
  "rs_media (pg_room_service pf k sec whs timeout ttl) = NewPostgresMediaRepository (pf_pool pf)"
  "rs_lk (pg_room_service pf k sec whs timeout ttl) = NewClient (ext_sdk (pf_livekit pf)) k sec whs timeout ttl"
  "rs_clock (pg_room_service pf k sec whs timeout ttl) = ext_read (pf_clock pf)"
  "rs_rand (pg_room_service pf k sec whs timeout ttl) n = ext (rand_Read (pf_crypto pf) n)"
  by (simp_all add: pg_room_service_def NewRoomService_def)

lemma NewClient_sdk [simp]: "cl_sdk (NewClient sdk k sec whs timeout ttl) = sdk"
  by (simp add: NewClient_def)

interpretation pg_room: room_service "pg_room_service pf k sec whs timeout ttl" world_ok room_row media_row
  for pf :: "('e, 'q) platform" and k sec whs :: string and timeout ttl :: duration
proof (intro room_service.intro room_service_axioms.intro)
  let ?s = "pg_room_service pf k sec whs timeout ttl"
  show "room_repository (rs_rooms ?s) world_ok room_row"
    unfolding pg_room_service_simps by (rule pg_rooms.room_repository_axioms)
  show "media_repository (rs_media ?s) world_ok media_row"
    unfolding pg_room_service_simps by (rule pg_media.media_repository_axioms)
  fix n i p r m :: string and j :: nat
  show "stays (quiet world_ok room_row) (Client_CreateRoom (rs_lk ?s) n)"
    by (simp add: Client_CreateRoom_def ext_quiet)
  show "stays (quiet world_ok room_row) (Client_DeleteRoom (rs_lk ?s) n)"
    by (simp add: Client_DeleteRoom_def ext_quiet)
  show "stays (quiet world_ok room_row) (Client_GenerateToken (rs_lk ?s) i n p)"
    by (simp add: Client_GenerateToken_def ext_quiet)
  show "stays (quiet world_ok room_row) (readP (rs_clock ?s))"
    by (simp add: ext_read_quiet)
  show "stays (quiet world_ok room_row) (rs_rand ?s j)"
    by (simp add: ext_quiet)
  show "stays (quiet world_ok room_row) (mr_GetByID (rs_media ?s) m)"
    by (auto simp: PostgresMedia_GetByID_def intro!: stays_query_row stays_reads media_reads quiet_env)
  show "stays (quiet world_ok media_row) (rr_GetRoomByID (rs_rooms ?s) r)"
    by (auto simp: PostgresRoom_GetRoomByID_def intro!: stays_query_row stays_reads rooms_reads quiet_env)
qed

end
