(* ===== verification/Auth_Repository.thy ===== *)
theory Auth_Repository
  imports Store
begin

text \<open>
  \<open>internal/repository/users.go\<close> and \<open>internal/repository/tokens.go\<close>: the interfaces
  \<open>UserRepository\<close> and \<open>SessionRepository\<close>, their Postgres implementations, and the contracts
  the authentication service relies on, interpreted on the implementations.
\<close>

record 'w UserRepository =
  ur_CreateUser :: "User \<Rightarrow> ('w, User) prog"
  ur_GetByEmail :: "string \<Rightarrow> ('w, User) prog"

record 'w SessionRepository =
  sr_Store :: "Session \<Rightarrow> ('w, unit) prog"
  sr_GetByRefreshTokenHash :: "string \<Rightarrow> ('w, Session) prog"
  sr_Rotate :: "string \<Rightarrow> string \<Rightarrow> string \<Rightarrow> time \<Rightarrow> time \<Rightarrow> ('w, Session) prog"
  sr_IsAccessRevoked :: "string \<Rightarrow> ('w, bool) prog"
  sr_RevokeByAccessJTI :: "string \<Rightarrow> time \<Rightarrow> ('w, unit) prog"

subsection \<open>Users\<close>

text \<open>
  \<open>INSERT INTO users (id, name, email, email_confirmed, password_hash)\<close>: the column
  \<open>created_at\<close> is filled by the trigger \<open>set_created_at\<close> with the server's time.
\<close>

definition users_insert :: "User \<Rightarrow> User stmt" where
  "users_insert u now d =
    (let row = u\<lparr>user_CreatedAt := timestamptz now\<rparr>
     in if user_ID u \<in> user_ID ` set (users_tbl d) \<or> user_Email u \<in> user_Email ` set (users_tbl d)
        then Inl (''23505'', ''duplicate key value violates unique constraint'')
        else Inr ([row], d\<lparr>users_tbl := users_tbl d @ [row]\<rparr>))"

definition users_select :: "string \<Rightarrow> User stmt" where
  "users_select email now d = Inr (filter (\<lambda>u. user_Email u = email) (users_tbl d), d)"

text \<open>
  \<open>if pgErr, ok := err.(*pgconn.PgError); ok && pgErr.Code == "23505"\<close>. The \<open>pgconn\<close> imported
  by the file is \<open>github.com/jackc/pgconn\<close>, the stand-alone package.
\<close>

definition unique_violation_as_exists :: "err \<Rightarrow> err" where
  "unique_violation_as_exists e =
    (case e of
       Driver (PgErrorV1 code msg) \<Rightarrow> if code = ''23505'' then ErrAlreadyExists else e
     | _ \<Rightarrow> e)"

definition PostgresUser_CreateUser :: "'e pgpool \<Rightarrow> User \<Rightarrow> ('e world, User) prog" where
  "PostgresUser_CreateUser pool u =
    mapErrP unique_violation_as_exists (query_row pool (users_insert u))"

definition PostgresUser_GetByEmail :: "'e pgpool \<Rightarrow> string \<Rightarrow> ('e world, User) prog" where
  "PostgresUser_GetByEmail pool email =
    mapErrP (no_rows_as ErrNotFound) (query_row pool (users_select email))"

definition NewPostgresUserRepository :: "'e pgpool \<Rightarrow> 'e world UserRepository" where
  "NewPostgresUserRepository pool =
    \<lparr>ur_CreateUser = PostgresUser_CreateUser pool, ur_GetByEmail = PostgresUser_GetByEmail pool\<rparr>"

lemma NewPostgresUserRepository_simps [simp]:
  "ur_CreateUser (NewPostgresUserRepository pool) = PostgresUser_CreateUser pool"
  "ur_GetByEmail (NewPostgresUserRepository pool) = PostgresUser_GetByEmail pool"
  by (simp_all add: NewPostgresUserRepository_def)

subsection \<open>Sessions\<close>

definition stored_session :: "Session \<Rightarrow> Session" where
  "stored_session s =
    s\<lparr>sess_IssuedAt := timestamptz (sess_IssuedAt s), sess_ExpiresAt := timestamptz (sess_ExpiresAt s),
      sess_RevokedAt := map_option timestamptz (sess_RevokedAt s)\<rparr>"

definition sessions_insert :: "Session \<Rightarrow> Session stmt" where
  "sessions_insert s now d =
    (if sess_ID s \<in> sess_ID ` set (sessions_tbl d) \<or>
        sess_RefreshTokenHash s \<in> sess_RefreshTokenHash ` set (sessions_tbl d) \<or>
        sess_AccessJTI s \<in> sess_AccessJTI ` set (sessions_tbl d)
     then Inl (''23505'', ''duplicate key value violates unique constraint'')
     else if sess_UserID s \<notin> user_ID ` set (users_tbl d)
     then Inl (''23503'', ''insert or update violates foreign key constraint'')
     else Inr ([], d\<lparr>sessions_tbl := sessions_tbl d @ [stored_session s]\<rparr>))"

definition sessions_select :: "string \<Rightarrow> Session stmt" where
  "sessions_select h now d = Inr (filter (\<lambda>s. sess_RefreshTokenHash s = h) (sessions_tbl d), d)"

text \<open>\<open>UPDATE sessions SET .. version = version + 1 WHERE id = $1 AND revoked_at IS NULL\<close>.\<close>

definition rotated :: "string \<Rightarrow> string \<Rightarrow> time \<Rightarrow> time \<Rightarrow> Session \<Rightarrow> Session" where
  "rotated jti h issuedAt expiresAt s =
    s\<lparr>sess_RefreshTokenHash := h, sess_AccessJTI := jti,
      sess_IssuedAt := timestamptz issuedAt, sess_ExpiresAt := timestamptz expiresAt,
      sess_Version := sess_Version s + 1\<rparr>"

definition sessions_rotate :: "string \<Rightarrow> string \<Rightarrow> string \<Rightarrow> time \<Rightarrow> time \<Rightarrow> Session stmt" where
  "sessions_rotate i jti h issuedAt expiresAt now d =
    (let hit = (\<lambda>s. sess_ID s = i \<and> sess_RevokedAt s = None);
         set_row = rotated jti h issuedAt expiresAt;
         hits = filter hit (sessions_tbl d);
         others = filter (\<lambda>s. \<not> hit s) (sessions_tbl d)
     in if hits \<noteq> [] \<and> list_ex (\<lambda>s. sess_Version s \<ge> 2147483647) hits
        then Inl (''22003'', ''integer out of range'')
        else if hits \<noteq> [] \<and>
          (h \<in> sess_RefreshTokenHash ` set others \<or> jti \<in> sess_AccessJTI ` set others)
        then Inl (''23505'', ''duplicate key value violates unique constraint'')
        else Inr (map set_row hits,
                  d\<lparr>sessions_tbl := update_where hit set_row (sessions_tbl d)\<rparr>))"

text \<open>\<open>SELECT EXISTS (SELECT 1 FROM sessions WHERE access_jti = $1 AND revoked_at IS NOT NULL)\<close>.\<close>

definition sessions_revoked :: "string \<Rightarrow> bool stmt" where
  "sessions_revoked jti now d =
    Inr ([list_ex (\<lambda>s. sess_AccessJTI s = jti \<and> sess_RevokedAt s \<noteq> None) (sessions_tbl d)], d)"

text \<open>\<open>UPDATE sessions SET revoked_at = $2 WHERE access_jti = $1 AND revoked_at IS NULL\<close>.\<close>

definition revoked :: "string \<Rightarrow> time \<Rightarrow> Session \<Rightarrow> Session" where
  "revoked jti t s =
    (if sess_AccessJTI s = jti \<and> sess_RevokedAt s = None
     then s\<lparr>sess_RevokedAt := Some (timestamptz t)\<rparr> else s)"

definition sessions_revoke :: "string \<Rightarrow> time \<Rightarrow> Session stmt" where
  "sessions_revoke jti t now d =
    Inr ([], d\<lparr>sessions_tbl := map (revoked jti t) (sessions_tbl d)\<rparr>)"

definition PostgresSession_Store :: "'e pgpool \<Rightarrow> Session \<Rightarrow> ('e world, unit) prog" where
  "PostgresSession_Store pool s = bindP (run_stmt pool (sessions_insert s)) (\<lambda>_. retP ())"

definition PostgresSession_GetByRefreshTokenHash ::
    "'e pgpool \<Rightarrow> string \<Rightarrow> ('e world, Session) prog" where
  "PostgresSession_GetByRefreshTokenHash pool h =
    mapErrP (no_rows_as ErrSessionNotFound) (query_row pool (sessions_select h))"

definition PostgresSession_Rotate ::
    "'e pgpool \<Rightarrow> string \<Rightarrow> string \<Rightarrow> string \<Rightarrow> time \<Rightarrow> time \<Rightarrow> ('e world, Session) prog" where
  "PostgresSession_Rotate pool i jti h issuedAt expiresAt =
    mapErrP (no_rows_as ErrSessionNotFound)
      (query_row pool (sessions_rotate i jti h issuedAt expiresAt))"

definition PostgresSession_IsAccessRevoked :: "'e pgpool \<Rightarrow> string \<Rightarrow> ('e world, bool) prog" where
  "PostgresSession_IsAccessRevoked pool jti = query_row pool (sessions_revoked jti)"

definition PostgresSession_RevokeByAccessJTI ::
    "'e pgpool \<Rightarrow> string \<Rightarrow> time \<Rightarrow> ('e world, unit) prog" where
  "PostgresSession_RevokeByAccessJTI pool jti t =
    bindP (run_stmt pool (sessions_revoke jti t)) (\<lambda>_. retP ())"

definition NewPostgresSessionRepository :: "'e pgpool \<Rightarrow> 'e world SessionRepository" where
  "NewPostgresSessionRepository pool =
    \<lparr>sr_Store = PostgresSession_Store pool,
     sr_GetByRefreshTokenHash = PostgresSession_GetByRefreshTokenHash pool,
     sr_Rotate = PostgresSession_Rotate pool,
     sr_IsAccessRevoked = PostgresSession_IsAccessRevoked pool,
     sr_RevokeByAccessJTI = PostgresSession_RevokeByAccessJTI pool\<rparr>"

lemma NewPostgresSessionRepository_simps [simp]:
  "sr_Store (NewPostgresSessionRepository pool) = PostgresSession_Store pool"
  "sr_GetByRefreshTokenHash (NewPostgresSessionRepository pool) =
     PostgresSession_GetByRefreshTokenHash pool"
  "sr_Rotate (NewPostgresSessionRepository pool) = PostgresSession_Rotate pool"
  "sr_IsAccessRevoked (NewPostgresSessionRepository pool) = PostgresSession_IsAccessRevoked pool"
  "sr_RevokeByAccessJTI (NewPostgresSessionRepository pool) = PostgresSession_RevokeByAccessJTI pool"
  by (simp_all add: NewPostgresSessionRepository_def)

subsection \<open>The contracts\<close>

text \<open>\<open>user_at\<close> is the user of an e-mail address.\<close>

locale user_repository =
  fixes U :: "'w UserRepository"
    and invar :: "'w \<Rightarrow> bool"
    and user_at :: "'w \<Rightarrow> string \<Rightarrow> User option"
  assumes user_at_Email: "invar w \<Longrightarrow> user_at w e = Some u \<Longrightarrow> user_Email u = e"
    and GetByEmail_quiet: "stays (quiet invar user_at) (ur_GetByEmail U e)"
    and GetByEmail_Inr: "invar w \<Longrightarrow> ur_GetByEmail U e w = (Inr u, w') \<Longrightarrow> user_at w e = Some u"
    and GetByEmail_missing:
      "invar w \<Longrightarrow> ur_GetByEmail U e w = (Inl x, w') \<Longrightarrow> Is x ErrNotFound \<Longrightarrow> user_at w e = None"
    and CreateUser_Inr: "invar w \<Longrightarrow> ur_CreateUser U u w = (Inr u', w') \<Longrightarrow>
      invar w' \<and> user_at w (user_Email u) = None \<and> user_at w' = (user_at w)(user_Email u \<mapsto> u') \<and>
      (\<exists>t. u' = u\<lparr>user_CreatedAt := t\<rparr>)"
    and CreateUser_Inl: "invar w \<Longrightarrow> ur_CreateUser U u w = (Inl x, w') \<Longrightarrow>
      invar w' \<and> (user_at w' = user_at w \<or> user_at w (user_Email u) = None \<and>
        (\<exists>t. user_at w' = (user_at w)(user_Email u \<mapsto> u\<lparr>user_CreatedAt := t\<rparr>)))"

text \<open>\<open>sess_at\<close> is the session of an identifier.\<close>

locale session_repository =
  fixes S :: "'w SessionRepository"
    and invar :: "'w \<Rightarrow> bool"
    and sess_at :: "'w \<Rightarrow> string \<Rightarrow> Session option"
  assumes sess_at_ID: "invar w \<Longrightarrow> sess_at w i = Some s \<Longrightarrow> sess_ID s = i"
    and hash_unique: "invar w \<Longrightarrow> sess_at w i = Some s \<Longrightarrow> sess_at w j = Some s' \<Longrightarrow>
      sess_RefreshTokenHash s = sess_RefreshTokenHash s' \<Longrightarrow> i = j"
    and GetByHash_quiet: "stays (quiet invar sess_at) (sr_GetByRefreshTokenHash S h)"
    and GetByHash_Inr: "invar w \<Longrightarrow> sr_GetByRefreshTokenHash S h w = (Inr s, w') \<Longrightarrow>
      sess_at w (sess_ID s) = Some s \<and> sess_RefreshTokenHash s = h"
    and GetByHash_missing: "invar w \<Longrightarrow>
      sr_GetByRefreshTokenHash S h w = (Inl ErrSessionNotFound, w') \<Longrightarrow>
      sess_at w i = Some s \<Longrightarrow> sess_RefreshTokenHash s \<noteq> h"
    and Rotate_law: "update_law invar sess_at i (\<lambda>s. sess_RevokedAt s = None) (rotated jti h t1 t2)
      ErrSessionNotFound (sr_Rotate S i jti h t1 t2)"
    and Rotate_row: "invar w \<Longrightarrow> sr_Rotate S i jti h t1 t2 w = (Inr s, w') \<Longrightarrow> sess_at w' i = Some s"
    and IsAccessRevoked_quiet: "stays (quiet invar sess_at) (sr_IsAccessRevoked S jti)"
    and IsAccessRevoked_Inr: "invar w \<Longrightarrow> sr_IsAccessRevoked S jti w = (Inr b, w') \<Longrightarrow>
      b \<longleftrightarrow> (\<exists>i s. sess_at w i = Some s \<and> sess_AccessJTI s = jti \<and> sess_RevokedAt s \<noteq> None)"
    and RevokeByAccessJTI_Inr: "invar w \<Longrightarrow> sr_RevokeByAccessJTI S jti t w = (Inr x, w') \<Longrightarrow>
      invar w' \<and> sess_at w' = (\<lambda>i. map_option (revoked jti t) (sess_at w i))"
    and RevokeByAccessJTI_Inl: "invar w \<Longrightarrow> sr_RevokeByAccessJTI S jti t w = (Inl e, w') \<Longrightarrow>
      invar w' \<and> (sess_at w' = sess_at w \<or>
        sess_at w' = (\<lambda>i. map_option (revoked jti t) (sess_at w i)))"
    and Store_Inr: "invar w \<Longrightarrow> sr_Store S s w = (Inr x, w') \<Longrightarrow>
      invar w' \<and> sess_at w (sess_ID s) = None \<and>
      sess_at w' = (sess_at w)(sess_ID s \<mapsto> stored_session s)"
    and Store_Inl: "invar w \<Longrightarrow> sr_Store S s w = (Inl e, w') \<Longrightarrow>
      invar w' \<and> (sess_at w' = sess_at w \<or> sess_at w (sess_ID s) = None \<and>
        sess_at w' = (sess_at w)(sess_ID s \<mapsto> stored_session s))"

subsection \<open>The implementations meet the contracts\<close>

definition user_view :: "db \<Rightarrow> string \<Rightarrow> User option" where
  "user_view d e = row_of user_Email e (users_tbl d)"

definition sess_view :: "db \<Rightarrow> string \<Rightarrow> Session option" where
  "sess_view d i = row_of sess_ID i (sessions_tbl d)"

abbreviation user_row :: "'e world \<Rightarrow> string \<Rightarrow> User option" where
  "user_row \<equiv> \<lambda>w. user_view (db w)"

abbreviation sess_row :: "'e world \<Rightarrow> string \<Rightarrow> Session option" where
  "sess_row \<equiv> \<lambda>w. sess_view (db w)"

lemma auth_quiet: "stmt_reads st \<Longrightarrow> stays (quiet world_ok (\<lambda>w. v (db w))) (run_stmt pool st)"
  by (rule stays_reads) (auto simp: quiet_def world_ok_def)

lemma db_ok_emails: "db_ok d \<Longrightarrow> distinct (map user_Email (users_tbl d))"
  by (simp add: db_ok_def db_unique_def)

lemma db_ok_sess_IDs: "db_ok d \<Longrightarrow> distinct (map sess_ID (sessions_tbl d))"
  by (simp add: db_ok_def db_unique_def)

lemma db_ok_hashes: "db_ok d \<Longrightarrow> distinct (map sess_RefreshTokenHash (sessions_tbl d))"
  by (simp add: db_ok_def db_unique_def)

lemma sess_member_view: "db_ok d \<Longrightarrow> s \<in> set (sessions_tbl d) \<longleftrightarrow> sess_view d (sess_ID s) = Some s"
  unfolding sess_view_def using row_of_member [OF db_ok_sess_IDs] row_of_Some by metis

lemma users_insert_ok:
  assumes "db_ok d" "users_insert u now d = Inr (rows, d')"
  shows "db_ok d' \<and> user_Email u \<notin> user_Email ` set (users_tbl d) \<and>
    rows = [u\<lparr>user_CreatedAt := timestamptz now\<rparr>] \<and> users_tbl d' = users_tbl d @ rows"
  using assms
  by (auto simp: users_insert_def Let_def db_ok_def db_unique_def db_foreign_def split: if_splits)

lemma auth_reads: "stmt_reads (users_select e)" "stmt_reads (sessions_select h)"
    "stmt_reads (sessions_revoked jti)"
  by (auto simp: stmt_reads_def users_select_def sessions_select_def sessions_revoked_def)

lemma users_select_rows:
  "db_ok d \<Longrightarrow> users_select e t d =
    Inr (case user_view d e of None \<Rightarrow> [] | Some u \<Rightarrow> [u], d)"
  by (simp add: users_select_def user_view_def filter_key_row_of' db_ok_emails)

lemma sessions_select_rows:
  "db_ok d \<Longrightarrow> sessions_select h t d =
    Inr (case row_of sess_RefreshTokenHash h (sessions_tbl d) of None \<Rightarrow> [] | Some s \<Rightarrow> [s], d)"
  by (simp add: sessions_select_def filter_key_row_of' db_ok_hashes)

lemma CreateUser_cases:
  assumes run: "PostgresUser_CreateUser pool u w = (r, w')"
  obtains (ok) u' xs where "run_stmt pool (users_insert u) w = (Inr (u' # xs), w')" "r = Inr u'"
    | (fail) q where "run_stmt pool (users_insert u) w = (q, w')" "\<exists>e. r = Inl e"
proof (cases r)
  case (Inr u')
  with run ok show ?thesis
    by (auto simp: PostgresUser_CreateUser_def mapErrP_Inr query_row_Inr)
next
  case (Inl e)
  with run obtain e' where "query_row pool (users_insert u) w = (Inl e', w')"
    by (auto simp: PostgresUser_CreateUser_def mapErrP_Inl)
  with Inl fail show ?thesis by (blast dest: query_row_run)
qed

interpretation pg_users: user_repository "NewPostgresUserRepository pool" world_ok user_row
  for pool :: "'e pgpool"
proof (unfold_locales, simp_all only: NewPostgresUserRepository_simps)
  fix w w' :: "'e world" and e :: string and u u' :: User and x
  show "user_row w e = Some u \<Longrightarrow> user_Email u = e" if "world_ok w"
    by (auto simp: user_view_def dest: row_of_Some)
  show "stays (quiet world_ok user_row) (PostgresUser_GetByEmail pool e)"
    unfolding PostgresUser_GetByEmail_def by (intro stays_query_row auth_quiet auth_reads)
  assume ok: "world_ok w"
  show "PostgresUser_GetByEmail pool e w = (Inr u, w') \<Longrightarrow> user_row w e = Some u"
    unfolding PostgresUser_GetByEmail_def
    by (erule query_row_cases)
      (use ok in \<open>auto simp: sql_simps users_select_rows world_ok_def split: option.splits\<close>)
  show "PostgresUser_GetByEmail pool e w = (Inl x, w') \<Longrightarrow> Is x ErrNotFound \<Longrightarrow> user_row w e = None"
    unfolding PostgresUser_GetByEmail_def
    by (erule query_row_cases)
      (use ok in \<open>auto simp: sql_simps users_select_rows world_ok_def split: option.splits\<close>)
  have ins: "world_ok w' \<and> user_row w (user_Email u) = None \<and>
      (\<exists>t. rows = [u\<lparr>user_CreatedAt := t\<rparr>] \<and>
        user_row w' = (user_row w)(user_Email u \<mapsto> u\<lparr>user_CreatedAt := t\<rparr>))"
    if "users_insert u t' (db w) = Inr (rows, db w')" for t' rows
    using users_insert_ok [OF _ that] ok
    by (auto simp: world_ok_def user_view_def fun_eq_iff row_of_None row_of_insert)
  show "PostgresUser_CreateUser pool u w = (Inr u', w') \<Longrightarrow> world_ok w' \<and>
      user_row w (user_Email u) = None \<and> user_row w' = (user_row w)(user_Email u \<mapsto> u') \<and>
      (\<exists>t. u' = u\<lparr>user_CreatedAt := t\<rparr>)"
    by (erule CreateUser_cases) (auto dest!: run_stmt_answer ins)
  show "PostgresUser_CreateUser pool u w = (Inl x, w') \<Longrightarrow> world_ok w' \<and>
      (user_row w' = user_row w \<or> user_row w (user_Email u) = None \<and>
        (\<exists>t. user_row w' = (user_row w)(user_Email u \<mapsto> u\<lparr>user_CreatedAt := t\<rparr>)))"
    using ok by (elim CreateUser_cases) (auto simp: world_ok_def dest!: run_stmt_db ins)
qed

lemma stored_session_simps [simp]:
  "sess_ID (stored_session s) = sess_ID s"
  "sess_UserID (stored_session s) = sess_UserID s"
  "sess_RefreshTokenHash (stored_session s) = sess_RefreshTokenHash s"
  "sess_AccessJTI (stored_session s) = sess_AccessJTI s"
  "sess_Version (stored_session s) = sess_Version s"
  "sess_ExpiresAt (stored_session s) = timestamptz (sess_ExpiresAt s)"
  "sess_RevokedAt (stored_session s) = None \<longleftrightarrow> sess_RevokedAt s = None"
  by (simp_all add: stored_session_def)

lemma sessions_insert_ok:
  assumes "db_ok d" "sessions_insert s now d = Inr (rows, d')"
  shows "db_ok d' \<and> sess_ID s \<notin> sess_ID ` set (sessions_tbl d) \<and>
    sessions_tbl d' = sessions_tbl d @ [stored_session s]"
  using assms
  by (auto simp: sessions_insert_def db_ok_def db_unique_def db_foreign_def split: if_splits)

lemma sessions_rotate_ok:
  assumes ok: "db_ok d" and run: "sessions_rotate i jti h t1 t2 now d = Inr (rows, d')"
  shows "db_ok d'"
proof (cases "filter (\<lambda>s. sess_ID s = i \<and> sess_RevokedAt s = None) (sessions_tbl d) = []")
  case True
  with run have "d' = d\<lparr>sessions_tbl := sessions_tbl d\<rparr>"
    by (auto simp: sessions_rotate_def Let_def update_where_none)
  with ok show ?thesis by simp
next
  case False
  let ?hit = "\<lambda>s. sess_ID s = i \<and> sess_RevokedAt s = None"
  let ?f = "rotated jti h t1 t2"
  let ?new = "update_where ?hit ?f (sessions_tbl d)"
  from False run have d': "d' = d\<lparr>sessions_tbl := ?new\<rparr>"
    and h: "h \<notin> sess_RefreshTokenHash ` set (filter (\<lambda>s. \<not> ?hit s) (sessions_tbl d))"
    and j: "jti \<notin> sess_AccessJTI ` set (filter (\<lambda>s. \<not> ?hit s) (sessions_tbl d))"
    unfolding sessions_rotate_def Let_def by (simp_all split: if_splits)
  have dist: "distinct (map sess_ID (sessions_tbl d))"
    "distinct (map sess_RefreshTokenHash (sessions_tbl d))"
    "distinct (map sess_AccessJTI (sessions_tbl d))"
    using ok by (simp_all add: db_ok_def db_unique_def)
  have "map sess_ID ?new = map sess_ID (sessions_tbl d)"
    "map sess_UserID ?new = map sess_UserID (sessions_tbl d)"
    by (rule map_update_where; simp add: rotated_def)+
  moreover have "distinct (map sess_RefreshTokenHash ?new)"
    by (rule distinct_update_one [OF dist(1) _ dist(2) h]) (auto simp: rotated_def)
  moreover have "distinct (map sess_AccessJTI ?new)"
    by (rule distinct_update_one [OF dist(1) _ dist(3) j]) (auto simp: rotated_def)
  moreover have "sess_UserID s \<in> user_ID ` set (users_tbl d)" if "s \<in> set ?new" for s
    using that ok calculation(2) unfolding db_ok_def db_foreign_def
    by (metis (no_types, lifting) imageE imageI list.set_map)
  ultimately show ?thesis
    using ok d' unfolding db_ok_def db_unique_def db_foreign_def by simp
qed

lemma sessions_rotate_updates:
  "stmt_updates (sessions_rotate i jti h t1 t2) sess_view i (\<lambda>s. sess_RevokedAt s = None)
    (rotated jti h t1 t2)"
proof -
  have "sess_view = (\<lambda>d j. row_of sess_ID j (sessions_tbl d))"
    by (simp add: fun_eq_iff sess_view_def)
  moreover have "stmt_updates (sessions_rotate i jti h t1 t2)
      (\<lambda>d j. row_of sess_ID j (sessions_tbl d)) i (\<lambda>s. sess_RevokedAt s = None) (rotated jti h t1 t2)"
  proof (rule keyed_stmt_updates)
    fix now d rows d'
    assume ok: "db_ok d" and run: "sessions_rotate i jti h t1 t2 now d = Inr (rows, d')"
    from sessions_rotate_ok [OF ok run] run
    show "db_ok d' \<and> rows = map (rotated jti h t1 t2)
          (filter (\<lambda>s. sess_ID s = i \<and> sess_RevokedAt s = None) (sessions_tbl d)) \<and>
        sessions_tbl d' = update_where (\<lambda>s. sess_ID s = i \<and> sess_RevokedAt s = None)
          (rotated jti h t1 t2) (sessions_tbl d)"
      unfolding sessions_rotate_def Let_def by (auto split: if_splits)
  qed (simp_all add: db_ok_sess_IDs rotated_def)
  ultimately show ?thesis by simp
qed

lemma revoked_simps [simp]:
  "sess_ID (revoked jti t s) = sess_ID s" "sess_UserID (revoked jti t s) = sess_UserID s"
  "sess_RefreshTokenHash (revoked jti t s) = sess_RefreshTokenHash s"
  "sess_AccessJTI (revoked jti t s) = sess_AccessJTI s"
  by (simp_all add: revoked_def)

lemma sessions_revoke_ok:
  assumes "db_ok d" "sessions_revoke jti t now d = Inr (rows, d')"
  shows "db_ok d' \<and> sess_view d' = (\<lambda>i. map_option (revoked jti t) (sess_view d i))"
proof -
  have "row_of sess_ID i (map (revoked jti t) ss) = map_option (revoked jti t) (row_of sess_ID i ss)"
    for i ss
    by (induction ss) (auto simp: row_of_def)
  with assms show ?thesis
    by (auto simp: sessions_revoke_def db_ok_def db_unique_def db_foreign_def sess_view_def
        comp_def fun_eq_iff)
qed

lemma Store_Inl_run: "PostgresSession_Store pool s w = (r, w') \<Longrightarrow>
    \<exists>q. run_stmt pool (sessions_insert s) w = (q, w')"
  by (cases r) (auto simp: PostgresSession_Store_def prog_simps)

lemma Revoke_run: "PostgresSession_RevokeByAccessJTI pool jti t w = (r, w') \<Longrightarrow>
    \<exists>q. run_stmt pool (sessions_revoke jti t) w = (q, w')"
  by (cases r) (auto simp: PostgresSession_RevokeByAccessJTI_def prog_simps)

interpretation pg_sessions: session_repository "NewPostgresSessionRepository pool" world_ok sess_row
  for pool :: "'e pgpool"
proof (unfold_locales, simp_all only: NewPostgresSessionRepository_simps)
  fix w w' :: "'e world" and i j h jti :: string and s s' :: Session and t t1 t2 :: time and b e x
  show "stays (quiet world_ok sess_row) (PostgresSession_GetByRefreshTokenHash pool h)"
    unfolding PostgresSession_GetByRefreshTokenHash_def
    by (intro stays_query_row auth_quiet auth_reads)
  show "stays (quiet world_ok sess_row) (PostgresSession_IsAccessRevoked pool jti)"
    unfolding PostgresSession_IsAccessRevoked_def by (intro stays_query_row auth_quiet auth_reads)
  show "update_law world_ok sess_row i (\<lambda>s. sess_RevokedAt s = None) (rotated jti h t1 t2)
      ErrSessionNotFound (PostgresSession_Rotate pool i jti h t1 t2)"
    unfolding PostgresSession_Rotate_def by (intro query_row_law sessions_rotate_updates) simp
  assume ok: "world_ok w"
  then have d: "db_ok (db w)" by (simp add: world_ok_def)
  show "sess_row w i = Some s \<Longrightarrow> sess_ID s = i"
    by (auto simp: sess_view_def dest: row_of_Some)
  show "sess_row w i = Some s \<Longrightarrow> sess_row w j = Some s' \<Longrightarrow>
      sess_RefreshTokenHash s = sess_RefreshTokenHash s' \<Longrightarrow> i = j"
    using inj_on_key_distinct [OF db_ok_hashes [OF d]]
    by (auto simp: sess_view_def dest!: row_of_Some)
  show "PostgresSession_GetByRefreshTokenHash pool h w = (Inr s, w') \<Longrightarrow>
      sess_row w (sess_ID s) = Some s \<and> sess_RefreshTokenHash s = h"
    unfolding PostgresSession_GetByRefreshTokenHash_def
    by (erule query_row_cases)
      (auto simp: sql_simps sessions_select_rows [OF d] sess_member_view [OF d, symmetric]
        split: option.splits dest!: row_of_Some)
  show "sess_RefreshTokenHash s \<noteq> h"
    if "PostgresSession_GetByRefreshTokenHash pool h w = (Inl ErrSessionNotFound, w')"
      "sess_row w i = Some s"
    using that unfolding PostgresSession_GetByRefreshTokenHash_def
    by (elim query_row_cases)
      (auto simp: sql_simps sessions_select_rows [OF d] sess_view_def row_of_None
        split: option.splits dest!: row_of_Some)
  show "PostgresSession_Rotate pool i jti h t1 t2 w = (Inr s, w') \<Longrightarrow> sess_row w' i = Some s"
    unfolding PostgresSession_Rotate_def by (rule query_row_result [OF sessions_rotate_updates ok])
  show "PostgresSession_IsAccessRevoked pool jti w = (Inr b, w') \<Longrightarrow>
      b \<longleftrightarrow> (\<exists>i s. sess_row w i = Some s \<and> sess_AccessJTI s = jti \<and> sess_RevokedAt s \<noteq> None)"
    using sess_member_view [OF d]
    by (auto simp: PostgresSession_IsAccessRevoked_def query_row_Inr sql_simps sessions_revoked_def
        list_ex_iff sess_view_def dest: row_of_Some)
  show "PostgresSession_RevokeByAccessJTI pool jti t w = (Inr x, w') \<Longrightarrow>
      world_ok w' \<and> sess_row w' = (\<lambda>i. map_option (revoked jti t) (sess_row w i))"
    using sessions_revoke_ok [OF d]
    by (auto simp: PostgresSession_RevokeByAccessJTI_def prog_simps world_ok_def
        dest!: run_stmt_answer)
  show "PostgresSession_RevokeByAccessJTI pool jti t w = (Inl e, w') \<Longrightarrow>
      world_ok w' \<and> (sess_row w' = sess_row w \<or>
        sess_row w' = (\<lambda>i. map_option (revoked jti t) (sess_row w i)))"
    using sessions_revoke_ok [OF d] d by (auto simp: world_ok_def dest!: Revoke_run run_stmt_db)
  have ins: "world_ok w' \<and> sess_row w (sess_ID s) = None \<and>
      sess_row w' = (sess_row w)(sess_ID s \<mapsto> stored_session s)"
    if "sessions_insert s t' (db w) = Inr (rows, db w')" for t' rows
    using sessions_insert_ok [OF d that]
    by (auto simp: world_ok_def sess_view_def fun_eq_iff row_of_None row_of_insert)
  show "PostgresSession_Store pool s w = (Inr x, w') \<Longrightarrow> world_ok w' \<and>
      sess_row w (sess_ID s) = None \<and> sess_row w' = (sess_row w)(sess_ID s \<mapsto> stored_session s)"
    by (auto simp: PostgresSession_Store_def prog_simps dest!: run_stmt_answer ins)
  show "PostgresSession_Store pool s w = (Inl e, w') \<Longrightarrow> world_ok w' \<and>
      (sess_row w' = sess_row w \<or> sess_row w (sess_ID s) = None \<and>
        sess_row w' = (sess_row w)(sess_ID s \<mapsto> stored_session s))"
    using d by (auto simp: world_ok_def dest!: Store_Inl_run run_stmt_db ins)
qed

end
