(* ===== verification/Authn.thy ===== *)
theory Authn
  imports Externals
begin

text \<open>
  \<open>internal/http/authn/jwt.go\<close>: issuing and parsing access tokens. Signing, parsing, UUIDs and
  the clock are parameters; the rounding of the times to seconds is done by the JWT library.
\<close>

record JWTService =
  js_secret :: string
  js_accessTTL :: duration

definition NewJWTService :: "string \<Rightarrow> duration \<Rightarrow> JWTService" where
  "NewJWTService secret accessTTL = \<lparr>js_secret = secret, js_accessTTL = accessTTL\<rparr>"

text \<open>The claims of a token issued at \<open>now\<close> with identifier \<open>jti\<close>.\<close>

definition access_claims :: "JWTService \<Rightarrow> string \<Rightarrow> string \<Rightarrow> string \<Rightarrow> time \<Rightarrow> Claims" where
  "access_claims s jti userID username now =
    \<lparr>claim_ID = jti, claim_Subject = userID, claim_IssuedAt = now,
     claim_ExpiresAt = now + js_accessTTL s, claim_Username = username\<rparr>"

text \<open>The result is the token and its identifier.\<close>

definition IssueAccessToken ::
    "'w crypto \<Rightarrow> ('w \<Rightarrow> time \<times> 'w) \<Rightarrow> JWTService \<Rightarrow> string \<Rightarrow> string \<Rightarrow> ('w, string \<times> string) prog"
  where
  "IssueAccessToken cr now s userID username =
    bindP (readP now) (\<lambda>t.
      bindP (readP (uuid_NewString cr)) (\<lambda>jti.
        bindP (jwt_Sign cr (access_claims s jti userID username t) (js_secret s)) (\<lambda>token.
          retP (token, jti))))"

definition IssueToken ::
    "'w crypto \<Rightarrow> ('w \<Rightarrow> time \<times> 'w) \<Rightarrow> JWTService \<Rightarrow> string \<Rightarrow> string \<Rightarrow> ('w, string \<times> string) prog"
  where
  "IssueToken cr now s userID username = IssueAccessToken cr now s userID username"

definition ErrTokenInvalidClaims :: err where
  "ErrTokenInvalidClaims = Driver (OtherError ''token has invalid claims'')"

definition ParseToken :: "'w crypto \<Rightarrow> JWTService \<Rightarrow> string \<Rightarrow> ('w, Claims) prog" where
  "ParseToken cr s token =
    bindP (jwt_Parse cr token (js_secret s)) (\<lambda>(claims, valid).
      if \<not> valid then failP ErrTokenInvalidClaims else retP claims)"

text \<open>
  \<open>int(s.accessTTL.Seconds())\<close>, towards zero. \<open>Seconds\<close> is a \<open>float64\<close>, which holds every
  duration below \<open>2 ^ 23\<close> seconds closely enough for this to be exact.
\<close>

definition AccessTTLSeconds :: "JWTService \<Rightarrow> int" where
  "AccessTTLSeconds s =
    (if 0 \<le> js_accessTTL s then js_accessTTL s div Second else - (- js_accessTTL s div Second))"

context world_order begin

lemma stays_IssueToken [frame_intros]:
  assumes "stays R (readP now)" "stays R (readP (uuid_NewString cr))"
    "\<And>c k. stays R (jwt_Sign cr c k)"
  shows "stays R (IssueToken cr now s userID username)"
  unfolding IssueToken_def IssueAccessToken_def by (intro frame_intros assms)

end

lemma IssueToken_Inr:
  "IssueToken cr now s userID username w = (Inr (token, jti), w') \<longleftrightarrow>
    (\<exists>t w1 w2. now w = (t, w1) \<and> uuid_NewString cr w1 = (jti, w2) \<and>
      jwt_Sign cr (access_claims s jti userID username t) (js_secret s) w2 = (Inr token, w'))"
  by (auto simp: IssueToken_def IssueAccessToken_def prog_simps)

end
