(* ===== verification/Auth_Service.thy ===== *)
theory Auth_Service
  imports Auth_Repository Authn
begin

text \<open>
  \<open>internal/service/auth.go\<close>: registration, login, and the rotation of refresh tokens. The
  database holds the SHA-256 hash of a refresh token, the client the token.
\<close>

record 'w AuthService =
  as_users :: "'w UserRepository"
  as_sessions :: "'w SessionRepository"
  as_jwt :: JWTService
  as_accessTTL :: duration
  as_refreshTTL :: duration
  as_clock :: "'w \<Rightarrow> time \<times> 'w"
  as_crypto :: "'w crypto"

definition NewAuthService ::
    "'w UserRepository \<Rightarrow> 'w SessionRepository \<Rightarrow> JWTService \<Rightarrow> duration \<Rightarrow> duration \<Rightarrow>
      ('w \<Rightarrow> time \<times> 'w) \<Rightarrow> 'w crypto \<Rightarrow> 'w AuthService" where
  "NewAuthService users sessions jwt accessTTL refreshTTL now cr =
    \<lparr>as_users = users, as_sessions = sessions, as_jwt = jwt, as_accessTTL = accessTTL,
     as_refreshTTL = refreshTTL, as_clock = now, as_crypto = cr\<rparr>"

record RegisterInput =
  ri_Name :: string
  ri_Email :: string
  ri_Password :: string

record LoginInput =
  li_Email :: string
  li_Password :: string

record LoginResult =
  lr_UserID :: string
  lr_Name :: string
  lr_AccessToken :: string
  lr_RefreshToken :: string
  lr_AccessTTL :: duration
  lr_RefreshTTL :: duration

record RefreshResult =
  rr_UserID :: string
  rr_AccessToken :: string
  rr_RefreshToken :: string
  rr_AccessTTL :: duration
  rr_RefreshTTL :: duration
  rr_Version :: int

definition hashToken :: "'w crypto \<Rightarrow> string \<Rightarrow> string" where
  "hashToken cr raw = EncodeToString (sha256_Sum cr raw)"

text \<open>The token, 32 bytes of entropy in hexadecimal, and its hash.\<close>

definition generateRefreshToken :: "'w crypto \<Rightarrow> ('w, string \<times> string) prog" where
  "generateRefreshToken cr =
    bindP (rand_Read cr 32) (\<lambda>b.
      let raw = EncodeToString b in retP (raw, EncodeToString (sha256_Sum cr raw)))"

definition Register :: "'w AuthService \<Rightarrow> RegisterInput \<Rightarrow> ('w, string) prog" where
  "Register s inp =
    bindP (bcrypt_Generate (as_crypto s) (ri_Password inp)) (\<lambda>passwordHash.
      bindP (readP (uuid_NewString (as_crypto s))) (\<lambda>i.
        bindP (ur_CreateUser (as_users s)
            \<lparr>user_ID = i, user_Name = ri_Name inp, user_Email = ri_Email inp,
             user_EmailConfirmed = False, user_PasswordHash = passwordHash, user_CreatedAt = 0\<rparr>)
          (\<lambda>created. retP (user_ID created))))"

definition Login :: "'w AuthService \<Rightarrow> LoginInput \<Rightarrow> ('w, LoginResult) prog" where
  "Login s inp =
    bindP (mapErrP (\<lambda>e. if Is e ErrNotFound then ErrInvalidCredentials else e)
        (ur_GetByEmail (as_users s) (li_Email inp))) (\<lambda>user.
      if \<not> bcrypt_Compare (as_crypto s) (user_PasswordHash user) (li_Password inp)
      then failP ErrInvalidCredentials
      else bindP (IssueToken (as_crypto s) (as_clock s) (as_jwt s) (user_ID user) (user_Name user))
        (\<lambda>(accessToken, accessJTI).
          bindP (generateRefreshToken (as_crypto s)) (\<lambda>(refreshRaw, refreshHash).
            bindP (readP (as_clock s)) (\<lambda>now.
              bindP (readP (uuid_NewString (as_crypto s))) (\<lambda>i.
                bindP (sr_Store (as_sessions s)
                    \<lparr>sess_ID = i, sess_UserID = user_ID user, sess_RefreshTokenHash = refreshHash,
                     sess_AccessJTI = accessJTI, sess_Version = 1, sess_IssuedAt = now,
                     sess_ExpiresAt = now + as_refreshTTL s, sess_RevokedAt = None\<rparr>) (\<lambda>_.
                  retP \<lparr>lr_UserID = user_ID user, lr_Name = user_Name user,
                    lr_AccessToken = accessToken, lr_RefreshToken = refreshRaw,
                    lr_AccessTTL = as_accessTTL s, lr_RefreshTTL = as_refreshTTL s\<rparr>))))))"

text \<open>\<open>session.RevokedAt != nil || session.ExpiresAt.Before(s.clock())\<close>, the clock only if needed.\<close>

definition session_over :: "'w AuthService \<Rightarrow> Session \<Rightarrow> ('w, bool) prog" where
  "session_over s session =
    (if sess_RevokedAt session \<noteq> None then retP True
     else bindP (readP (as_clock s)) (\<lambda>t. retP (sess_ExpiresAt session < t)))"

definition Refresh :: "'w AuthService \<Rightarrow> string \<Rightarrow> ('w, RefreshResult) prog" where
  "Refresh s refreshToken =
    bindP (sr_GetByRefreshTokenHash (as_sessions s) (hashToken (as_crypto s) refreshToken))
      (\<lambda>session. bindP (session_over s session) (\<lambda>over.
        if over then failP ErrSessionNotFound
        else bindP (IssueToken (as_crypto s) (as_clock s) (as_jwt s) (sess_UserID session) [])
          (\<lambda>(accessToken, accessJTI).
            bindP (generateRefreshToken (as_crypto s)) (\<lambda>(newRefreshRaw, newRefreshHash).
              bindP (readP (as_clock s)) (\<lambda>now.
                bindP (sr_Rotate (as_sessions s) (sess_ID session) accessJTI newRefreshHash now
                    (now + as_refreshTTL s)) (\<lambda>updated.
                  retP \<lparr>rr_UserID = sess_UserID updated, rr_AccessToken = accessToken,
                    rr_RefreshToken = newRefreshRaw, rr_AccessTTL = as_accessTTL s,
                    rr_RefreshTTL = as_refreshTTL s, rr_Version = sess_Version updated\<rparr>))))))"

lemma generateRefreshToken_Inr:
  "generateRefreshToken cr w = (Inr (raw, h), w') \<longleftrightarrow>
    (\<exists>b. rand_Read cr 32 w = (Inr b, w') \<and> raw = EncodeToString b \<and> h = hashToken cr raw)"
  by (auto simp: generateRefreshToken_def hashToken_def prog_simps Let_def)

subsection \<open>The service over any repositories that keep the contracts\<close>

locale auth_service =
  users: user_repository "as_users s" invar user_at +
  sessions: session_repository "as_sessions s" invar sess_at
  for s :: "'w AuthService" and invar :: "'w \<Rightarrow> bool"
    and user_at :: "'w \<Rightarrow> string \<Rightarrow> User option" and sess_at :: "'w \<Rightarrow> string \<Rightarrow> Session option" +
  assumes clock_quiet: "stays (quiet invar sess_at) (readP (as_clock s))"
    and sign_quiet: "stays (quiet invar sess_at) (jwt_Sign (as_crypto s) c k)"
    and uuid_quiet: "stays (quiet invar sess_at) (readP (uuid_NewString (as_crypto s)))"
    and rand_quiet: "stays (quiet invar sess_at) (rand_Read (as_crypto s) n)"
    and get_user_quiet: "stays (quiet invar sess_at) (ur_GetByEmail (as_users s) e)"
    and bcrypt_quiet_user: "stays (quiet invar user_at) (bcrypt_Generate (as_crypto s) pw)"
    and uuid_quiet_user: "stays (quiet invar user_at) (readP (uuid_NewString (as_crypto s)))"
begin

lemma quiet_IssueToken:
  "stays (quiet invar sess_at) (IssueToken (as_crypto s) (as_clock s) (as_jwt s) u n)"
  by (intro calm.stays_IssueToken clock_quiet uuid_quiet sign_quiet)

lemma quiet_generateRefreshToken:
  "stays (quiet invar sess_at) (generateRefreshToken (as_crypto s))"
  unfolding generateRefreshToken_def Let_def by (intro frame_intros rand_quiet)

lemma quiet_session_over: "stays (quiet invar sess_at) (session_over s session)"
  unfolding session_over_def by (intro frame_intros clock_quiet)

text \<open>A login stores one session: a fresh one of the user, good for the token it returns.\<close>

lemma Login_Inr:
  assumes inv: "invar w" and run: "Login s inp w = (Inr l, w')"
  shows "invar w' \<and> (\<exists>user i jti now. user_at w (li_Email inp) = Some user \<and>
    bcrypt_Compare (as_crypto s) (user_PasswordHash user) (li_Password inp) \<and>
    lr_UserID l = user_ID user \<and> lr_Name l = user_Name user \<and> sess_at w i = None \<and>
    sess_at w' = (sess_at w)(i \<mapsto> stored_session
      \<lparr>sess_ID = i, sess_UserID = user_ID user,
       sess_RefreshTokenHash = hashToken (as_crypto s) (lr_RefreshToken l),
       sess_AccessJTI = jti, sess_Version = 1, sess_IssuedAt = now,
       sess_ExpiresAt = now + as_refreshTTL s, sess_RevokedAt = None\<rparr>))"
proof -
  from run obtain user w1 tok jti w2 raw h w3 now w4 i w5 where
      g: "ur_GetByEmail (as_users s) (li_Email inp) w = (Inr user, w1)"
    and pw: "bcrypt_Compare (as_crypto s) (user_PasswordHash user) (li_Password inp)"
    and t: "IssueToken (as_crypto s) (as_clock s) (as_jwt s) (user_ID user) (user_Name user) w1
        = (Inr (tok, jti), w2)"
    and r: "generateRefreshToken (as_crypto s) w2 = (Inr (raw, h), w3)"
    and c': "as_clock s w3 = (now, w4)"
    and u': "uuid_NewString (as_crypto s) w4 = (i, w5)"
    and st: "sr_Store (as_sessions s)
        \<lparr>sess_ID = i, sess_UserID = user_ID user, sess_RefreshTokenHash = h,
         sess_AccessJTI = jti, sess_Version = 1, sess_IssuedAt = now,
         sess_ExpiresAt = now + as_refreshTTL s, sess_RevokedAt = None\<rparr> w5 = (Inr (), w')"
    and l: "l = \<lparr>lr_UserID = user_ID user, lr_Name = user_Name user, lr_AccessToken = tok,
        lr_RefreshToken = raw, lr_AccessTTL = as_accessTTL s, lr_RefreshTTL = as_refreshTTL s\<rparr>"
    by (auto simp: Login_def prog_simps split: if_splits prod.splits)
  from c' u' have c: "readP (as_clock s) w3 = (Inr now, w4)"
    and u: "readP (uuid_NewString (as_crypto s)) w4 = (Inr i, w5)" by (simp_all add: prog_simps)
  from r have h: "h = hashToken (as_crypto s) raw" by (auto simp: generateRefreshToken_Inr)
  from quietD [OF get_user_quiet inv g] have w1: "invar w1" "sess_at w1 = sess_at w" by auto
  from quietD [OF quiet_IssueToken w1(1) t] w1 have w2: "invar w2" "sess_at w2 = sess_at w" by auto
  from quietD [OF quiet_generateRefreshToken w2(1) r] w2
  have w3: "invar w3" "sess_at w3 = sess_at w" by auto
  from quietD [OF clock_quiet w3(1) c] w3 have w4: "invar w4" "sess_at w4 = sess_at w" by auto
  from quietD [OF uuid_quiet w4(1) u] w4 have w5: "invar w5" "sess_at w5 = sess_at w" by auto
  from sessions.Store_Inr [OF w5(1) st] w5 h l users.GetByEmail_Inr [OF inv g] pw show ?thesis
    by - (rule conjI, simp, rule exI [of _ user], rule exI [of _ i], rule exI [of _ jti],
      rule exI [of _ now], simp)
qed

text \<open>A login that fails leaves every session as it was, or has stored the new one unanswered.\<close>

lemma Login_wrong_password:
  assumes inv: "invar w" and run: "Login s inp w = (q, w')"
    and no: "\<And>user. user_at w (li_Email inp) = Some user \<Longrightarrow>
      \<not> bcrypt_Compare (as_crypto s) (user_PasswordHash user) (li_Password inp)"
  shows "sess_at w' = sess_at w \<and> (\<exists>e. q = Inl e) \<and>
    (\<forall>r w1. ur_GetByEmail (as_users s) (li_Email inp) w = (r, w1) \<longrightarrow>
      (case r of Inl e \<Rightarrow> Is e ErrNotFound | Inr _ \<Rightarrow> True) \<longrightarrow> q = Inl ErrInvalidCredentials)"
proof -
  obtain r w1 where g: "ur_GetByEmail (as_users s) (li_Email inp) w = (r, w1)"
    by (cases "ur_GetByEmail (as_users s) (li_Email inp) w")
  from quietD [OF get_user_quiet inv g] have w1: "sess_at w1 = sess_at w" by auto
  show ?thesis
  proof (cases r)
    case (Inl e)
    with g run have "q = Inl (if Is e ErrNotFound then ErrInvalidCredentials else e)" "w' = w1"
      by (auto simp: Login_def bindP_def mapErrP_def)
    with w1 g Inl show ?thesis by auto
  next
    case (Inr user)
    with users.GetByEmail_Inr [OF inv] g no
    have "\<not> bcrypt_Compare (as_crypto s) (user_PasswordHash user) (li_Password inp)" by blast
    with g run Inr have "q = Inl ErrInvalidCredentials" "w' = w1"
      by (auto simp: Login_def bindP_def mapErrP_def failP_def)
    with w1 show ?thesis by simp
  qed
qed

text \<open>
  A refresh: the token's session was there, not revoked and not expired; its row is rotated to
  the hash of the new token, with the next version.
\<close>

lemma Refresh_Inr:
  assumes inv: "invar w" and run: "Refresh s tok w = (Inr r, w')"
  shows "invar w' \<and> (\<exists>session t jti now.
    sess_at w (sess_ID session) = Some session \<and>
    sess_RefreshTokenHash session = hashToken (as_crypto s) tok \<and>
    sess_RevokedAt session = None \<and> \<not> sess_ExpiresAt session < t \<and>
    (\<exists>u u'. as_clock s u = (t, u')) \<and>
    rr_UserID r = sess_UserID session \<and> rr_Version r = sess_Version session + 1 \<and>
    sess_at w' = (sess_at w)(sess_ID session \<mapsto>
      rotated jti (hashToken (as_crypto s) (rr_RefreshToken r)) now (now + as_refreshTTL s) session))"
proof -
  from run obtain session w1 w2 atok jti w3 raw h w4 now w5 upd where
      g: "sr_GetByRefreshTokenHash (as_sessions s) (hashToken (as_crypto s) tok) w = (Inr session, w1)"
    and o': "session_over s session w1 = (Inr False, w2)"
    and t: "IssueToken (as_crypto s) (as_clock s) (as_jwt s) (sess_UserID session) [] w2
        = (Inr (atok, jti), w3)"
    and gen: "generateRefreshToken (as_crypto s) w3 = (Inr (raw, h), w4)"
    and c': "as_clock s w4 = (now, w5)"
    and rot: "sr_Rotate (as_sessions s) (sess_ID session) jti h now (now + as_refreshTTL s) w5
        = (Inr upd, w')"
    and r: "r = \<lparr>rr_UserID = sess_UserID upd, rr_AccessToken = atok, rr_RefreshToken = raw,
        rr_AccessTTL = as_accessTTL s, rr_RefreshTTL = as_refreshTTL s,
        rr_Version = sess_Version upd\<rparr>"
    by (auto simp: Refresh_def prog_simps split: if_splits prod.splits)
  from c' have c: "readP (as_clock s) w4 = (Inr now, w5)" by (simp add: prog_simps)
  from gen have h: "h = hashToken (as_crypto s) raw" by (auto simp: generateRefreshToken_Inr)
  from o' obtain t where fresh: "sess_RevokedAt session = None" "\<not> sess_ExpiresAt session < t"
      "\<exists>u u'. as_clock s u = (t, u')"
    by (auto simp: session_over_def prog_simps split: if_splits)
  note found = sessions.GetByHash_Inr [OF inv g]
  from quietD [OF sessions.GetByHash_quiet inv g] have w1: "invar w1" "sess_at w1 = sess_at w" by auto
  from quietD [OF quiet_session_over w1(1) o'] w1 have w2: "invar w2" "sess_at w2 = sess_at w" by auto
  from quietD [OF quiet_IssueToken w2(1) t] w2 have w3: "invar w3" "sess_at w3 = sess_at w" by auto
  from quietD [OF quiet_generateRefreshToken w3(1) gen] w3
  have w4: "invar w4" "sess_at w4 = sess_at w" by auto
  from quietD [OF clock_quiet w4(1) c] w4 have w5: "invar w5" "sess_at w5 = sess_at w" by auto
  let ?new = "rotated jti h now (now + as_refreshTTL s) session"
  from update_law_Inr [OF sessions.Rotate_law w5(1) rot] w5 found
  have w': "invar w'" "sess_at w' = (sess_at w)(sess_ID session \<mapsto> ?new)"
    by (auto simp: updated_def)
  with sessions.Rotate_row [OF w5(1) rot] have "upd = ?new" by simp
  then have "rr_UserID r = sess_UserID session" "rr_Version r = sess_Version session + 1"
      "rr_RefreshToken r = raw"
    by (simp_all add: r rotated_def)
  with found fresh w' h show ?thesis
    by - (rule conjI, simp, rule exI [of _ session], rule exI [of _ t], rule exI [of _ jti],
      rule exI [of _ now], simp)
qed

text \<open>The token that was refreshed is worthless afterwards, unless the two tokens hash alike.\<close>

lemma Refresh_invalidates:
  assumes inv: "invar w" and run: "Refresh s tok w = (Inr r, w')"
    and diff: "hashToken (as_crypto s) (rr_RefreshToken r) \<noteq> hashToken (as_crypto s) tok"
    and later: "invar v" "sess_at v = sess_at w'"
  shows "\<exists>e. fst (Refresh s tok v) = Inl e"
proof (rule ccontr)
  assume "\<not> ?thesis"
  then obtain r2 v' where run2: "Refresh s tok v = (Inr r2, v')"
    by (cases "Refresh s tok v") (metis fst_conv sum.exhaust)
  from Refresh_Inr [OF inv run] obtain session jti now where
      s1: "sess_at w (sess_ID session) = Some session"
      "sess_RefreshTokenHash session = hashToken (as_crypto s) tok"
    and w': "sess_at w' = (sess_at w)(sess_ID session \<mapsto>
      rotated jti (hashToken (as_crypto s) (rr_RefreshToken r)) now (now + as_refreshTTL s) session)"
    by blast
  from Refresh_Inr [OF later(1) run2] later(2) obtain s2 where
      s2: "sess_at w' (sess_ID s2) = Some s2" "sess_RefreshTokenHash s2 = hashToken (as_crypto s) tok"
    by auto
  show False
  proof (cases "sess_ID s2 = sess_ID session")
    case True
    with s2 w' diff show False by (auto simp: rotated_def)
  next
    case False
    with s2 w' have "sess_at w (sess_ID s2) = Some s2" by simp
    from sessions.hash_unique [OF inv this s1(1)] s1(2) s2(2) False show False by simp
  qed
qed

text \<open>Registering an address that is taken changes no user.\<close>

lemma Register_Inr:
  assumes inv: "invar w" and run: "Register s inp w = (Inr i, w')"
  shows "invar w' \<and> user_at w (ri_Email inp) = None \<and> (\<exists>u. user_ID u = i \<and>
    user_Name u = ri_Name inp \<and> user_Email u = ri_Email inp \<and> \<not> user_EmailConfirmed u \<and>
    (\<exists>w1. bcrypt_Generate (as_crypto s) (ri_Password inp) w = (Inr (user_PasswordHash u), w1)) \<and>
    user_at w' = (user_at w)(ri_Email inp \<mapsto> u))"
proof -
  from run obtain hash w1 j w2 u where
      b: "bcrypt_Generate (as_crypto s) (ri_Password inp) w = (Inr hash, w1)"
    and j': "uuid_NewString (as_crypto s) w1 = (j, w2)"
    and c: "ur_CreateUser (as_users s) \<lparr>user_ID = j, user_Name = ri_Name inp,
        user_Email = ri_Email inp, user_EmailConfirmed = False, user_PasswordHash = hash,
        user_CreatedAt = 0\<rparr> w2 = (Inr u, w')"
    and i: "i = user_ID u"
    by (auto simp: Register_def prog_simps)
  from j' have j: "readP (uuid_NewString (as_crypto s)) w1 = (Inr j, w2)" by (simp add: prog_simps)
  from quietD [OF bcrypt_quiet_user inv b] have w1: "invar w1" "user_at w1 = user_at w" by auto
  from quietD [OF uuid_quiet_user w1(1) j] w1 have w2: "invar w2" "user_at w2 = user_at w" by auto
  from users.CreateUser_Inr [OF w2(1) c] w2 b i show ?thesis by auto
qed

end

subsection \<open>The service on the program's own repositories\<close>

definition pg_auth_service ::
    "('e, 'q) platform \<Rightarrow> string \<Rightarrow> duration \<Rightarrow> duration \<Rightarrow> 'e world AuthService" where
  "pg_auth_service pf secret accessTTL refreshTTL =
    NewAuthService (NewPostgresUserRepository (pf_pool pf)) (NewPostgresSessionRepository (pf_pool pf))
      (NewJWTService secret accessTTL) accessTTL refreshTTL (ext_read (pf_clock pf))
      (ext_crypto (pf_crypto pf))"

lemma pg_auth_service_simps [simp]:
  "as_users (pg_auth_service pf secret a r) = NewPostgresUserRepository (pf_pool pf)"
  "as_sessions (pg_auth_service pf secret a r) = NewPostgresSessionRepository (pf_pool pf)"
  "as_jwt (pg_auth_service pf secret a r) = NewJWTService secret a"
  "as_accessTTL (pg_auth_service pf secret a r) = a"
  "as_refreshTTL (pg_auth_service pf secret a r) = r"
  "as_clock (pg_auth_service pf secret a r) = ext_read (pf_clock pf)"
  "as_crypto (pg_auth_service pf secret a r) = ext_crypto (pf_crypto pf)"
  by (simp_all add: pg_auth_service_def NewAuthService_def)

interpretation pg_auth: auth_service "pg_auth_service pf secret a r" world_ok user_row sess_row
  for pf :: "('e, 'q) platform" and secret :: string and a r :: duration
proof (intro auth_service.intro auth_service_axioms.intro)
  let ?s = "pg_auth_service pf secret a r"
  show "user_repository (as_users ?s) world_ok user_row"
    unfolding pg_auth_service_simps by (rule pg_users.user_repository_axioms)
  show "session_repository (as_sessions ?s) world_ok sess_row"
    unfolding pg_auth_service_simps by (rule pg_sessions.session_repository_axioms)
  fix c k e pw n
  show "stays (quiet world_ok sess_row) (readP (as_clock ?s))"
    "stays (quiet world_ok sess_row) (readP (uuid_NewString (as_crypto ?s)))"
    "stays (quiet world_ok user_row) (readP (uuid_NewString (as_crypto ?s)))"
    by (simp_all add: ext_read_quiet)
  show "stays (quiet world_ok sess_row) (jwt_Sign (as_crypto ?s) c k)"
    "stays (quiet world_ok sess_row) (rand_Read (as_crypto ?s) n)"
    "stays (quiet world_ok user_row) (bcrypt_Generate (as_crypto ?s) pw)"
    by (simp_all add: ext_quiet)
  show "stays (quiet world_ok sess_row) (ur_GetByEmail (as_users ?s) e)"
    by (auto simp: PostgresUser_GetByEmail_def intro!: stays_query_row auth_quiet auth_reads)
qed

end
