(* ===== verification/Storage_Service.thy ===== *)
theory Storage_Service
  imports Externals
begin

text \<open>
  \<open>internal/service/storage.go\<close>: the object store. The SDK's calls are parameters; what is
  modelled is how the service uses them: the keys it deletes and lists, in batches and over the
  pages of a listing, the prefixes it takes from keys, and the URLs it builds.
\<close>

record 'w StorageService =
  st_s3 :: "'w s3_client"
  st_fs :: "'w filesystem"
  st_bucket :: string
  st_region :: string
  st_endpoint :: string
  st_pathStyle :: bool
  st_publicURL :: string

definition ErrNoBucket :: err where
  "ErrNoBucket = New ''s3 bucket is not configured''"

text \<open>\<open>expires\<close>, or 15 minutes when it is not positive.\<close>

definition presign_ttl :: "duration \<Rightarrow> duration" where
  "presign_ttl expires = (if expires \<le> 0 then 15 * Minute else expires)"

definition PresignPutObject ::
    "'w StorageService \<Rightarrow> string \<Rightarrow> string \<Rightarrow> duration \<Rightarrow> ('w, string) prog" where
  "PresignPutObject s key contentType expires =
    (if st_bucket s = [] then failP ErrNoBucket
     else s3_PresignPutObject (st_s3 s)
       \<lparr>put_Bucket = st_bucket s, put_Key = key,
        put_ContentType = (if contentType = [] then None else Some contentType), put_ACL = None\<rparr>
       (presign_ttl expires))"

definition PresignGetObject :: "'w StorageService \<Rightarrow> string \<Rightarrow> duration \<Rightarrow> ('w, string) prog" where
  "PresignGetObject s key expires =
    (if st_bucket s = [] then failP ErrNoBucket
     else s3_PresignGetObject (st_s3 s) (st_bucket s) key (presign_ttl expires))"

record ObjectHead =
  oh_ContentLength :: int
  oh_ContentType :: string
  oh_ETag :: string
  oh_LastModified :: time

text \<open>\<open>errors.As(err, &apiErr)\<close> and the code of the error found.\<close>

fun api_error_code :: "err \<Rightarrow> string option" where
  "api_error_code (Driver (ApiError code msg)) = Some code"
| "api_error_code (Wrap msg e) = api_error_code e"
| "api_error_code _ = None"

definition zero_time :: time where
  "zero_time = - 62135596800 * Second"

definition object_head :: "HeadObjectOutput \<Rightarrow> ObjectHead" where
  "object_head out =
    \<lparr>oh_ContentLength = (case hoo_ContentLength out of None \<Rightarrow> 0 | Some n \<Rightarrow> n),
     oh_ContentType = (case hoo_ContentType out of None \<Rightarrow> [] | Some c \<Rightarrow> c),
     oh_ETag = (case hoo_ETag out of None \<Rightarrow> [] | Some t \<Rightarrow> t),
     oh_LastModified = (case hoo_LastModified out of None \<Rightarrow> zero_time | Some t \<Rightarrow> t)\<rparr>"

definition HeadObject :: "'w StorageService \<Rightarrow> string \<Rightarrow> ('w, ObjectHead) prog" where
  "HeadObject s key =
    (if st_bucket s = [] then failP ErrNoBucket
     else bindP (mapErrP (\<lambda>e. if api_error_code e \<in> {Some ''NotFound'', Some ''NoSuchKey''}
                              then ErrNotFound else e)
         (s3_HeadObject (st_s3 s) (st_bucket s) key))
       (\<lambda>out. retP (object_head out)))"

definition DownloadObjectToFile :: "'w StorageService \<Rightarrow> string \<Rightarrow> string \<Rightarrow> ('w, unit) prog" where
  "DownloadObjectToFile s key filePath =
    (if st_bucket s = [] then failP ErrNoBucket
     else bindP (s3_GetObject (st_s3 s) (st_bucket s) key) (\<lambda>body.
       deferP (s3_CloseBody (st_s3 s) body)
         (bindP (fs_Create (st_fs s) filePath) (\<lambda>f.
            deferP (fs_Close (st_fs s) f) (fs_Copy (st_fs s) f body)))))"

definition GetObjectBytes :: "'w StorageService \<Rightarrow> string \<Rightarrow> ('w, string) prog" where
  "GetObjectBytes s key =
    (if st_bucket s = [] then failP ErrNoBucket
     else bindP (s3_GetObject (st_s3 s) (st_bucket s) key) (\<lambda>body.
       deferP (s3_CloseBody (st_s3 s) body) (s3_ReadAll (st_s3 s) body)))"

definition uploadFile ::
    "'w StorageService \<Rightarrow> string \<Rightarrow> string \<Rightarrow> string \<Rightarrow> string \<Rightarrow> ('w, unit) prog" where
  "uploadFile s key contentType filePath acl =
    (if st_bucket s = [] then failP ErrNoBucket
     else bindP (fs_Open (st_fs s) filePath) (\<lambda>f.
       deferP (fs_Close (st_fs s) f)
         (s3_PutObject (st_s3 s)
            \<lparr>put_Bucket = st_bucket s, put_Key = key,
             put_ContentType = (if contentType = [] then None else Some contentType),
             put_ACL = (if TrimSpace acl = [] then None else Some (TrimSpace acl))\<rparr> f)))"

definition UploadFile :: "'w StorageService \<Rightarrow> string \<Rightarrow> string \<Rightarrow> string \<Rightarrow> ('w, unit) prog" where
  "UploadFile s key contentType filePath = uploadFile s key contentType filePath []"

definition UploadFilePublic :: "'w StorageService \<Rightarrow> string \<Rightarrow> string \<Rightarrow> string \<Rightarrow> ('w, unit) prog" where
  "UploadFilePublic s key contentType filePath = uploadFile s key contentType filePath ''public-read''"

definition DeleteObject :: "'w StorageService \<Rightarrow> string \<Rightarrow> ('w, unit) prog" where
  "DeleteObject s key =
    (if st_bucket s = [] then failP ErrNoBucket
     else s3_DeleteObject (st_s3 s) (st_bucket s) key)"

subsection \<open>Listings\<close>

text \<open>\<open>pager.HasMorePages()\<close> after a page: there is a continuation token and it is not empty.\<close>

definition more_pages :: "string option \<Rightarrow> bool" where
  "more_pages next \<longleftrightarrow> next \<noteq> None \<and> next \<noteq> Some []"

text \<open>
  \<open>for pager.HasMorePages() { page := pager.NextPage(); .. }\<close>: \<open>step\<close> is the body of the loop, which
  threads a value. The loop ends when the listing does, so the model counts the pages: after
  \<open>fuel\<close> of them it gives up with \<open>OutOfFuel\<close>.
\<close>

fun each_page ::
    "nat \<Rightarrow> 'w StorageService \<Rightarrow> string \<Rightarrow> (string option list \<Rightarrow> 'a \<Rightarrow> ('w, 'a) prog) \<Rightarrow> string option \<Rightarrow> 'a \<Rightarrow>
      ('w, 'a) prog" where
  "each_page 0 s pre step tok acc = failP OutOfFuel"
| "each_page (Suc fuel) s pre step tok acc =
    bindP (s3_ListPage (st_s3 s) (st_bucket s) pre tok) (\<lambda>(contents, next).
      bindP (step contents acc) (\<lambda>acc'.
        if more_pages next then each_page fuel s pre step next acc' else retP acc'))"

text \<open>\<open>strings.TrimSpace(aws.ToString(obj.Key))\<close>.\<close>

definition object_key :: "string option \<Rightarrow> string" where
  "object_key k = TrimSpace (case k of None \<Rightarrow> [] | Some key \<Rightarrow> key)"

subsection \<open>Deleting by prefix\<close>

text \<open>\<open>flush\<close>: delete what has been collected; the result is the emptied list.\<close>

definition flush :: "'w StorageService \<Rightarrow> string list \<Rightarrow> ('w, string list) prog" where
  "flush s toDelete =
    (if toDelete = [] then retP []
     else bindP (s3_DeleteObjects (st_s3 s) (st_bucket s) toDelete) (\<lambda>_. retP []))"

fun collect_page :: "'w StorageService \<Rightarrow> string option list \<Rightarrow> string list \<Rightarrow> ('w, string list) prog" where
  "collect_page s [] toDelete = retP toDelete"
| "collect_page s (obj # contents) toDelete =
    (let key = object_key obj
     in if key = [] then collect_page s contents toDelete
        else if length (toDelete @ [key]) = 1000
        then bindP (flush s (toDelete @ [key])) (collect_page s contents)
        else collect_page s contents (toDelete @ [key]))"

definition DeleteObjectsByPrefix :: "nat \<Rightarrow> 'w StorageService \<Rightarrow> string \<Rightarrow> ('w, unit) prog" where
  "DeleteObjectsByPrefix fuel s pre =
    (if st_bucket s = [] then failP ErrNoBucket
     else let trimmedPrefix = TrimSpace pre
       in if trimmedPrefix = [] then failP (New ''prefix is required'')
          else bindP (each_page fuel s trimmedPrefix (collect_page s) None []) (\<lambda>toDelete.
            bindP (flush s toDelete) (\<lambda>_. retP ())))"

subsection \<open>The media of the store\<close>

text \<open>
  \<open>extractMediaPrefix\<close>: the media identifier of a key \<open>users/<owner>/media/<id>/..\<close> and the prefix
  of that media's objects.
\<close>

definition extractMediaPrefix :: "string \<Rightarrow> (string \<times> string) option" where
  "extractMediaPrefix key =
    (case Split (Trim (TrimSpace key) (CHR ''/'')) (CHR ''/'') of
       p0 # p1 # p2 # p3 # _ \<Rightarrow>
         if p0 \<noteq> ''users'' \<or> p2 \<noteq> ''media'' then None
         else if TrimSpace p1 = [] \<or> TrimSpace p3 = [] then None
         else Some (p3, path_Join [p0, p1, p2, p3] @ ''/'')
     | _ \<Rightarrow> None)"

text \<open>
  The map of \<open>ListMediaPrefixes\<close> as an association list without duplicate keys; a media keeps the
  prefix of the first key seen.
\<close>

definition add_prefix :: "string option \<Rightarrow> (string \<times> string) list \<Rightarrow> (string \<times> string) list" where
  "add_prefix obj found =
    (case extractMediaPrefix (object_key obj) of
       None \<Rightarrow> found
     | Some (mediaID, mediaPrefix) \<Rightarrow>
         if map_of found mediaID \<noteq> None then found else found @ [(mediaID, mediaPrefix)])"

definition ListMediaPrefixes :: "nat \<Rightarrow> 'w StorageService \<Rightarrow> ('w, (string \<times> string) list) prog" where
  "ListMediaPrefixes fuel s =
    (if st_bucket s = [] then failP ErrNoBucket
     else each_page fuel s ''users/'' (\<lambda>contents acc. retP (fold add_prefix contents acc)) None [])"

definition generateObjectURL :: "'w StorageService \<Rightarrow> string \<Rightarrow> string" where
  "generateObjectURL s key =
    (if st_publicURL s \<noteq> [] then TrimRight (st_publicURL s) (CHR ''/'') @ ''/'' @ TrimLeft key (CHR ''/'')
     else if st_endpoint s \<noteq> []
     then TrimRight (st_endpoint s) (CHR ''/'') @ ''/'' @ TrimLeft (st_bucket s) (CHR ''/'') @ ''/'' @
       TrimLeft key (CHR ''/'')
     else ''https://'' @ st_bucket s @ ''.s3.'' @ st_region s @ ''.amazonaws.com/'' @
       TrimLeft key (CHR ''/''))"

subsection \<open>A well-behaved object store\<close>

text \<open>
  What S3 documents about listings and deletions, with \<open>objs w b\<close> the keys of the bucket \<open>b\<close> and
  \<open>past t\<close> the keys that come before the continuation token \<open>t\<close>. A page lists objects of the
  prefix, and every object of the prefix that is not before the page's token is in the page or
  comes later. A batch delete takes 1 to 1000 keys, and deletes no other object. When it succeeds, a key is
  gone or among those the answer names; \<open>refused b\<close> are the keys of \<open>b\<close> it may name, those that a policy or
  a lock protects. When it fails, some may be gone.
\<close>

definition lists_objects ::
  "'w s3_client \<Rightarrow> ('w \<Rightarrow> string \<Rightarrow> string set) \<Rightarrow> (string \<Rightarrow> string \<Rightarrow> bool) \<Rightarrow> bool" where
  "lists_objects c objs past \<longleftrightarrow>
    (\<forall>b p tok w r w'. s3_ListPage c b p tok w = (r, w') \<longrightarrow> objs w' = objs w \<and>
      (\<forall>contents next. r = Inr (contents, next) \<longrightarrow>
        (\<forall>obj \<in> set contents. \<exists>k \<in> objs w b. obj = Some k \<and> HasPrefix k p) \<and>
        (\<forall>k \<in> objs w b. HasPrefix k p \<longrightarrow> (\<forall>t. tok = Some t \<longrightarrow> \<not> past t k) \<longrightarrow>
          Some k \<in> set contents \<or> more_pages next \<and> (\<forall>t. next = Some t \<longrightarrow> \<not> past t k))))"

definition deletes_objects ::
  "'w s3_client \<Rightarrow> ('w \<Rightarrow> string \<Rightarrow> string set) \<Rightarrow> (string \<Rightarrow> string \<Rightarrow> bool) \<Rightarrow> bool" where
  "deletes_objects c objs refused \<longleftrightarrow>
    (\<forall>b ks w r w'. s3_DeleteObjects c b ks w = (r, w') \<longrightarrow> ks \<noteq> [] \<longrightarrow> length ks \<le> 1000 \<longrightarrow>
      (\<forall>b'. b' \<noteq> b \<longrightarrow> objs w' b' = objs w b') \<and>
      objs w b - set ks \<subseteq> objs w' b \<and> objs w' b \<subseteq> objs w b \<and>
      (\<forall>errs. r = Inr errs \<longrightarrow> objs w' b \<inter> set ks \<subseteq> set errs \<and> (\<forall>k \<in> set errs. refused b k)))"

text \<open>
  What a deletion of the keys \<open>gone\<close> leaves of the bucket \<open>b\<close>: the other objects, and of these only what
  may be refused.
\<close>

definition purged ::
  "(string \<Rightarrow> string \<Rightarrow> bool) \<Rightarrow> string \<Rightarrow> string set \<Rightarrow> ('w \<Rightarrow> string \<Rightarrow> string set) \<Rightarrow> 'w \<Rightarrow> 'w \<Rightarrow> bool" where
  "purged refused b gone objs w w' \<longleftrightarrow> (\<forall>b'. b' \<noteq> b \<longrightarrow> objs w' b' = objs w b') \<and>
    objs w b - gone \<subseteq> objs w' b \<and> objs w' b \<subseteq> objs w b \<and> (\<forall>k \<in> objs w' b \<inter> gone. refused b k)"

lemma purged_none: "objs w' = objs w \<Longrightarrow> purged refused b {} objs w w'"
  by (simp add: purged_def)

lemma purged_trans:
  "purged refused b A objs u v \<Longrightarrow> purged refused b B objs v w \<Longrightarrow> purged refused b (A \<union> B) objs u w"
  unfolding purged_def by (auto; blast)

lemma flush_Inr:
  assumes del: "deletes_objects (st_s3 s) objs refused" and len: "length toDelete \<le> 1000"
    and run: "flush s toDelete w = (Inr acc, w')"
  shows "acc = [] \<and> purged refused (st_bucket s) (set toDelete) objs w w'"
proof (cases "toDelete = []")
  case True
  with run show ?thesis by (simp add: flush_def prog_simps purged_none)
next
  case False
  with run obtain errs where "acc = []" "s3_DeleteObjects (st_s3 s) (st_bucket s) toDelete w = (Inr errs, w')"
    by (auto simp: flush_def prog_simps)
  with del False len show ?thesis unfolding deletes_objects_def purged_def by blast
qed

lemma collect_key:
  "x \<noteq> [] \<Longrightarrow> set (xs @ [x]) \<union> (S - {[]}) = set xs \<union> (insert x S - {[]})"
  by auto

lemma collect_page_Inr:
  assumes "deletes_objects (st_s3 s) objs refused" "length toDelete < 1000"
    and "collect_page s contents toDelete w = (Inr acc, w')"
  shows "length acc < 1000 \<and> (\<exists>gone. purged refused (st_bucket s) gone objs w w' \<and>
    gone \<union> set acc = set toDelete \<union> (object_key ` set contents - {[]}))"
  using assms(2,3)
proof (induction contents arbitrary: toDelete w)
  case Nil
  then show ?case by (auto simp: prog_simps purged_none intro!: exI [of _ "{}"])
next
  case (Cons obj contents)
  let ?key = "object_key obj"
  consider (blank) "?key = []" | (full) "?key \<noteq> []" "length (toDelete @ [?key]) = 1000"
    | (more) "?key \<noteq> []" "length (toDelete @ [?key]) < 1000"
    using Cons.prems(1) by fastforce
  then show ?case
  proof cases
    case blank
    with Cons.prems have "collect_page s contents toDelete w = (Inr acc, w')" by simp
    from Cons.IH [OF Cons.prems(1) this] blank show ?thesis by simp
  next
    case full
    with Cons.prems obtain e w1 where f: "flush s (toDelete @ [?key]) w = (Inr e, w1)"
      and c: "collect_page s contents e w1 = (Inr acc, w')"
      by (auto simp: Let_def prog_simps)
    from flush_Inr [OF assms(1) _ f] full
    have w1: "e = []" "purged refused (st_bucket s) (set (toDelete @ [?key])) objs w w1" by auto
    from Cons.IH [of e w1] w1(1) c obtain gone where
        IH: "length acc < 1000" "purged refused (st_bucket s) gone objs w1 w'"
        "gone \<union> set acc = object_key ` set contents - {[]}" by auto
    let ?gone = "set (toDelete @ [?key]) \<union> gone"
    have "?gone \<union> set acc = set toDelete \<union> (object_key ` set (obj # contents) - {[]})"
      using collect_key [OF full(1), of toDelete "object_key ` set contents"] IH(3)
      unfolding list.set image_insert Un_assoc by simp
    with IH(1) purged_trans [OF w1(2) IH(2)] show ?thesis by blast
  next
    case more
    with Cons.prems have "collect_page s contents (toDelete @ [?key]) w = (Inr acc, w')"
      by (simp add: Let_def)
    from Cons.IH [OF more(2) this] show ?thesis
      unfolding collect_key [OF more(1)] list.set image_insert .
  qed
qed

text \<open>A prefix whose first and last byte trimming leaves alone.\<close>

definition solid :: "string \<Rightarrow> bool" where
  "solid p \<longleftrightarrow> p \<noteq> [] \<and> graphic (hd p) \<and> graphic (last p)"

lemma solid_TrimSpace: "solid p \<Longrightarrow> TrimSpace p = p"
  by (simp add: solid_def trimmedI TrimSpace_id)

lemma solid_object_key: "solid p \<Longrightarrow> HasPrefix k p \<Longrightarrow> HasPrefix (object_key (Some k)) p"
  using prefix_TrimSpace [of p k] by (simp add: solid_def HasPrefix_def object_key_def)

text \<open>The objects of a prefix that a listing from the token \<open>tok\<close> still has to show.\<close>

definition ahead :: "(string \<Rightarrow> string \<Rightarrow> bool) \<Rightarrow> string option \<Rightarrow> string \<Rightarrow> bool" where
  "ahead past tok k \<longleftrightarrow> (\<forall>t. tok = Some t \<longrightarrow> \<not> past t k)"

lemma ahead_None [simp]: "ahead past None k"
  by (simp add: ahead_def)

lemma lists_objects_page:
  assumes "lists_objects c objs past" "s3_ListPage c b p tok w = (Inr (contents, next), w')" and "solid p"
  shows "objs w' = objs w" "object_key ` set contents - {[]} = object_key ` set contents"
    "object_key ` set contents \<subseteq> {k. HasPrefix k p}"
    "k \<in> objs w b \<Longrightarrow> HasPrefix k p \<Longrightarrow> TrimSpace k = k \<Longrightarrow> ahead past tok k \<Longrightarrow>
      k \<in> object_key ` set contents \<or> more_pages next \<and> ahead past next k"
proof -
  from assms(1,2) have law: "objs w' = objs w"
      "\<forall>obj \<in> set contents. \<exists>k \<in> objs w b. obj = Some k \<and> HasPrefix k p"
      "\<forall>k \<in> objs w b. HasPrefix k p \<longrightarrow> (\<forall>t. tok = Some t \<longrightarrow> \<not> past t k) \<longrightarrow>
        Some k \<in> set contents \<or> more_pages next \<and> (\<forall>t. next = Some t \<longrightarrow> \<not> past t k)"
    unfolding lists_objects_def by blast+
  from law(1) show "objs w' = objs w" .
  show keys: "object_key ` set contents \<subseteq> {k. HasPrefix k p}"
    using law(2) solid_object_key [OF assms(3)] by auto
  have "p \<noteq> []" using assms(3) by (simp add: solid_def)
  with keys show "object_key ` set contents - {[]} = object_key ` set contents" by (auto simp: HasPrefix_def)
  assume k: "k \<in> objs w b" "HasPrefix k p" "TrimSpace k = k" "ahead past tok k"
  with law(3) have "Some k \<in> set contents \<or> more_pages next \<and> ahead past next k" by (simp add: ahead_def)
  moreover from k(3) have "object_key (Some k) = k" by (simp add: object_key_def)
  ultimately show "k \<in> object_key ` set contents \<or> more_pages next \<and> ahead past next k" by (metis imageI)
qed

lemma each_page_collects:
  assumes lists: "lists_objects (st_s3 s) objs past" and del: "deletes_objects (st_s3 s) objs refused"
    and p: "solid p" and "length toDelete < 1000"
    and "each_page fuel s p (collect_page s) tok toDelete w = (Inr acc, w')"
  shows "length acc < 1000 \<and> (\<exists>gone. purged refused (st_bucket s) gone objs w w' \<and>
      gone \<union> set acc \<subseteq> set toDelete \<union> {k. HasPrefix k p} \<and> set toDelete \<subseteq> gone \<union> set acc \<and>
      {k \<in> objs w (st_bucket s). HasPrefix k p \<and> TrimSpace k = k \<and> ahead past tok k} \<subseteq> gone \<union> set acc)"
  using assms(4-)
proof (induction fuel arbitrary: w tok toDelete)
  case 0
  then show ?case by (simp add: prog_simps)
next
  case (Suc fuel)
  let ?b = "st_bucket s"
  from Suc.prems(2) obtain contents "next" w1 acc1 w2 where
      page: "s3_ListPage (st_s3 s) ?b p tok w = (Inr (contents, next), w1)"
    and step: "collect_page s contents toDelete w1 = (Inr acc1, w2)"
    and rest: "(if more_pages next then each_page fuel s p (collect_page s) next acc1 else retP acc1) w2
      = (Inr acc, w')"
    by (auto simp: prog_simps)
  note page_law = lists_objects_page [OF lists page p]
  let ?K = "object_key ` set contents"
  from collect_page_Inr [OF del Suc.prems(1) step] obtain gone1 where
      c: "length acc1 < 1000" "purged refused ?b gone1 objs w1 w2" "gone1 \<union> set acc1 = set toDelete \<union> ?K"
    unfolding page_law(2) by blast
  from c(2) have c2: "purged refused ?b gone1 objs w w2" by (simp add: purged_def page_law(1))
  show ?case
  proof (cases "more_pages next")
    case False
    with rest have "acc = acc1" "w' = w2" by (simp_all add: prog_simps)
    moreover have "{k \<in> objs w ?b. HasPrefix k p \<and> TrimSpace k = k \<and> ahead past tok k} \<subseteq> ?K"
      using page_law(4) False by blast
    ultimately show ?thesis using c(1,3) c2 page_law(3) by (intro conjI exI [of _ gone1]) blast+
  next
    case True
    with rest have run: "each_page fuel s p (collect_page s) next acc1 w2 = (Inr acc, w')" by simp
    from Suc.IH [OF c(1) run] obtain gone2 where
        IH: "length acc < 1000" "purged refused ?b gone2 objs w2 w'"
        "gone2 \<union> set acc \<subseteq> set acc1 \<union> {k. HasPrefix k p}" "set acc1 \<subseteq> gone2 \<union> set acc"
        "{k \<in> objs w2 ?b. HasPrefix k p \<and> TrimSpace k = k \<and> ahead past next k} \<subseteq> gone2 \<union> set acc"
      by blast
    have "k \<in> (gone1 \<union> gone2) \<union> set acc"
      if k: "k \<in> objs w ?b" "HasPrefix k p" "TrimSpace k = k" "ahead past tok k" for k
    proof (cases "k \<in> ?K \<or> k \<in> gone1")
      case True
      with c(3) IH(4) show ?thesis by blast
    next
      case False
      with page_law(4) [OF k] have "ahead past next k" by blast
      moreover from False c2 k(1) have "k \<in> objs w2 ?b" by (auto simp: purged_def)
      ultimately show ?thesis using k IH(5) by blast
    qed
    moreover have "(gone1 \<union> gone2) \<union> set acc \<subseteq> set toDelete \<union> {k. HasPrefix k p}"
      using IH(3) c(3) page_law(3) by blast
    moreover have "set toDelete \<subseteq> (gone1 \<union> gone2) \<union> set acc" using IH(4) c(3) by blast
    ultimately show ?thesis using IH(1) purged_trans [OF c2 IH(2)] by blast
  qed
qed

text \<open>
  A deletion by prefix that succeeds has removed the objects of the prefix, but for those the store refuses
  to delete, since the code does not look at the keys that were refused, and those whose keys have white
  space at their ends, since the code trims the keys.
\<close>

lemma DeleteObjectsByPrefix_Inr:
  assumes lists: "lists_objects (st_s3 s) objs past" and del: "deletes_objects (st_s3 s) objs refused"
    and p: "solid p" and run: "DeleteObjectsByPrefix fuel s p w = (Inr (), w')"
  shows "(\<forall>b. b \<noteq> st_bucket s \<longrightarrow> objs w' b = objs w b) \<and> objs w' (st_bucket s) \<subseteq> objs w (st_bucket s) \<and>
    (\<forall>k \<in> objs w (st_bucket s). \<not> HasPrefix k p \<longrightarrow> k \<in> objs w' (st_bucket s)) \<and>
    (\<forall>k \<in> objs w' (st_bucket s). HasPrefix k p \<longrightarrow> refused (st_bucket s) k \<or> TrimSpace k \<noteq> k)"
proof -
  let ?b = "st_bucket s"
  from run obtain acc w1 e where
      pages: "each_page fuel s p (collect_page s) None [] w = (Inr acc, w1)"
    and last: "flush s acc w1 = (Inr e, w')"
    unfolding DeleteObjectsByPrefix_def solid_TrimSpace [OF p] Let_def
    by (auto simp: prog_simps split: if_splits)
  from each_page_collects [OF lists del p _ pages] obtain gone where
      g: "length acc < 1000" "purged refused ?b gone objs w w1" "gone \<union> set acc \<subseteq> {k. HasPrefix k p}"
      "{k \<in> objs w ?b. HasPrefix k p \<and> TrimSpace k = k} \<subseteq> gone \<union> set acc"
    by auto
  from flush_Inr [OF del _ last] g(1) have "purged refused ?b (set acc) objs w1 w'" by simp
  from purged_trans [OF g(2) this] have all: "purged refused ?b (gone \<union> set acc) objs w w'" .
  from all g(3) have "\<forall>k \<in> objs w ?b. \<not> HasPrefix k p \<longrightarrow> k \<in> objs w' ?b" unfolding purged_def by blast
  moreover from all g(4) have "\<forall>k \<in> objs w' ?b. HasPrefix k p \<longrightarrow> refused ?b k \<or> TrimSpace k \<noteq> k"
    unfolding purged_def by blast
  ultimately show ?thesis using all by (simp add: purged_def)
qed

subsection \<open>What a deletion by prefix can touch\<close>

text \<open>What a listing shows has the prefix that was asked for.\<close>

definition lists_prefix :: "'w s3_client \<Rightarrow> bool" where
  "lists_prefix c \<longleftrightarrow> (\<forall>b p tok w contents next w'.
    s3_ListPage c b p tok w = (Inr (contents, next), w') \<longrightarrow>
      (\<forall>obj \<in> set contents. \<forall>k. obj = Some k \<longrightarrow> HasPrefix k p))"

lemma lists_objects_prefix: "lists_objects c objs past \<Longrightarrow> lists_prefix c"
  unfolding lists_objects_def lists_prefix_def by fastforce

lemma collect_page_keys:
  "collect_page s contents toDelete w = (Inr acc, w') \<Longrightarrow>
    set acc \<subseteq> set toDelete \<union> (object_key ` set contents - {[]}) \<and>
    (length toDelete < 1000 \<longrightarrow> length acc < 1000)"
proof (induction contents arbitrary: toDelete w)
  case (Cons obj contents)
  then show ?case
    by (fastforce simp: Let_def prog_simps flush_def split: if_splits)
qed (simp add: prog_simps)

context world_order begin

text \<open>
  A deletion by a solid prefix stays in every relation that its page requests and its batch
  deletes of keys of that prefix stay in.
\<close>

lemma stays_flush:
  assumes "toDelete \<noteq> [] \<Longrightarrow> stays R (s3_DeleteObjects (st_s3 s) (st_bucket s) toDelete)"
  shows "stays R (flush s toDelete)"
  unfolding flush_def by (intro frame_intros assms)

lemma stays_collect_page:
  assumes del: "\<And>ks. ks \<noteq> [] \<Longrightarrow> length ks \<le> 1000 \<Longrightarrow> set ks \<subseteq> A \<Longrightarrow>
      stays R (s3_DeleteObjects (st_s3 s) (st_bucket s) ks)"
    and "set toDelete \<subseteq> A" "object_key ` set contents - {[]} \<subseteq> A" "length toDelete < 1000"
  shows "stays R (collect_page s contents toDelete)"
  using assms(2-)
proof (induction contents arbitrary: toDelete)
  case Nil
  then show ?case by (simp add: stays_ret)
next
  case (Cons obj contents)
  let ?key = "object_key obj"
  show ?case
  proof (cases "?key = []")
    case True
    with Cons show ?thesis by simp
  next
    case key: False
    with Cons.prems have sub: "set (toDelete @ [?key]) \<subseteq> A" "object_key ` set contents - {[]} \<subseteq> A"
      by auto
    show ?thesis
    proof (cases "length (toDelete @ [?key]) = 1000")
      case True
      have "stays R (flush s (toDelete @ [?key]))"
        by (rule stays_flush, rule del) (use sub True in auto)
      moreover have "stays R (collect_page s contents e)" if "flush s xs w = (Inr e, w')" for e xs w w'
      proof -
        from that have "e = []" by (auto simp: flush_def prog_simps split: if_splits)
        with Cons.IH [of "[]"] sub show ?thesis by simp
      qed
      ultimately show ?thesis using key True
        by (simp add: Let_def) (rule stays_bind_result, blast+)
    next
      case False
      with Cons.prems have "length (toDelete @ [?key]) < 1000" by simp
      from Cons.IH [OF sub this] False key show ?thesis by (simp add: Let_def)
    qed
  qed
qed

lemma stays_each_page:
  assumes page: "\<And>tok. stays R (s3_ListPage (st_s3 s) (st_bucket s) p tok)"
    and step: "\<And>contents acc tok next w w'. P acc \<Longrightarrow>
      s3_ListPage (st_s3 s) (st_bucket s) p tok w = (Inr (contents, next), w') \<Longrightarrow>
      stays R (step contents acc)"
    and keep: "\<And>contents acc tok next w w' acc' v v'. P acc \<Longrightarrow>
      s3_ListPage (st_s3 s) (st_bucket s) p tok w = (Inr (contents, next), w') \<Longrightarrow>
      step contents acc v = (Inr acc', v') \<Longrightarrow> P acc'"
    and "P acc"
  shows "stays R (each_page fuel s p step tok acc)"
  using assms(4)
proof (induction fuel arbitrary: tok acc)
  case 0
  then show ?case by (simp add: stays_fail)
next
  case (Suc fuel)
  show ?case
    unfolding each_page.simps
  proof (rule stays_bind_result [OF page])
    fix x w w'
    assume x: "s3_ListPage (st_s3 s) (st_bucket s) p tok w = (Inr x, w')"
    obtain contents "next" where [simp]: "x = (contents, next)" by (cases x)
    from x have listed: "s3_ListPage (st_s3 s) (st_bucket s) p tok w = (Inr (contents, next), w')" by simp
    have "stays R (bindP (step contents acc) (\<lambda>acc'.
        if more_pages next then each_page fuel s p step next acc' else retP acc'))"
    proof (rule stays_bind_result [OF step [OF Suc.prems listed]])
      fix acc' v v'
      assume "step contents acc v = (Inr acc', v')"
      with keep [OF Suc.prems listed] have "P acc'" by blast
      with Suc.IH show "stays R (if more_pages next then each_page fuel s p step next acc' else retP acc')"
        by (simp add: stays_ret)
    qed
    then show "stays R (case x of (contents, next) \<Rightarrow> bindP (step contents acc) (\<lambda>acc'.
        if more_pages next then each_page fuel s p step next acc' else retP acc'))"
      by simp
  qed
qed

text \<open>Without a condition on the prefix: every page request and every batch stays in \<open>R\<close>.\<close>

lemma stays_DeleteObjectsByPrefix_all:
  assumes page: "\<And>q tok. stays R (s3_ListPage (st_s3 s) (st_bucket s) q tok)"
    and del: "\<And>ks. stays R (s3_DeleteObjects (st_s3 s) (st_bucket s) ks)"
  shows "stays R (DeleteObjectsByPrefix fuel s p)"
proof -
  have step: "stays R (collect_page s contents acc)" for contents acc
    by (induction contents arbitrary: acc)
      (auto simp: Let_def intro!: stays_ret stays_bind stays_flush del)
  have "stays R (each_page fuel s q (collect_page s) tok acc)" for q tok acc
    by (rule stays_each_page [where P = "\<lambda>_. True", OF page]) (simp_all add: step)
  then show ?thesis
    unfolding DeleteObjectsByPrefix_def Let_def by (intro frame_intros stays_flush del)
qed

lemma stays_ListMediaPrefixes:
  assumes page: "\<And>q tok. stays R (s3_ListPage (st_s3 s) (st_bucket s) q tok)"
  shows "stays R (ListMediaPrefixes fuel s)"
  unfolding ListMediaPrefixes_def
  by (intro stays_if stays_fail stays_each_page [where P = "\<lambda>_. True", OF page] stays_ret TrueI)

lemma stays_DeleteObjectsByPrefix:
  assumes lists: "lists_prefix (st_s3 s)" and p: "solid p"
    and page: "\<And>tok. stays R (s3_ListPage (st_s3 s) (st_bucket s) p tok)"
    and del: "\<And>ks. ks \<noteq> [] \<Longrightarrow> length ks \<le> 1000 \<Longrightarrow> (\<forall>k \<in> set ks. HasPrefix k p) \<Longrightarrow>
      stays R (s3_DeleteObjects (st_s3 s) (st_bucket s) ks)"
  shows "stays R (DeleteObjectsByPrefix fuel s p)"
proof -
  let ?A = "{k. HasPrefix k p}"
  let ?P = "\<lambda>acc. set acc \<subseteq> ?A \<and> length acc < 1000"
  have del': "stays R (s3_DeleteObjects (st_s3 s) (st_bucket s) ks)"
    if "ks \<noteq> []" "length ks \<le> 1000" "set ks \<subseteq> ?A" for ks
    using del [OF that(1,2)] that(3) by blast
  have keys: "object_key ` set contents - {[]} \<subseteq> ?A"
    if "s3_ListPage (st_s3 s) (st_bucket s) p tok w = (Inr (contents, next), w')" for contents tok w "next" w'
  proof
    fix x assume "x \<in> object_key ` set contents - {[]}"
    then obtain obj where obj: "obj \<in> set contents" "x = object_key obj" "x \<noteq> []" by blast
    from obj(2,3) have "obj \<noteq> None" by (cases obj) (simp_all add: object_key_def)
    then obtain k where k: "obj = Some k" by blast
    with lists that obj(1) have "HasPrefix k p" unfolding lists_prefix_def by blast
    with solid_object_key [OF p] obj k show "x \<in> ?A" by simp
  qed
  have pages: "stays R (each_page fuel s p (collect_page s) None [])"
  proof (rule stays_each_page [where P = ?P, OF page])
    fix contents acc tok "next" w w'
    assume P: "?P acc"
      and l: "s3_ListPage (st_s3 s) (st_bucket s) p tok w = (Inr (contents, next), w')"
    show "stays R (collect_page s contents acc)"
      by (rule stays_collect_page [OF del' _ keys [OF l]]) (use P in auto)
    show "?P acc'" if "collect_page s contents acc v = (Inr acc', v')" for acc' v v'
      using collect_page_keys [OF that] P keys [OF l] by blast
  qed simp
  have collected: "?P acc" if "each_page n s p (collect_page s) tok xs w = (Inr acc, w')" "?P xs"
    for n tok xs w acc w'
    using that
  proof (induction n arbitrary: tok xs w)
    case (Suc n)
    then obtain contents "next" w1 acc1 w2 where
        l: "s3_ListPage (st_s3 s) (st_bucket s) p tok w = (Inr (contents, next), w1)"
      and c: "collect_page s contents xs w1 = (Inr acc1, w2)"
      and r: "(if more_pages next then each_page n s p (collect_page s) next acc1 else retP acc1) w2
        = (Inr acc, w')"
      by (auto simp: prog_simps)
    have "?P acc1" using collect_page_keys [OF c] Suc.prems(2) keys [OF l] by blast
    with Suc.IH r show ?case by (cases "more_pages next") (auto simp: prog_simps)
  qed (simp add: prog_simps)
  have last: "stays R (flush s acc)"
    if "each_page fuel s p (collect_page s) None [] w = (Inr acc, w')" for acc w w'
    by (rule stays_flush, rule del') (use collected [OF that] in auto)
  show ?thesis
    unfolding DeleteObjectsByPrefix_def Let_def solid_TrimSpace [OF p]
    by (intro stays_if stays_fail stays_bind_result [OF pages] stays_bind [OF last] stays_ret)
qed

end

subsection \<open>Listings end\<close>

text \<open>
  A listing goes on where it stopped: a page that is not the last one has an object the listing had not come
  to, and the next token is past every object of the page and past all that the token before was past.
\<close>

definition lists_onward :: "'w s3_client \<Rightarrow> (string \<Rightarrow> string \<Rightarrow> bool) \<Rightarrow> bool" where
  "lists_onward c past \<longleftrightarrow> (\<forall>b p tok w contents t w'.
    s3_ListPage c b p tok w = (Inr (contents, Some t), w') \<longrightarrow> more_pages (Some t) \<longrightarrow>
      (\<exists>k. Some k \<in> set contents \<and> ahead past tok k) \<and> (\<forall>k. Some k \<in> set contents \<longrightarrow> past t k) \<and>
      (\<forall>k. ahead past (Some t) k \<longrightarrow> ahead past tok k))"

text \<open>The calls of the SDK do not produce the model's own marker.\<close>

definition s3_no_marker :: "'w s3_client \<Rightarrow> bool" where
  "s3_no_marker c \<longleftrightarrow> (\<forall>b p tok ks w. fst (s3_ListPage c b p tok w) \<noteq> Inl OutOfFuel \<and>
    fst (s3_DeleteObjects c b ks w) \<noteq> Inl OutOfFuel)"

lemma fst_bindP:
  "fst (bindP m f w) = Inl e \<longleftrightarrow> fst (m w) = Inl e \<or> (\<exists>x w1. m w = (Inr x, w1) \<and> fst (f x w1) = Inl e)"
  by (cases "m w") (auto simp: bindP_def split: sum.splits)

text \<open>So there are at most as many further pages as there are objects to come.\<close>

lemma each_page_enough:
  assumes lists: "lists_objects (st_s3 s) objs past" and onward: "lists_onward (st_s3 s) past"
    and marker: "s3_no_marker (st_s3 s)"
    and step: "\<And>contents acc v. fst (step contents acc v) \<noteq> Inl OutOfFuel"
    and shrink: "\<And>contents acc v acc' v'. P acc \<Longrightarrow> step contents acc v = (Inr acc', v') \<Longrightarrow>
      P acc' \<and> objs v' (st_bucket s) \<subseteq> objs v (st_bucket s)"
    and "P acc" "finite (objs w (st_bucket s))"
    and "card {k \<in> objs w (st_bucket s). HasPrefix k p \<and> ahead past tok k} < fuel"
  shows "fst (each_page fuel s p step tok acc w) \<noteq> Inl OutOfFuel"
  using assms(6-)
proof (induction fuel arbitrary: tok acc w)
  case (Suc fuel)
  let ?b = "st_bucket s"
  show ?case
  proof
    assume out: "fst (each_page (Suc fuel) s p step tok acc w) = Inl OutOfFuel"
    have "fst (s3_ListPage (st_s3 s) ?b p tok w) \<noteq> Inl OutOfFuel"
      using marker by (simp add: s3_no_marker_def)
    with out obtain contents "next" w1 where
        l: "s3_ListPage (st_s3 s) ?b p tok w = (Inr (contents, next), w1)"
      and r: "fst (bindP (step contents acc) (\<lambda>acc'.
        if more_pages next then each_page fuel s p step next acc' else retP acc') w1) = Inl OutOfFuel"
      by (auto simp: fst_bindP)
    from r step obtain acc' w2 where st: "step contents acc w1 = (Inr acc', w2)" and more: "more_pages next"
      and again: "fst (each_page fuel s p step next acc' w2) = Inl OutOfFuel"
      by (auto simp: fst_bindP retP_def split: if_splits)
    from more obtain t where t: "next = Some t" by (auto simp: more_pages_def)
    from lists l have "objs w1 = objs w" "\<forall>obj \<in> set contents. \<exists>k \<in> objs w ?b. obj = Some k \<and> HasPrefix k p"
      unfolding lists_objects_def by blast+
    with shrink [OF Suc.prems(1) st] have law: "P acc'" "objs w2 ?b \<subseteq> objs w ?b"
      "\<And>k. Some k \<in> set contents \<Longrightarrow> k \<in> objs w ?b \<and> HasPrefix k p" by auto
    let ?to_come = "\<lambda>tok w. {k \<in> objs w ?b. HasPrefix k p \<and> ahead past tok k}"
    from onward l more t obtain k where k: "Some k \<in> set contents" "ahead past tok k" "past t k"
      and sub: "\<And>k. ahead past next k \<Longrightarrow> ahead past tok k" unfolding lists_onward_def by metis
    have "?to_come next w2 \<subset> ?to_come tok w"
      using law(2) law(3) [OF k(1)] k sub by (auto simp: ahead_def t)
    then have "card (?to_come next w2) < card (?to_come tok w)"
      using Suc.prems(2) by (intro psubset_card_mono) simp_all
    with Suc.prems(3) have "card (?to_come next w2) < fuel" by simp
    from Suc.IH [OF law(1) finite_subset [OF law(2) Suc.prems(2)] this] again show False by blast
  qed
qed simp

lemma each_page_more:
  assumes "fst (each_page fuel s p step tok acc w) \<noteq> Inl OutOfFuel"
  shows "each_page (fuel + n) s p step tok acc w = each_page fuel s p step tok acc w"
  using assms
proof (induction fuel arbitrary: tok acc w)
  case 0
  then show ?case by (simp add: failP_def)
next
  case (Suc fuel)
  obtain r w1 where l: "s3_ListPage (st_s3 s) (st_bucket s) p tok w = (r, w1)"
    by (cases "s3_ListPage (st_s3 s) (st_bucket s) p tok w")
  show ?case
  proof (cases r)
    case (Inl e)
    with l show ?thesis by (simp add: bindP_stop)
  next
    case (Inr page)
    obtain contents "next" where page: "page = (contents, next)" by (cases page)
    obtain q w2 where st: "step contents acc w1 = (q, w2)" by (cases "step contents acc w1")
    show ?thesis
    proof (cases q)
      case (Inl e)
      with l Inr page st show ?thesis by (simp add: bindP_step bindP_stop)
    next
      case (Inr acc')
      with l \<open>r = Inr page\<close> page st Suc show ?thesis
        by (cases "more_pages next") (simp_all add: bindP_step)
    qed
  qed
qed

lemma flush_marker: "s3_no_marker (st_s3 s) \<Longrightarrow> fst (flush s ks w) \<noteq> Inl OutOfFuel"
  by (auto simp: flush_def fst_bindP retP_def s3_no_marker_def)

lemma collect_page_marker:
  "s3_no_marker (st_s3 s) \<Longrightarrow> fst (collect_page s contents ks w) \<noteq> Inl OutOfFuel"
proof (induction contents arbitrary: ks w)
  case (Cons obj contents)
  then show ?case by (auto simp: Let_def fst_bindP dest: flush_marker)
qed (simp add: retP_def)

lemma DeleteObjectsByPrefix_enough:
  assumes "lists_objects (st_s3 s) objs past" "lists_onward (st_s3 s) past" "s3_no_marker (st_s3 s)"
    and del: "deletes_objects (st_s3 s) objs refused" and "finite (objs w (st_bucket s))"
    and "card {k \<in> objs w (st_bucket s). HasPrefix k (TrimSpace p)} < fuel"
  shows "fst (DeleteObjectsByPrefix fuel s p w) \<noteq> Inl OutOfFuel"
proof -
  have shrink: "length acc' < 1000 \<and> objs v' (st_bucket s) \<subseteq> objs v (st_bucket s)"
    if "length acc < 1000" "collect_page s contents acc v = (Inr acc', v')" for contents acc v acc' v'
    using collect_page_Inr [OF del that] by (auto simp: purged_def)
  have "fst (each_page fuel s (TrimSpace p) (collect_page s) None [] w) \<noteq> Inl OutOfFuel"
    by (rule each_page_enough [OF assms(1-3) collect_page_marker [OF assms(3)], where P = "\<lambda>acc. length acc < 1000"])
      (use assms(5,6) shrink in auto)
  with flush_marker [OF assms(3)] show ?thesis
    by (auto simp: DeleteObjectsByPrefix_def Let_def failP_def retP_def fst_bindP ErrNoBucket_def)
qed

lemma ListMediaPrefixes_enough:
  assumes "lists_objects (st_s3 s) objs past" "lists_onward (st_s3 s) past" "s3_no_marker (st_s3 s)"
    and "finite (objs w (st_bucket s))" "card {k \<in> objs w (st_bucket s). HasPrefix k ''users/''} < fuel"
  shows "fst (ListMediaPrefixes fuel s w) \<noteq> Inl OutOfFuel"
proof -
  have "fst (each_page fuel s ''users/'' (\<lambda>contents acc. retP (fold add_prefix contents acc)) None [] w) \<noteq> Inl OutOfFuel"
    by (rule each_page_enough [OF assms(1-3), where P = "\<lambda>_. True"])
      (use assms(4,5) in \<open>auto simp: retP_def\<close>)
  then show ?thesis by (auto simp: ListMediaPrefixes_def failP_def ErrNoBucket_def)
qed

subsection \<open>What a listing collects\<close>

lemma each_page_lists:
  assumes lists: "lists_objects (st_s3 s) objs past"
    and "each_page fuel s p (\<lambda>contents acc. retP (fold f contents acc)) tok acc w = (Inr acc', w')"
  shows "objs w' = objs w \<and> (\<exists>ks. acc' = fold f (map Some ks) acc \<and>
    set ks \<subseteq> {k \<in> objs w (st_bucket s). HasPrefix k p} \<and>
    {k \<in> objs w (st_bucket s). HasPrefix k p \<and> ahead past tok k} \<subseteq> set ks)"
  using assms(2)
proof (induction fuel arbitrary: tok acc w)
  case (Suc fuel)
  let ?b = "st_bucket s"
  from Suc.prems obtain contents "next" w1 where
      l: "s3_ListPage (st_s3 s) ?b p tok w = (Inr (contents, next), w1)"
    and r: "(if more_pages next
      then each_page fuel s p (\<lambda>contents acc. retP (fold f contents acc)) next (fold f contents acc)
      else retP (fold f contents acc)) w1 = (Inr acc', w')"
    by (auto simp: prog_simps)
  from lists l have law: "objs w1 = objs w"
      "\<forall>obj \<in> set contents. \<exists>k \<in> objs w ?b. obj = Some k \<and> HasPrefix k p"
      "\<forall>k \<in> objs w ?b. HasPrefix k p \<longrightarrow> ahead past tok k \<longrightarrow>
        Some k \<in> set contents \<or> more_pages next \<and> ahead past next k"
    unfolding lists_objects_def ahead_def by blast+
  define ks where "ks = map the contents"
  have ks: "contents = map Some ks" "set ks \<subseteq> {k \<in> objs w ?b. HasPrefix k p}"
    using law(2) by (auto simp: ks_def intro!: nth_equalityI) (metis nth_mem option.sel)+
  show ?case
  proof (cases "more_pages next")
    case False
    with r have "acc' = fold f (map Some ks) acc" "w' = w1" by (simp_all add: prog_simps ks)
    moreover have "{k \<in> objs w ?b. HasPrefix k p \<and> ahead past tok k} \<subseteq> set ks"
      using law(3) False ks(1) by auto
    ultimately show ?thesis using law(1) ks(2) by blast
  next
    case True
    with r have "each_page fuel s p (\<lambda>contents acc. retP (fold f contents acc)) next
        (fold f contents acc) w1 = (Inr acc', w')" by simp
    from Suc.IH [OF this] law(1) obtain js where IH: "objs w' = objs w"
        "acc' = fold f (map Some js) (fold f contents acc)"
        "set js \<subseteq> {k \<in> objs w ?b. HasPrefix k p}"
        "{k \<in> objs w ?b. HasPrefix k p \<and> ahead past next k} \<subseteq> set js" by auto
    have "acc' = fold f (map Some (ks @ js)) acc" by (simp add: IH(2) ks(1))
    moreover have "{k \<in> objs w ?b. HasPrefix k p \<and> ahead past tok k} \<subseteq> set (ks @ js)"
      using law(3) IH(4) ks(1) by auto
    ultimately show ?thesis using IH(1,3) ks(2) by (intro conjI exI [of _ "ks @ js"]) auto
  qed
qed (simp add: prog_simps)

text \<open>The map: one entry for each media of a listed key, with the prefix of one of its keys.\<close>

lemma fold_add_prefix:
  assumes "distinct (map fst acc)"
  shows "distinct (map fst (fold add_prefix objs acc)) \<and>
    set acc \<subseteq> set (fold add_prefix objs acc) \<and>
    set (fold add_prefix objs acc) \<subseteq>
      set acc \<union> {m. \<exists>obj \<in> set objs. extractMediaPrefix (object_key obj) = Some m} \<and>
    (\<forall>obj \<in> set objs. \<forall>m. extractMediaPrefix (object_key obj) = Some m \<longrightarrow>
      fst m \<in> fst ` set (fold add_prefix objs acc))"
  using assms
proof (induction objs arbitrary: acc)
  case (Cons obj objs)
  let ?acc = "add_prefix obj acc"
  have step: "distinct (map fst ?acc)" "set acc \<subseteq> set ?acc"
    "set ?acc \<subseteq> set acc \<union> {m. extractMediaPrefix (object_key obj) = Some m}"
    "\<forall>m. extractMediaPrefix (object_key obj) = Some m \<longrightarrow> fst m \<in> fst ` set ?acc"
    using Cons.prems
    by (auto simp: add_prefix_def map_of_eq_None_iff image_iff split: option.splits)
  note IH = Cons.IH [OF step(1)]
  have "fst m \<in> fst ` set (fold add_prefix objs ?acc)"
    if "extractMediaPrefix (object_key obj) = Some m" for m
    using step(4) that IH by blast
  with IH step show ?case by simp blast
qed simp

subsection \<open>The service on a platform\<close>

text \<open>
  What the service takes from the configuration, the options of an S3 client, and the SDK:
  \<open>LoadDefaultConfig\<close> is called with a region and, if there are any, static credentials; from what it
  loads and a list of functions on the options, \<open>NewFromConfig\<close> makes a client.
\<close>

record storage_config =
  sc_bucket :: string
  sc_region :: string
  sc_accessKeyID :: string
  sc_secretAccessKey :: string
  sc_endpoint :: string
  sc_pathStyle :: bool
  sc_publicURL :: string

record s3_options =
  so_Region :: string
  so_Endpoint :: "string option"
  so_UsePathStyle :: bool

type_synonym client_opts = "(s3_options \<Rightarrow> s3_options) list"

type_synonym 'e aws_load = "string \<Rightarrow> (string \<times> string) option \<Rightarrow> ('e, client_opts \<Rightarrow> 'e s3_client) prog"

definition static_credentials :: "storage_config \<Rightarrow> (string \<times> string) option" where
  "static_credentials c =
    (if sc_accessKeyID c \<noteq> [] \<and> sc_secretAccessKey c \<noteq> []
     then Some (sc_accessKeyID c, sc_secretAccessKey c) else None)"

definition clientOpts :: "storage_config \<Rightarrow> client_opts" where
  "clientOpts c =
    [\<lambda>opts. opts\<lparr>so_Region := sc_region c\<rparr>]
    @ (if sc_endpoint c \<noteq> [] then [\<lambda>opts. opts\<lparr>so_Endpoint := Some (sc_endpoint c)\<rparr>] else [])
    @ (if sc_pathStyle c then [\<lambda>opts. opts\<lparr>so_UsePathStyle := True\<rparr>] else [])"

text \<open>\<open>NewStorageService\<close>: the client, and the service around it.\<close>

definition NewS3Client :: "'e aws_load \<Rightarrow> storage_config \<Rightarrow> ('e world, 'e s3_client) prog" where
  "NewS3Client load c =
    bindP (ext (load (sc_region c) (static_credentials c))) (\<lambda>newFromConfig. retP (newFromConfig (clientOpts c)))"

definition NewStorageService :: "'w s3_client \<Rightarrow> 'w filesystem \<Rightarrow> storage_config \<Rightarrow> 'w StorageService" where
  "NewStorageService client fs c =
    \<lparr>st_s3 = client, st_fs = fs, st_bucket = sc_bucket c, st_region = sc_region c,
     st_endpoint = sc_endpoint c, st_pathStyle = sc_pathStyle c, st_publicURL = sc_publicURL c\<rparr>"

text \<open>
  The options the client is given, whatever it starts from: the region is always set, the endpoint and
  the style of the paths only when they are configured.
\<close>

lemma clientOpts_apply:
  "fold (\<lambda>f. f) (clientOpts c) opts =
    opts\<lparr>so_Region := sc_region c,
      so_Endpoint := (if sc_endpoint c \<noteq> [] then Some (sc_endpoint c) else so_Endpoint opts),
      so_UsePathStyle := (sc_pathStyle c \<or> so_UsePathStyle opts)\<rparr>"
  by (simp add: clientOpts_def)

definition pg_storage :: "('e, 'q) platform \<Rightarrow> storage_config \<Rightarrow> 'e world StorageService" where
  "pg_storage pf c = NewStorageService (ext_s3 (pf_s3 pf)) (ext_fs (pf_fs pf)) c"

lemma pg_storage_simps [simp]:
  "st_s3 (pg_storage pf c) = ext_s3 (pf_s3 pf)" "st_fs (pg_storage pf c) = ext_fs (pf_fs pf)"
  "st_bucket (pg_storage pf c) = sc_bucket c" "st_region (pg_storage pf c) = sc_region c"
  "st_endpoint (pg_storage pf c) = sc_endpoint c" "st_publicURL (pg_storage pf c) = sc_publicURL c"
  by (simp_all add: pg_storage_def NewStorageService_def)

text \<open>The laws of an object store in the environment hold of it in the world.\<close>

lemma lists_objects_world:
  assumes "lists_objects c objs past"
  shows "lists_objects (ext_s3 c) (\<lambda>w. objs (env w)) past"
  unfolding lists_objects_def
proof (intro allI impI)
  fix b p tok w r w'
  assume "s3_ListPage (ext_s3 c) b p tok w = (r, w')"
  then have "s3_ListPage c b p tok (env w) = (r, env w')"
    by (auto simp: ext_def split: prod.splits)
  with assms [unfolded lists_objects_def, rule_format, of b p tok "env w" r "env w'"]
  show "objs (env w') = objs (env w) \<and>
      (\<forall>contents next. r = Inr (contents, next) \<longrightarrow>
        (\<forall>obj \<in> set contents. \<exists>k \<in> objs (env w) b. obj = Some k \<and> HasPrefix k p) \<and>
        (\<forall>k \<in> objs (env w) b. HasPrefix k p \<longrightarrow> (\<forall>t. tok = Some t \<longrightarrow> \<not> past t k) \<longrightarrow>
          Some k \<in> set contents \<or> more_pages next \<and> (\<forall>t. next = Some t \<longrightarrow> \<not> past t k)))"
    by blast
qed

lemma deletes_objects_world:
  assumes "deletes_objects c objs refused"
  shows "deletes_objects (ext_s3 c) (\<lambda>w. objs (env w)) refused"
  unfolding deletes_objects_def
proof (intro allI impI)
  fix b ks w r w'
  assume "s3_DeleteObjects (ext_s3 c) b ks w = (r, w')" and ks: "ks \<noteq> []" "length ks \<le> 1000"
  then have "s3_DeleteObjects c b ks (env w) = (r, env w')"
    by (auto simp: ext_def split: prod.splits)
  with assms [unfolded deletes_objects_def, rule_format, of b ks "env w" r "env w'"] ks
  show "(\<forall>b'. b' \<noteq> b \<longrightarrow> objs (env w') b' = objs (env w) b') \<and>
      objs (env w) b - set ks \<subseteq> objs (env w') b \<and> objs (env w') b \<subseteq> objs (env w) b \<and>
      (\<forall>errs. r = Inr errs \<longrightarrow> objs (env w') b \<inter> set ks \<subseteq> set errs \<and> (\<forall>k \<in> set errs. refused b k))"
    by blast
qed

lemma lists_onward_world: "lists_onward c past \<Longrightarrow> lists_onward (ext_s3 c) past"
  unfolding lists_onward_def by (auto simp: ext_def split: prod.splits) blast+

lemma s3_no_marker_world: "s3_no_marker c \<Longrightarrow> s3_no_marker (ext_s3 c)"
  unfolding s3_no_marker_def by (auto simp: ext_def split: prod.splits) (metis fst_conv)+

end
