(* ===== verification/Storage_Keys.thy ===== *)
theory Storage_Keys
  imports Storage_Service
begin

text \<open>
  The layout of the object store: every object of a media lies below
  \<open>users/<owner>/media/<id>/\<close>, and \<open>extractMediaPrefix\<close> reads the media and that prefix back from
  any of its keys.
\<close>

definition media_prefix :: "string \<Rightarrow> string \<Rightarrow> string" where
  "media_prefix owner i = path_Join [''users'', owner, ''media'', i] @ ''/''"

text \<open>Identifiers that survive cleaning and trimming, as UUIDs and \<open>media_<hex>\<close> do.\<close>

definition name_ok :: "string \<Rightarrow> bool" where
  "name_ok n \<longleftrightarrow> clean_name n \<and> solid n"

lemma name_ok_simps:
  assumes "name_ok n"
  shows "clean_name n" "solid n" "n \<noteq> []" "CHR ''/'' \<notin> set n" "TrimSpace n = n"
  using assms solid_TrimSpace by (auto simp: name_ok_def clean_name_def)

lemma clean_fixed: "clean_name ''users''" "clean_name ''media''"
  by (simp_all add: clean_name_def)

lemma media_prefix_names:
  assumes "name_ok owner" "name_ok i"
  shows "media_prefix owner i = Join [''users'', owner, ''media'', i] (CHR ''/'') @ ''/''"
  using assms by (simp add: media_prefix_def path_Join_names name_ok_simps clean_fixed)

lemma media_prefix_text:
  assumes "name_ok owner" "name_ok i"
  shows "media_prefix owner i = ''users/'' @ owner @ ''/media/'' @ i @ ''/''"
  using assms by (simp add: media_prefix_names)

lemma solid_media_prefix:
  assumes "name_ok owner" "name_ok i"
  shows "solid (media_prefix owner i)"
  by (simp add: media_prefix_text assms solid_def graphic_def)

text \<open>The key of an object of a media: below its prefix, or the prefix itself without the slash.\<close>

definition media_object :: "string \<Rightarrow> string \<Rightarrow> string \<Rightarrow> bool" where
  "media_object owner i key \<longleftrightarrow> HasPrefix (key @ ''/'') (media_prefix owner i)"

lemma media_object_cases:
  assumes "media_object owner i key" "name_ok owner" "name_ok i"
  obtains (below) t where "key = media_prefix owner i @ t"
    | (bare) "key = Join [''users'', owner, ''media'', i] (CHR ''/'')"
proof -
  from assms(1) obtain z where z: "key @ ''/'' = media_prefix owner i @ z"
    by (auto simp: media_object_def HasPrefix_def prefix_def)
  show thesis
  proof (cases z rule: rev_cases)
    case Nil
    with z bare show thesis by (simp add: media_prefix_names assms)
  next
    case (snoc t c)
    with z have "key = media_prefix owner i @ t" by simp
    then show thesis by (rule below)
  qed
qed

lemma TrimRight_slashes:
  assumes "s \<noteq> []" "last s \<noteq> c"
  shows "TrimRight (s @ c # t) c = s \<or> (\<exists>t'. t' \<noteq> [] \<and> TrimRight (s @ c # t) c = s @ c # t')"
proof (induction t rule: rev_induct)
  case Nil
  from assms show ?case by (auto simp: TrimRight_def) (metis TrimRight_def TrimRight_id)
next
  case (snoc x t)
  show ?case
  proof (cases "x = c")
    case True
    then have "TrimRight (s @ c # (t @ [x])) c = TrimRight (s @ c # t) c" by (simp add: TrimRight_def)
    with snoc show ?thesis by simp
  next
    case False
    then have "TrimRight (s @ c # (t @ [x])) c = s @ c # (t @ [x])" by (simp add: TrimRight_def)
    then show ?thesis by blast
  qed
qed

lemma extract_media_object:
  assumes o: "name_ok owner" and i: "name_ok i" and key: "media_object owner i key"
  shows "extractMediaPrefix key = Some (i, media_prefix owner i)"
proof -
  let ?c = "CHR ''/''"
  let ?es = "[''users'', owner, ''media'', i]"
  let ?q = "Join ?es ?c"
  have free: "\<forall>e \<in> set ?es. ?c \<notin> set e" using o i by (auto dest: name_ok_simps)
  have names: "list_all clean_name ?es" using o i clean_fixed by (auto dest: name_ok_simps)
  have q: "?q \<noteq> []" "hd ?q \<noteq> ?c" "last ?q \<noteq> ?c"
    using hd_Join_names [OF names] last_Join_names [OF names] by auto
  have "solid ?q" using i by (auto simp: solid_def graphic_def name_ok_def)
  have "Trim (TrimSpace key) ?c = ?q \<or> (\<exists>t. Trim (TrimSpace key) ?c = ?q @ ?c # t)"
    using key o i
  proof (cases rule: media_object_cases)
    case bare
    with \<open>solid ?q\<close> have "TrimSpace key = ?q" by (simp only: solid_TrimSpace)
    then have "Trim (TrimSpace key) ?c = TrimRight (TrimLeft ?q ?c) ?c" by (simp only: Trim_def)
    then have "Trim (TrimSpace key) ?c = ?q"
      unfolding TrimLeft_id [OF q(1,2)] TrimRight_id [OF q(1,3)] .
    then show ?thesis by blast
  next
    case (below t)
    then have "prefix (media_prefix owner i) (TrimSpace key)"
      using prefix_TrimSpace solid_media_prefix [OF o i] by (simp add: solid_def)
    then obtain u where u: "TrimSpace key = ?q @ ?c # u"
      by (auto simp: media_prefix_names [OF o i] prefix_def)
    then have "TrimLeft (TrimSpace key) ?c = ?q @ ?c # u"
      using q TrimLeft_id [of "?q @ ?c # u" ?c] by simp
    with TrimRight_slashes [OF q(1,3), of u] show ?thesis unfolding Trim_def by auto
  qed
  then obtain rest where parts: "Split (Trim (TrimSpace key) ?c) ?c = ?es @ rest"
  proof
    assume "Trim (TrimSpace key) ?c = ?q"
    with Split_Join [OF _ free] that [of "[]"] show thesis by simp
  next
    assume "\<exists>t. Trim (TrimSpace key) ?c = ?q @ ?c # t"
    then obtain t where t: "Trim (TrimSpace key) ?c = ?q @ ?c # t" by blast
    have "?q @ ?c # t = Join (?es @ Split t ?c) ?c"
      by (subst Join_append) (simp_all add: Join_Split)
    moreover have "Split (Join (?es @ Split t ?c) ?c) ?c = ?es @ Split t ?c"
      by (rule Split_Join) (use free Split_parts_free in auto)
    ultimately show thesis using t that by metis
  qed
  with o i show ?thesis
    by (simp add: extractMediaPrefix_def media_prefix_def name_ok_simps)
qed

text \<open>Two media with different identifiers have no object in common.\<close>

lemma media_prefix_disjoint:
  assumes "name_ok o1" "name_ok i1" "name_ok o2" "name_ok i2"
    and "media_object o2 i2 key" "HasPrefix key (media_prefix o1 i1)"
  shows "i1 = i2"
proof -
  from assms(6) have "media_object o1 i1 key"
    by (auto simp: media_object_def HasPrefix_def prefix_def)
  with extract_media_object [of o1 i1 key] extract_media_object [of o2 i2 key] assms
  show ?thesis by simp
qed

text \<open>
  Keys with dots: \<open>path.Join\<close> cleans the prefix, which is then no longer a prefix of the key, and
  can be that of a whole user.
\<close>

lemma extract_dots:
  "extractMediaPrefix ''users/u/media/../x'' = Some (''..'', ''users/u/'')"
  by code_simp

subsection \<open>Objects that stay\<close>

text \<open>No object appears in the bucket, and those that satisfy \<open>P\<close> stay.\<close>

definition keeps ::
  "('w \<Rightarrow> string \<Rightarrow> string set) \<Rightarrow> string \<Rightarrow> (string \<Rightarrow> bool) \<Rightarrow> 'w \<Rightarrow> 'w \<Rightarrow> bool" where
  "keeps objs b P w w' \<longleftrightarrow> objs w' b \<subseteq> objs w b \<and> (\<forall>k \<in> objs w b. P k \<longrightarrow> k \<in> objs w' b)"

interpretation keep: world_order "keeps objs b P"
  for objs :: "'w \<Rightarrow> string \<Rightarrow> string set" and b :: string and P :: "string \<Rightarrow> bool"
  by unfold_locales (auto simp: keeps_def)

lemma unchanged_keeps: "stays (unchanged objs) m \<Longrightarrow> stays (keeps objs b P) m"
  by (simp add: stays_def unchanged_def keeps_def)

lemma page_unchanged: "lists_objects c objs past \<Longrightarrow> stays (unchanged objs) (s3_ListPage c b p tok)"
  unfolding stays_def unchanged_def lists_objects_def by (metis prod.collapse)

lemma delete_keeps:
  assumes lists: "lists_objects (st_s3 s) objs past" and del: "deletes_objects (st_s3 s) objs refused"
    and p: "solid p" and safe: "\<And>k. P k \<Longrightarrow> \<not> HasPrefix k p"
  shows "stays (keeps objs (st_bucket s) P) (DeleteObjectsByPrefix fuel s p)"
proof (rule keep.stays_DeleteObjectsByPrefix [OF lists_objects_prefix [OF lists] p])
  show "stays (keeps objs (st_bucket s) P) (s3_ListPage (st_s3 s) (st_bucket s) p tok)" for tok
    by (rule unchanged_keeps [OF page_unchanged [OF lists]])
  show "stays (keeps objs (st_bucket s) P) (s3_DeleteObjects (st_s3 s) (st_bucket s) ks)"
    if ks: "ks \<noteq> []" "length ks \<le> 1000" "\<forall>k \<in> set ks. HasPrefix k p" for ks
    unfolding stays_def
  proof
    fix w
    obtain r w' where run: "s3_DeleteObjects (st_s3 s) (st_bucket s) ks w = (r, w')"
      by (cases "s3_DeleteObjects (st_s3 s) (st_bucket s) ks w")
    with del ks(1,2) have "objs w (st_bucket s) - set ks \<subseteq> objs w' (st_bucket s)"
        "objs w' (st_bucket s) \<subseteq> objs w (st_bucket s)"
      unfolding deletes_objects_def by blast+
    with run ks(3) safe show
      "keeps objs (st_bucket s) P w (snd (s3_DeleteObjects (st_s3 s) (st_bucket s) ks w))"
      by (auto simp: keeps_def)
  qed
qed

lemma ListMediaPrefixes_unchanged:
  assumes "lists_objects (st_s3 s) objs past"
  shows "stays (unchanged objs) (ListMediaPrefixes fuel s)"
  unfolding ListMediaPrefixes_def
  by (intro same.stays_if same.stays_fail
      same.stays_each_page [where P = "\<lambda>_. True", OF page_unchanged [OF assms]] same.stays_ret TrueI)

text \<open>What the map of the media holds when every key has its place.\<close>

definition placed :: "string set \<Rightarrow> bool" where
  "placed ks \<longleftrightarrow> (\<forall>k \<in> ks. HasPrefix k ''users/'' \<longrightarrow>
    (\<exists>owner i. name_ok owner \<and> name_ok i \<and> media_object owner i k))"

lemma extract_object_key: "extractMediaPrefix (object_key (Some k)) = extractMediaPrefix k"
  by (simp add: extractMediaPrefix_def object_key_def)

lemma ListMediaPrefixes_Inr:
  assumes lists: "lists_objects (st_s3 s) objs past" and placed: "placed (objs w (st_bucket s))"
    and run: "ListMediaPrefixes fuel s w = (Inr m, w')"
  shows "objs w' = objs w \<and> distinct (map fst m) \<and>
    (\<forall>(i, p) \<in> set m. \<exists>owner. name_ok owner \<and> name_ok i \<and> p = media_prefix owner i \<and>
      (\<exists>k \<in> objs w (st_bucket s). media_object owner i k)) \<and>
    (\<forall>k \<in> objs w (st_bucket s). \<forall>owner i. HasPrefix k ''users/'' \<longrightarrow> name_ok owner \<longrightarrow> name_ok i \<longrightarrow>
      media_object owner i k \<longrightarrow> i \<in> fst ` set m)"
proof -
  let ?b = "st_bucket s"
  from run have "each_page fuel s ''users/'' (\<lambda>contents acc. retP (fold add_prefix contents acc)) None [] w
      = (Inr m, w')"
    by (simp add: ListMediaPrefixes_def prog_simps split: if_splits)
  from each_page_lists [OF lists this] obtain ks where
      objs: "objs w' = objs w" and m: "m = fold add_prefix (map Some ks) []"
    and ks: "set ks = {k \<in> objs w ?b. HasPrefix k ''users/''}"
    by auto
  note f = fold_add_prefix [of "[]" "map Some ks", folded m]
  have "\<exists>owner. name_ok owner \<and> name_ok i \<and> p = media_prefix owner i \<and>
      (\<exists>k \<in> objs w ?b. media_object owner i k)" if "(i, p) \<in> set m" for i p
  proof -
    from that f obtain k where k: "k \<in> set ks" "extractMediaPrefix k = Some (i, p)"
      by (auto simp: extract_object_key)
    with ks placed obtain owner j where "name_ok owner" "name_ok j" "media_object owner j k" "k \<in> objs w ?b"
      by (auto simp: placed_def)
    with extract_media_object [of owner j k] k(2) show ?thesis by auto
  qed
  moreover have "i \<in> fst ` set m"
    if "k \<in> objs w ?b" "HasPrefix k ''users/''" "name_ok owner" "name_ok i" "media_object owner i k"
    for k owner i
  proof -
    from that(1,2) ks have "k \<in> set ks" by blast
    with f extract_media_object [OF that(3-5)] show ?thesis by (auto simp: extract_object_key)
  qed
  ultimately show ?thesis using objs f by auto
qed

end
