(* ===== verification/Media_Cleanup.thy ===== *)
theory Media_Cleanup
  imports Media_Repository Storage_Keys "HOL-Library.Multiset"
begin

text \<open>
  \<open>internal/service/media_cleanup.go\<close>: the job that deletes the objects of media that are no
  longer in the database. The ticker that runs it every day is with the start of the program, in \<open>App\<close>.
\<close>

record 'w MediaCleanupService =
  mc_mediaRepo :: "'w MediaRepository"
  mc_storage :: "'w StorageService"
  mc_batchSize :: int
  mc_runTimeout :: duration

definition NewMediaCleanupService ::
    "'w MediaRepository \<Rightarrow> 'w StorageService \<Rightarrow> int \<Rightarrow> duration \<Rightarrow> 'w MediaCleanupService" where
  "NewMediaCleanupService repo storage batchSize runTimeout =
    \<lparr>mc_mediaRepo = repo, mc_storage = storage,
     mc_batchSize = (if batchSize \<le> 0 then 1000 else batchSize),
     mc_runTimeout = (if runTimeout \<le> 0 then 30 * Minute else runTimeout)\<rparr>"

text \<open>
  \<open>for start := 0; start < len(ids); start += batchSize\<close>: the slices \<open>ids[start:end]\<close>. The
  constructor makes the batch size positive.
\<close>

function chunks :: "nat \<Rightarrow> 'a list \<Rightarrow> 'a list list" where
  "chunks n xs = (if xs = [] \<or> n = 0 then [] else take n xs # chunks n (drop n xs))"
  by pat_completeness auto
termination
  by (relation "measure (\<lambda>(n, xs). length xs)") auto

declare chunks.simps [simp del]

text \<open>The set of identifiers \<open>existing\<close> as a list.\<close>

fun existing_ids :: "'w MediaCleanupService \<Rightarrow> string list list \<Rightarrow> string list \<Rightarrow> ('w, string list) prog" where
  "existing_ids s [] existing = retP existing"
| "existing_ids s (ids # batches) existing =
    bindP (mr_ListExistingIDs (mc_mediaRepo s) ids) (\<lambda>chunk. existing_ids s batches (existing @ chunk))"

text \<open>The loop that deletes what is below the prefix of each identifier that does not exist.\<close>

fun delete_orphans ::
    "nat \<Rightarrow> 'w MediaCleanupService \<Rightarrow> (string \<times> string) list \<Rightarrow> string list \<Rightarrow> string list \<Rightarrow> int \<Rightarrow> int \<Rightarrow>
      ('w, int \<times> int) prog" where
  "delete_orphans fuel s prefixByID existing [] deleted failed = retP (deleted, failed)"
| "delete_orphans fuel s prefixByID existing (i # ids) deleted failed =
    (if i \<in> set existing then delete_orphans fuel s prefixByID existing ids deleted failed
     else let pre = (case map_of prefixByID i of None \<Rightarrow> [] | Some p \<Rightarrow> p)
       in bindP (attemptP (DeleteObjectsByPrefix fuel (mc_storage s) pre)) (\<lambda>r.
            case r of
              Inl e \<Rightarrow> delete_orphans fuel s prefixByID existing ids deleted (failed + 1)
            | Inr _ \<Rightarrow> delete_orphans fuel s prefixByID existing ids (deleted + 1) failed))"

text \<open>
  \<open>RunOnce\<close>: the counts of scanned, deleted and failed media; with an error the counts are not
  used. \<open>range prefixByID\<close> visits the map in any order, which is the parameter \<open>order\<close>.
\<close>

definition RunOnce ::
    "nat \<Rightarrow> (string list \<Rightarrow> string list) \<Rightarrow> 'w MediaCleanupService \<Rightarrow> ('w, int \<times> int \<times> int) prog" where
  "RunOnce fuel order s =
    bindP (ListMediaPrefixes fuel (mc_storage s)) (\<lambda>prefixByID.
      if prefixByID = [] then retP (0, 0, 0)
      else let ids = filter (\<lambda>i. TrimSpace i \<noteq> []) (order (map fst prefixByID))
        in bindP (existing_ids s (chunks (nat (mc_batchSize s)) ids) []) (\<lambda>existing.
             bindP (delete_orphans fuel s prefixByID existing ids 0 0) (\<lambda>(deleted, failed).
               retP (int (length ids), deleted, failed))))"

lemma concat_chunks: "0 < n \<Longrightarrow> concat (chunks n xs) = xs"
proof (induction n xs rule: chunks.induct)
  case (1 n xs)
  then show ?case by (subst chunks.simps) (simp add: append_take_drop_id)
qed

lemma chunks_bound: "ys \<in> set (chunks n xs) \<Longrightarrow> ys \<noteq> [] \<and> length ys \<le> n"
proof (induction n xs rule: chunks.induct)
  case (1 n xs)
  then show ?case by (subst (asm) (2) chunks.simps) (auto split: if_splits)
qed

subsection \<open>The job over any repository that keeps the contract\<close>


text \<open>
  The prefixes of the map are those of media that are not there, so no object of a media that is
  there is touched, whatever fails.
\<close>

definition prefixes_ok :: "(string \<times> string) list \<Rightarrow> bool" where
  "prefixes_ok m \<longleftrightarrow> (\<forall>(i, p) \<in> set m. \<exists>owner. name_ok owner \<and> name_ok i \<and> p = media_prefix owner i)"

lemma prefixes_okD:
  assumes "prefixes_ok m" "i \<in> fst ` set m"
  obtains owner where "name_ok owner" "name_ok i" "map_of m i = Some (media_prefix owner i)"
proof -
  from assms(2) obtain p where p: "map_of m i = Some p" by (auto simp: map_of_eq_None_iff dest: weak_map_of_SomeI)
  with assms(1) that show thesis unfolding prefixes_ok_def by (auto dest!: map_of_SomeD)
qed

definition protected_key :: "string list \<Rightarrow> string \<Rightarrow> bool" where
  "protected_key existing k \<longleftrightarrow>
    (\<exists>owner i. name_ok owner \<and> name_ok i \<and> media_object owner i k \<and> i \<in> set existing)"


lemma delete_orphans_keeps:
  assumes lists: "lists_objects (st_s3 (mc_storage s)) objs past"
    and del: "deletes_objects (st_s3 (mc_storage s)) objs refused"
    and m: "prefixes_ok m" and "set ids \<subseteq> fst ` set m"
  shows "stays (keeps objs (st_bucket (mc_storage s)) (protected_key existing))
    (delete_orphans fuel s m existing ids deleted failed)"
  using assms(4)
proof (induction ids arbitrary: deleted failed)
  case (Cons i ids)
  show ?case
  proof (cases "i \<in> set existing")
    case True
    with Cons show ?thesis by simp
  next
    case False
    from Cons.prems prefixes_okD [OF m] obtain owner where o: "name_ok owner" "name_ok i"
        "map_of m i = Some (media_prefix owner i)" by (metis list.set_intros(1) subsetD)
    have "stays (keeps objs (st_bucket (mc_storage s)) (protected_key existing))
        (DeleteObjectsByPrefix fuel (mc_storage s) (media_prefix owner i))"
    proof (rule delete_keeps [OF lists del solid_media_prefix [OF o(1,2)]])
      fix k assume "protected_key existing k"
      with False o media_prefix_disjoint show "\<not> HasPrefix k (media_prefix owner i)"
        unfolding protected_key_def by metis
    qed
    with False o Cons show ?thesis
      by (auto simp: Let_def intro!: keep.stays_bind keep.stays_attempt split: sum.splits)
  qed
qed (simp add: keep.stays_ret)

text \<open>The counts, and what is left when nothing has failed.\<close>

lemma delete_orphans_Inr:
  assumes lists: "lists_objects (st_s3 (mc_storage s)) objs past"
    and del: "deletes_objects (st_s3 (mc_storage s)) objs refused"
    and m: "prefixes_ok m" and "set ids \<subseteq> fst ` set m"
    and "delete_orphans fuel s m existing ids deleted failed w = (Inr (deleted', failed'), w')"
  shows "deleted' + failed' = deleted + failed + int (length (filter (\<lambda>i. i \<notin> set existing) ids)) \<and>
    deleted \<le> deleted' \<and> failed \<le> failed' \<and>
    objs w' (st_bucket (mc_storage s)) \<subseteq> objs w (st_bucket (mc_storage s)) \<and>
    (\<forall>k \<in> objs w (st_bucket (mc_storage s)).
      (\<forall>i \<in> set ids - set existing. \<forall>p. map_of m i = Some p \<longrightarrow> \<not> HasPrefix k p) \<longrightarrow>
      k \<in> objs w' (st_bucket (mc_storage s))) \<and>
    (failed' = failed \<longrightarrow> (\<forall>k \<in> objs w' (st_bucket (mc_storage s)).
      \<forall>i \<in> set ids - set existing. \<forall>p. map_of m i = Some p \<longrightarrow> HasPrefix k p \<longrightarrow>
        refused (st_bucket (mc_storage s)) k \<or> TrimSpace k \<noteq> k))"
  using assms(4-)
proof (induction ids arbitrary: deleted failed w)
  case Nil
  then show ?case by (simp add: prog_simps)
next
  case (Cons i ids)
  let ?b = "st_bucket (mc_storage s)"
  show ?case
  proof (cases "i \<in> set existing")
    case True
    with Cons.prems(2) have "delete_orphans fuel s m existing ids deleted failed w = (Inr (deleted', failed'), w')"
      by simp
    from Cons.IH [OF _ this] Cons.prems(1) True show ?thesis by auto
  next
    case False
    from Cons.prems(1) prefixes_okD [OF m] obtain owner where o: "name_ok owner" "name_ok i"
        "map_of m i = Some (media_prefix owner i)" by (metis list.set_intros(1) subsetD)
    let ?p = "media_prefix owner i"
    obtain r w1 where d: "DeleteObjectsByPrefix fuel (mc_storage s) ?p w = (r, w1)"
      by (cases "DeleteObjectsByPrefix fuel (mc_storage s) ?p w")
    note solid = solid_media_prefix [OF o(1,2)]
    from delete_keeps [OF lists del solid, of "\<lambda>k. \<not> HasPrefix k ?p", THEN staysD, OF _ d]
    have w1: "objs w1 ?b \<subseteq> objs w ?b" "\<forall>k \<in> objs w ?b. \<not> HasPrefix k ?p \<longrightarrow> k \<in> objs w1 ?b" by (simp_all add: keeps_def)
    from Cons.prems(1) have ids: "set ids \<subseteq> fst ` set m" by simp
    define fresh where "fresh = (case r of Inl _ \<Rightarrow> (deleted, failed + 1) | Inr _ \<Rightarrow> (deleted + 1, failed))"
    from Cons.prems(2) False o(3) d
    have run: "delete_orphans fuel s m existing ids (fst fresh) (snd fresh) w1 = (Inr (deleted', failed'), w')"
      by (auto simp: fresh_def Let_def bindP_def attemptP_def split: sum.splits)
    note IH = Cons.IH [OF ids run]
    have keep: "k \<in> objs w' ?b" if "k \<in> objs w ?b"
      "\<forall>j \<in> set (i # ids) - set existing. \<forall>p. map_of m j = Some p \<longrightarrow> \<not> HasPrefix k p" for k
    proof -
      from that(2) False o(3) have "\<not> HasPrefix k ?p" by (meson DiffI list.set_intros(1))
      with that(1) w1(2) have "k \<in> objs w1 ?b" by simp
      moreover from that(2) have "\<forall>j \<in> set ids - set existing. \<forall>p. map_of m j = Some p \<longrightarrow> \<not> HasPrefix k p"
        by (meson Diff_iff list.set_intros(2))
      ultimately show ?thesis using IH by blast
    qed
    have left: "refused ?b k \<or> TrimSpace k \<noteq> k" if "failed' = failed" "k \<in> objs w' ?b"
      "j \<in> set (i # ids) - set existing" "map_of m j = Some p" "HasPrefix k p" for k j p
    proof -
      from IH that(1) have r: "r = Inr ()" "snd fresh = failed"
        by (auto simp: fresh_def split: sum.splits)
      from DeleteObjectsByPrefix_Inr [OF lists del solid d [unfolded r(1)]] IH that(2)
      have below: "HasPrefix k ?p \<longrightarrow> refused ?b k \<or> TrimSpace k \<noteq> k" by blast
      show ?thesis
      proof (cases "j = i")
        case True
        with that(4,5) o(3) below show ?thesis by simp
      next
        case False
        with that r(2) IH show ?thesis by auto
      qed
    qed
    have "deleted' + failed' = deleted + failed + int (length (filter (\<lambda>i. i \<notin> set existing) (i # ids)))"
        "deleted \<le> deleted'" "failed \<le> failed'"
      using IH False by (auto simp: fresh_def split: sum.splits)
    moreover have "objs w' ?b \<subseteq> objs w ?b" using IH w1(1) by blast
    ultimately show ?thesis using keep left by blast
  qed
qed

text \<open>The media whose objects a listing shows, and whether an object is that of a media that is not live.\<close>

definition found_media :: "string set \<Rightarrow> string set" where
  "found_media ks = {i. name_ok i \<and> (\<exists>k \<in> ks. \<exists>owner. HasPrefix k ''users/'' \<and> name_ok owner \<and> media_object owner i k)}"

definition alive :: "('w \<Rightarrow> string \<Rightarrow> Media option) \<Rightarrow> 'w \<Rightarrow> string \<Rightarrow> bool" where
  "alive media_at w i \<longleftrightarrow> (\<exists>m. media_at w i = Some m \<and> live m)"

definition orphan_object :: "('w \<Rightarrow> string \<Rightarrow> Media option) \<Rightarrow> 'w \<Rightarrow> string \<Rightarrow> string \<Rightarrow> string \<Rightarrow> bool" where
  "orphan_object media_at w owner i k \<longleftrightarrow>
    name_ok owner \<and> name_ok i \<and> HasPrefix k (media_prefix owner i) \<and> \<not> alive media_at w i"

lemma below_prefix:
  assumes "name_ok owner" "name_ok i" "HasPrefix k (media_prefix owner i)"
  shows "media_object owner i k" "HasPrefix k ''users/''"
  using assms by (auto simp: media_object_def HasPrefix_def prefix_def media_prefix_text)

locale media_cleanup =
  media: media_repository "mc_mediaRepo s" invar media_at
  for s :: "'w MediaCleanupService" and invar :: "'w \<Rightarrow> bool"
    and media_at :: "'w \<Rightarrow> string \<Rightarrow> Media option" +
  assumes page_quiet: "stays (quiet invar media_at) (s3_ListPage (st_s3 (mc_storage s)) b p t)"
    and delete_quiet: "stays (quiet invar media_at) (s3_DeleteObjects (st_s3 (mc_storage s)) b ks)"
begin

lemma existing_ids_Inr:
  assumes "invar w" "existing_ids s batches acc w = (Inr existing, w')"
  shows "invar w' \<and> media_at w' = media_at w \<and>
    set existing = set acc \<union> {i \<in> set (concat batches). \<exists>m. media_at w i = Some m \<and> live m}"
  using assms
proof (induction batches arbitrary: acc w)
  case (Cons ids batches)
  from Cons.prems(2) obtain chunk w1 where
      l: "mr_ListExistingIDs (mc_mediaRepo s) ids w = (Inr chunk, w1)"
    and r: "existing_ids s batches (acc @ chunk) w1 = (Inr existing, w')"
    by (auto simp: prog_simps)
  from quietD [OF media.ListExistingIDs_quiet Cons.prems(1) l]
  have w1: "invar w1" "media_at w1 = media_at w" by auto
  from media.ListExistingIDs_Inr [OF Cons.prems(1) l] Cons.IH [OF w1(1) r] w1(2)
  show ?case by auto
qed (simp add: prog_simps)

lemma quiet_delete: "stays (quiet invar media_at) (DeleteObjectsByPrefix fuel (mc_storage s) p)"
  by (intro calm.stays_DeleteObjectsByPrefix_all page_quiet delete_quiet)

lemma quiet_list: "stays (quiet invar media_at) (ListMediaPrefixes fuel (mc_storage s))"
  by (intro calm.stays_ListMediaPrefixes page_quiet)

lemma quiet_delete_orphans:
  "stays (quiet invar media_at) (delete_orphans fuel s m existing ids deleted failed)"
  by (induction ids arbitrary: deleted failed)
    (auto simp: Let_def intro!: calm.stays_ret calm.stays_bind calm.stays_attempt quiet_delete
      split: sum.splits)

lemma quiet_existing_ids: "stays (quiet invar media_at) (existing_ids s batches acc)"
  by (induction batches arbitrary: acc)
    (auto intro!: calm.stays_ret calm.stays_bind media.ListExistingIDs_quiet)

lemma quiet_RunOnce: "stays (quiet invar media_at) (RunOnce fuel order s)"
  unfolding RunOnce_def Let_def
  by (intro calm.stays_bind calm.stays_if calm.stays_ret calm.stays_case_prod quiet_list
      quiet_existing_ids quiet_delete_orphans)

lemma unchanged_existing_ids:
  assumes "\<And>ids. stays (unchanged objs) (mr_ListExistingIDs (mc_mediaRepo s) ids)"
  shows "stays (unchanged objs) (existing_ids s batches acc)"
  by (induction batches arbitrary: acc) (auto intro!: same.stays_ret same.stays_bind assms)

text \<open>What \<open>RunOnce\<close> does before it deletes anything.\<close>

lemma RunOnce_cases:
  assumes inv: "invar w" and lists: "lists_objects (st_s3 (mc_storage s)) objs past"
    and placed: "placed (objs w (st_bucket (mc_storage s)))"
    and repo: "\<And>ids. stays (unchanged objs) (mr_ListExistingIDs (mc_mediaRepo s) ids)"
    and order: "\<And>xs. mset (order xs) = mset xs"
    and batch: "0 < mc_batchSize s"
    and run: "RunOnce fuel order s w = (r, w')"
  obtains (failed) e where "r = Inl e" "objs w' = objs w"
    | (empty) "r = Inr (0, 0, 0)" "objs w' = objs w"
        "\<And>k owner i. k \<in> objs w (st_bucket (mc_storage s)) \<Longrightarrow> HasPrefix k ''users/'' \<Longrightarrow>
          name_ok owner \<Longrightarrow> name_ok i \<Longrightarrow> \<not> media_object owner i k"
    | (orphans) m w2 existing q where "prefixes_ok m" "objs w2 = objs w"
        "\<And>i. i \<in> fst ` set m \<Longrightarrow> i \<in> set existing \<longleftrightarrow> (\<exists>m. media_at w i = Some m \<and> live m)"
        "set existing \<subseteq> {i. \<exists>m. media_at w i = Some m \<and> live m}"
        "\<And>k owner i. k \<in> objs w (st_bucket (mc_storage s)) \<Longrightarrow> HasPrefix k ''users/'' \<Longrightarrow>
          name_ok owner \<Longrightarrow> name_ok i \<Longrightarrow> media_object owner i k \<Longrightarrow> i \<in> fst ` set m"
        "\<And>i p. (i, p) \<in> set m \<Longrightarrow> \<exists>owner. name_ok owner \<and> p = media_prefix owner i \<and>
          (\<exists>k \<in> objs w (st_bucket (mc_storage s)). media_object owner i k)"
        "mset (order (map fst m)) = mset (map fst m)" "distinct (map fst m)"
        "delete_orphans fuel s m existing (order (map fst m)) 0 0 w2 = (q, w')"
        "r = (case q of Inl e \<Rightarrow> Inl e | Inr (deleted, failed) \<Rightarrow> Inr (int (length m), deleted, failed))"
proof -
  let ?b = "st_bucket (mc_storage s)"
  obtain g w1 where g: "ListMediaPrefixes fuel (mc_storage s) w = (g, w1)"
    by (cases "ListMediaPrefixes fuel (mc_storage s) w")
  from ListMediaPrefixes_unchanged [OF lists, THEN staysD, OF g] have w1: "objs w1 = objs w"
    by (simp add: unchanged_def)
  from quietD [OF quiet_list inv g] have q1: "invar w1" "media_at w1 = media_at w" by auto
  show thesis
  proof (cases g)
    case (Inl e)
    with run g have "r = Inl e" "w' = w1" by (auto simp: RunOnce_def bindP_stop)
    with w1 failed show thesis by blast
  next
    case (Inr m)
    from ListMediaPrefixes_Inr [OF lists placed] g Inr have m:
        "distinct (map fst m)"
        "\<And>i p. (i, p) \<in> set m \<Longrightarrow> \<exists>owner. name_ok owner \<and> name_ok i \<and> p = media_prefix owner i \<and>
          (\<exists>k \<in> objs w ?b. media_object owner i k)"
        "\<And>k owner i. k \<in> objs w ?b \<Longrightarrow> HasPrefix k ''users/'' \<Longrightarrow> name_ok owner \<Longrightarrow> name_ok i \<Longrightarrow>
          media_object owner i k \<Longrightarrow> i \<in> fst ` set m"
      by blast+
    from m(2) have ok: "prefixes_ok m" by (auto simp: prefixes_ok_def)
    show thesis
    proof (cases "m = []")
      case True
      with run g Inr have "r = Inr (0, 0, 0)" "w' = w1" by (auto simp: RunOnce_def bindP_step prog_simps)
      with w1 m(3) True show thesis by (intro empty) auto
    next
      case False
      let ?ids = "order (map fst m)"
      have set_ids: "set ?ids = fst ` set m" using order [of "map fst m"]
        by (metis list.set_map set_mset_mset)
      have len: "length ?ids = length m" using order [of "map fst m"]
        by (metis length_map size_mset)
      have "TrimSpace i \<noteq> []" if "i \<in> set ?ids" for i
        using that set_ids m(2) name_ok_simps by fastforce
      then have filter: "filter (\<lambda>i. TrimSpace i \<noteq> []) ?ids = ?ids" by (simp add: filter_id_conv)
      let ?batches = "chunks (nat (mc_batchSize s)) ?ids"
      obtain x w2 where x: "existing_ids s ?batches [] w1 = (x, w2)"
        by (cases "existing_ids s ?batches [] w1")
      from unchanged_existing_ids [OF repo, THEN staysD, OF x] w1 have w2: "objs w2 = objs w"
        by (simp add: unchanged_def)
      show thesis
      proof (cases x)
        case (Inl e)
        with run g Inr False filter x have "r = Inl e" "w' = w2"
          by (auto simp: RunOnce_def bindP_step bindP_stop Let_def)
        with w2 failed show thesis by blast
      next
        case x_Inr: (Inr existing)
        have "concat ?batches = ?ids" using batch by (simp add: concat_chunks)
        with existing_ids_Inr [OF q1(1), of ?batches "[]" existing w2] x x_Inr q1(2)
        have ex: "set existing = {i \<in> set ?ids. \<exists>m. media_at w i = Some m \<and> live m}"
          by (simp del: set_concat)
        obtain q w3 where d: "delete_orphans fuel s m existing ?ids 0 0 w2 = (q, w3)"
          by (cases "delete_orphans fuel s m existing ?ids 0 0 w2")
        with run g Inr False filter x x_Inr len
        have "w' = w3" "r = (case q of Inl e \<Rightarrow> Inl e
            | Inr (deleted, failed) \<Rightarrow> Inr (int (length m), deleted, failed))"
          by (auto simp: RunOnce_def bindP_step Let_def bindP_def retP_def split: sum.splits prod.splits)
        moreover have "\<exists>owner. name_ok owner \<and> p = media_prefix owner i \<and>
            (\<exists>k \<in> objs w ?b. media_object owner i k)" if "(i, p) \<in> set m" for i p
          using m(2) [OF that] by blast
        ultimately show thesis
          using d w2 ex set_ids m(1,3) ok order by (intro orphans [of m w2 existing q]) auto
      qed
    qed
  qed
qed

lemma RunOnce_keeps:
  assumes inv: "invar w" and lists: "lists_objects (st_s3 (mc_storage s)) objs past"
    and del: "deletes_objects (st_s3 (mc_storage s)) objs refused"
    and placed: "placed (objs w (st_bucket (mc_storage s)))"
    and repo: "\<And>ids. stays (unchanged objs) (mr_ListExistingIDs (mc_mediaRepo s) ids)"
    and order: "\<And>xs. mset (order xs) = mset xs" and batch: "0 < mc_batchSize s"
    and run: "RunOnce fuel order s w = (r, w')"
    and m: "media_at w i = Some m" "live m" "name_ok owner" "name_ok i" "media_object owner i k"
    and k: "k \<in> objs w (st_bucket (mc_storage s))" "HasPrefix k ''users/''"
  shows "k \<in> objs w' (st_bucket (mc_storage s))"
  using inv lists placed repo order batch run
proof (cases rule: RunOnce_cases)
  case (orphans tbl w2 existing q)
  have "set (order (map fst tbl)) \<subseteq> fst ` set tbl"
    using orphans(7) by (metis list.set_map order_refl set_mset_mset)
  from delete_orphans_keeps [OF lists del orphans(1) this, THEN staysD, OF orphans(9)]
  have keep: "\<And>k. k \<in> objs w2 (st_bucket (mc_storage s)) \<Longrightarrow> protected_key existing k \<Longrightarrow>
      k \<in> objs w' (st_bucket (mc_storage s))" by (auto simp: keeps_def)
  from orphans(5) [OF k m(3-5)] orphans(3) m(1,2) have "i \<in> set existing" by blast
  with m have "protected_key existing k" unfolding protected_key_def by blast
  with keep k orphans(2) show ?thesis by simp
qed (use k in auto)

lemma RunOnce_Inr:
  assumes inv: "invar w" and lists: "lists_objects (st_s3 (mc_storage s)) objs past"
    and del: "deletes_objects (st_s3 (mc_storage s)) objs refused"
    and placed: "placed (objs w (st_bucket (mc_storage s)))"
    and repo: "\<And>ids. stays (unchanged objs) (mr_ListExistingIDs (mc_mediaRepo s) ids)"
    and order: "\<And>xs. mset (order xs) = mset xs" and batch: "0 < mc_batchSize s"
    and run: "RunOnce fuel order s w = (Inr (scanned, deleted, failed), w')"
  shows "0 \<le> deleted \<and> 0 \<le> failed \<and> scanned = int (card (found_media (objs w (st_bucket (mc_storage s))))) \<and>
    deleted + failed = int (card {i \<in> found_media (objs w (st_bucket (mc_storage s))). \<not> alive media_at w i}) \<and>
    objs w' (st_bucket (mc_storage s)) \<subseteq> objs w (st_bucket (mc_storage s)) \<and>
    (\<forall>k \<in> objs w (st_bucket (mc_storage s)). (\<forall>owner i. \<not> orphan_object media_at w owner i k) \<longrightarrow>
      k \<in> objs w' (st_bucket (mc_storage s))) \<and>
    (failed = 0 \<longrightarrow> (\<forall>k \<in> objs w' (st_bucket (mc_storage s)). \<forall>owner i. orphan_object media_at w owner i k \<longrightarrow>
      refused (st_bucket (mc_storage s)) k \<or> TrimSpace k \<noteq> k \<or>
      (\<exists>other \<noteq> owner. \<exists>k2 \<in> objs w (st_bucket (mc_storage s)). name_ok other \<and> media_object other i k2)))"
  using inv lists placed repo order batch run
proof (cases rule: RunOnce_cases)
  case (failed e)
  then show ?thesis by simp
next
  case empty
  have "\<not> orphan_object media_at w owner i k" if "k \<in> objs w (st_bucket (mc_storage s))" for k owner i
    using empty(3) [OF that] below_prefix [of owner i k] by (auto simp: orphan_object_def)
  moreover have "found_media (objs w (st_bucket (mc_storage s))) = {}"
    using empty(3) by (auto simp: found_media_def)
  ultimately show ?thesis using empty by auto
next
  case (orphans tbl w2 existing q)
  let ?b = "st_bucket (mc_storage s)"
  from orphans(10) have q: "q = Inr (deleted, failed)" and scanned: "scanned = int (length tbl)"
    by (auto split: sum.splits prod.splits)
  let ?ids = "order (map fst tbl)"
  have ids: "set ?ids = fst ` set tbl" and dist: "distinct ?ids"
    using orphans(7,8) by (metis list.set_map set_mset_mset, metis mset_eq_imp_distinct_iff)
  have owner: "\<exists>owner. name_ok owner \<and> name_ok i \<and> map_of tbl i = Some (media_prefix owner i) \<and>
      (\<exists>k \<in> objs w ?b. media_object owner i k)" if "i \<in> fst ` set tbl" for i
  proof -
    from that obtain p where p: "map_of tbl i = Some p" by (auto simp: map_of_eq_None_iff dest: weak_map_of_SomeI)
    from prefixes_okD [OF orphans(1) that] p obtain o1 where "name_ok i" by auto
    with p orphans(6) [OF map_of_SomeD [OF p]] show ?thesis by auto
  qed
  have found: "found_media (objs w ?b) = fst ` set tbl"
  proof (intro equalityI subsetI)
    show "i \<in> fst ` set tbl" if "i \<in> found_media (objs w ?b)" for i
      using that orphans(5) by (auto simp: found_media_def)
    show "i \<in> found_media (objs w ?b)" if i: "i \<in> fst ` set tbl" for i
    proof -
      from owner [OF i] obtain o1 k where o: "name_ok o1" "name_ok i" "k \<in> objs w ?b" "media_object o1 i k" by blast
      from o(4,1,2) have "HasPrefix k ''users/''"
      proof (cases rule: media_object_cases)
        case (below t)
        then show ?thesis by (simp add: HasPrefix_def media_prefix_text [OF o(1,2)])
      qed (simp add: HasPrefix_def)
      with o show ?thesis unfolding found_media_def by blast
    qed
  qed
  have live: "alive media_at w i \<longleftrightarrow> i \<in> set existing" if "i \<in> fst ` set tbl" for i
    using orphans(3) [OF that] by (simp add: alive_def)
  have "card (fst ` set tbl) = length tbl" using orphans(8) distinct_card [of "map fst tbl"] by simp
  then have count: "scanned = int (card (found_media (objs w ?b)))" by (simp add: scanned found)
  have dead: "{i \<in> found_media (objs w ?b). \<not> alive media_at w i} = set (filter (\<lambda>i. i \<notin> set existing) ?ids)"
    using live by (auto simp: found ids)
  from delete_orphans_Inr [OF lists del orphans(1) _ orphans(9) [unfolded q]] orphans(2) ids
  have d: "deleted + failed = int (length (filter (\<lambda>i. i \<notin> set existing) ?ids))" "0 \<le> deleted" "0 \<le> failed"
      "objs w' ?b \<subseteq> objs w ?b"
      "\<And>k. k \<in> objs w ?b \<Longrightarrow> \<forall>i \<in> set ?ids - set existing. \<forall>p. map_of tbl i = Some p \<longrightarrow> \<not> HasPrefix k p \<Longrightarrow> k \<in> objs w' ?b"
      "\<And>k i p. failed = 0 \<Longrightarrow> k \<in> objs w' ?b \<Longrightarrow> i \<in> set ?ids - set existing \<Longrightarrow> map_of tbl i = Some p \<Longrightarrow>
        HasPrefix k p \<Longrightarrow> refused ?b k \<or> TrimSpace k \<noteq> k"
    by auto
  have kept: "k \<in> objs w' ?b" if "k \<in> objs w ?b" "\<forall>owner i. \<not> orphan_object media_at w owner i k" for k
  proof (rule d(5) [OF that(1)], intro ballI allI impI)
    fix i p
    assume i: "i \<in> set ?ids - set existing" and p: "map_of tbl i = Some p"
    with owner [of i] ids obtain o1 where "name_ok o1" "name_ok i" "p = media_prefix o1 i" by auto
    with that(2) live [of i] i ids show "\<not> HasPrefix k p" by (auto simp: orphan_object_def)
  qed
  have left: "refused ?b k \<or> TrimSpace k \<noteq> k \<or>
      (\<exists>other \<noteq> owner. \<exists>k2 \<in> objs w ?b. name_ok other \<and> media_object other i k2)"
    if "failed = 0" "k \<in> objs w' ?b" "orphan_object media_at w owner i k" for k owner i
  proof -
    from that(3) have o: "name_ok owner" "name_ok i" "HasPrefix k (media_prefix owner i)" "\<not> alive media_at w i"
      by (simp_all add: orphan_object_def)
    from that(2) d(4) have k: "k \<in> objs w ?b" by blast
    from orphans(5) [OF k below_prefix(2) [OF o(1-3)] o(1,2) below_prefix(1) [OF o(1-3)]] have i: "i \<in> fst ` set tbl" .
    from \<open>i \<in> fst ` set tbl\<close> owner obtain o2 k2 where o2: "name_ok o2" "map_of tbl i = Some (media_prefix o2 i)"
        "k2 \<in> objs w ?b" "media_object o2 i k2" by blast
    show ?thesis
    proof (cases "o2 = owner")
      case True
      with d(6) [OF that(1,2) _ o2(2)] i o ids live [OF i] show ?thesis by auto
    next
      case False
      with o2 show ?thesis by blast
    qed
  qed
  show ?thesis
    unfolding dead distinct_card [OF distinct_filter [OF dist]]
    using d(1-4) count kept left by (intro conjI) auto
qed

end

subsection \<open>The job on the program's own repository and storage\<close>

definition pg_cleanup_service ::
    "('e, 'q) platform \<Rightarrow> storage_config \<Rightarrow> int \<Rightarrow> duration \<Rightarrow> 'e world MediaCleanupService" where
  "pg_cleanup_service pf c batchSize runTimeout =
    NewMediaCleanupService (NewPostgresMediaRepository (pf_pool pf)) (pg_storage pf c) batchSize runTimeout"

lemma pg_cleanup_service_simps [simp]:
  "mc_mediaRepo (pg_cleanup_service pf c n t) = NewPostgresMediaRepository (pf_pool pf)"
  "mc_storage (pg_cleanup_service pf c n t) = pg_storage pf c"
  "0 < mc_batchSize (pg_cleanup_service pf c n t)"
  by (simp_all add: pg_cleanup_service_def NewMediaCleanupService_def)

interpretation pg_cleanup: media_cleanup "pg_cleanup_service pf c n t" world_ok media_row
  for pf :: "('e, 'q) platform" and c :: storage_config and n :: int and t :: duration
proof (intro media_cleanup.intro media_cleanup_axioms.intro)
  let ?s = "pg_cleanup_service pf c n t"
  show "media_repository (mc_mediaRepo ?s) world_ok media_row"
    unfolding pg_cleanup_service_simps by (rule pg_media.media_repository_axioms)
  show "stays (quiet world_ok media_row) (s3_ListPage (st_s3 (mc_storage ?s)) b p tok)" for b p tok
    by (simp add: ext_quiet)
  show "stays (quiet world_ok media_row) (s3_DeleteObjects (st_s3 (mc_storage ?s)) b ks)" for b ks
    by (simp add: ext_quiet)
qed

lemma pg_existing_keeps:
  assumes "pool_keeps pool f"
  shows "stays (unchanged (\<lambda>w. f (env w))) (mr_ListExistingIDs (NewPostgresMediaRepository pool) ids)"
  by (auto simp: PostgresMedia_ListExistingIDs_def
      intro!: same.stays_if same.stays_ret pool_keeps_run_stmt assms)

end
