(* ===== verification/Sample_Platform.thy ===== *)
theory Sample_Platform
  imports Room_Service Auth_Service Media_Cleanup
begin

text \<open>
  A small platform to run the services on concrete inputs: a database that always answers, a
  clock that stands still, entropy from a counter, LiveKit, Redis and an object store as lists.
  The witnesses of the properties are evaluated on it.
\<close>

record sample_env =
  se_now :: time
  se_count :: nat
  se_rooms :: "string list"
  se_tokens :: "(string \<times> Claims) list"
  se_redis :: "(string \<times> string) list"
  se_objects :: "(string \<times> string) list"

definition sample_pool :: "sample_env pgpool" where
  "sample_pool = \<lparr>pg_outcome = (\<lambda>e. (Answer, e)), pg_now = se_now\<rparr>"

definition sample_rand :: "nat \<Rightarrow> (sample_env, byte list) prog" where
  "sample_rand n e =
    (Inr (replicate n (word_of_nat (se_count e))), e\<lparr>se_count := se_count e + 1\<rparr>)"

definition sample_crypto :: "sample_env crypto" where
  "sample_crypto =
    \<lparr>jwt_Sign = (\<lambda>cl secret e.
        (Inr (claim_ID cl @ ''.jwt''), e\<lparr>se_tokens := (claim_ID cl @ ''.jwt'', cl) # se_tokens e\<rparr>)),
     jwt_Parse = (\<lambda>t secret e.
        (case map_of (se_tokens e) t of
           None \<Rightarrow> Inl (Driver (OtherError ''token is malformed''))
         | Some cl \<Rightarrow> Inr (cl, True), e)),
     uuid_NewString = (\<lambda>e. (''uuid-'' @ replicate (se_count e) CHR ''x'',
        e\<lparr>se_count := se_count e + 1\<rparr>)),
     bcrypt_Generate = (\<lambda>p e. (Inr (''hash of '' @ p), e)),
     bcrypt_Compare = (\<lambda>h p. h = ''hash of '' @ p),
     rand_Read = sample_rand,
     sha256_Sum = (\<lambda>s. replicate 32 (word_of_nat (length s)))\<rparr>"

definition sample_livekit :: "(sample_env, unit) livekit_sdk" where
  "sample_livekit =
    \<lparr>sdk_CreateRoom = (\<lambda>r e. (Inr (), e\<lparr>se_rooms := crr_Name r # se_rooms e\<rparr>)),
     sdk_DeleteRoom = (\<lambda>n e.
       if n \<in> set (se_rooms e) then (Inr (), e\<lparr>se_rooms := removeAll n (se_rooms e)\<rparr>)
       else (Inl (Driver (OtherError ''room does not exist'')), e)),
     sdk_ToJWT = (\<lambda>t e. (Inr (at_identity t @ ''@'' @ vg_Room (at_videoGrant t)), e)),
     sdk_ReceiveWebhookEvent = (\<lambda>key secret q e. (Inr None, e))\<rparr>"

definition sample_redis :: "sample_env redis_client" where
  "sample_redis =
    \<lparr>redis_Get = (\<lambda>k e. (case map_of (se_redis e) k of None \<Rightarrow> Inl (Driver RedisNil) | Some v \<Rightarrow> Inr v, e)),
     redis_Set = (\<lambda>k v ttl e. (Inr (), e\<lparr>se_redis := (k, v) # se_redis e\<rparr>)),
     redis_Del = (\<lambda>k e. (Inr (), e\<lparr>se_redis := filter (\<lambda>p. fst p \<noteq> k) (se_redis e)\<rparr>)),
     redis_SAdd = (\<lambda>k m e. (Inr (), e\<lparr>se_redis := (k, m) # se_redis e\<rparr>)),
     redis_SRem = (\<lambda>k m e. (Inr (), e\<lparr>se_redis := removeAll (k, m) (se_redis e)\<rparr>))\<rparr>"

text \<open>
  There is one bucket. Its listing has two pages when there are keys that end with an \<open>s\<close>: they come first.
  Keys that end with an exclamation mark are locked, and not deleted.
\<close>

definition sample_first :: "string \<Rightarrow> bool" where
  "sample_first k \<longleftrightarrow> k \<noteq> [] \<and> last k = CHR ''s''"

definition sample_past :: "string \<Rightarrow> string \<Rightarrow> bool" where
  "sample_past t k \<longleftrightarrow> t = ''2'' \<and> sample_first k"

definition sample_locked :: "string \<Rightarrow> bool" where
  "sample_locked k \<longleftrightarrow> k \<noteq> [] \<and> last k = CHR ''!''"

definition sample_page :: "string list \<Rightarrow> string option \<Rightarrow> string option list \<times> string option" where
  "sample_page ks t =
    (if t = None \<and> (\<exists>k \<in> set ks. sample_first k) then (map Some (filter sample_first ks), Some ''2'')
     else (map Some (filter (\<lambda>k. t \<noteq> Some ''2'' \<or> \<not> sample_first k) ks), None))"

definition sample_s3 :: "sample_env s3_client" where
  "sample_s3 =
    \<lparr>s3_PresignPutObject = (\<lambda>i d e. (Inr (''put:'' @ put_Key i), e)),
     s3_PresignGetObject = (\<lambda>b k d e. (Inr (''get:'' @ filter (\<lambda>c. c \<noteq> CHR 0x0A) k), e)),
     s3_HeadObject = (\<lambda>b k e.
       (case map_of (se_objects e) k of
          None \<Rightarrow> Inl (Driver (ApiError ''NotFound'' ''not found''))
        | Some v \<Rightarrow> Inr \<lparr>hoo_ContentLength = Some (int (length v)), hoo_ContentType = Some ''video/mp4'',
            hoo_ETag = None, hoo_LastModified = None\<rparr>, e)),
     s3_GetObject = (\<lambda>b k e.
       (let n = length (takeWhile (\<lambda>o'. fst o' \<noteq> k) (se_objects e))
        in if n < length (se_objects e) then Inr n
           else Inl (Driver (ApiError ''NoSuchKey'' ''no such key'')), e)),
     s3_ReadAll = (\<lambda>h e. (Inr (snd (se_objects e ! h)), e)),
     s3_CloseBody = (\<lambda>h e. ((), e)),
     s3_PutObject = (\<lambda>i f e. (Inr (), e\<lparr>se_objects := (put_Key i, []) # se_objects e\<rparr>)),
     s3_DeleteObject = (\<lambda>b k e. (Inr (), e\<lparr>se_objects := filter (\<lambda>p. fst p \<noteq> k) (se_objects e)\<rparr>)),
     s3_DeleteObjects = (\<lambda>b ks e.
       (Inr (filter sample_locked ks), if b = ''bucket''
         then e\<lparr>se_objects := filter (\<lambda>p. fst p \<in> set ks \<longrightarrow> sample_locked (fst p)) (se_objects e)\<rparr> else e)),
     s3_ListPage = (\<lambda>b p t e.
       (Inr (sample_page (if b = ''bucket'' then filter (\<lambda>k. HasPrefix k p) (map fst (se_objects e)) else []) t), e))\<rparr>"

text \<open>A file system in which every file is there and every directory is empty.\<close>

definition sample_fs :: "sample_env filesystem" where
  "sample_fs =
    \<lparr>fs_Open = (\<lambda>p e. (Inr 0, e)),
     fs_Create = (\<lambda>p e. (Inr 0, e)), fs_Close = (\<lambda>h e. ((), e)), fs_Copy = (\<lambda>d h e. (Inr (), e)),
     fs_MkdirAll = (\<lambda>p e. (Inr (), e)), fs_MkdirTemp = (\<lambda>p q e. (Inr p, e)),
     fs_RemoveAll = (\<lambda>p e. (Inr (), e)), fs_ReadDir = (\<lambda>p e. (Inr [], e)),
     fs_TempDir = (\<lambda>e. (''/tmp'', e))\<rparr>"

definition sample_exec :: "sample_env processes" where
  "sample_exec =
    \<lparr>ex_LookPath = (\<lambda>p e. (Inr p, e)), ex_Run = (\<lambda>p args e. (([], None), e)),
     ex_CombinedOutput = (\<lambda>p args e. (([], None), e))\<rparr>"

definition sample_context :: "sample_env cancel_context" where
  "sample_context =
    \<lparr>cx_Err = (\<lambda>e. (None, e)), cx_Wait = (\<lambda>d e. (False, e)), cx_Remaining = (\<lambda>e. (None, e))\<rparr>"

text \<open>Times in binary, the lowest of 64 bits first.\<close>

fun sample_bits :: "nat \<Rightarrow> int \<Rightarrow> string" where
  "sample_bits 0 t = []"
| "sample_bits (Suc n) t = (if even t then CHR ''0'' else CHR ''1'') # sample_bits n (t div 2)"

definition sample_format :: "time \<Rightarrow> string" where
  "sample_format t = sample_bits 64 t"

definition sample_parse :: "string \<Rightarrow> time option" where
  "sample_parse s = Some (foldr (\<lambda>c n. 2 * n + (if c = CHR ''1'' then 1 else 0)) s 0)"

definition sample_text :: gotext where
  "sample_text =
    \<lparr>gt_ParseFloat = (\<lambda>s. Inr NaN), gt_Quote = (\<lambda>s. s), gt_BadW = (\<lambda>e. []),
     gt_Duration = (\<lambda>d. []), gt_Lower = (\<lambda>s. s),
     gt_FormatRFC3339 = sample_format, gt_ParseRFC3339 = sample_parse\<rparr>"

definition sample_platform :: "(sample_env, unit) platform" where
  "sample_platform =
    \<lparr>pf_pool = sample_pool, pf_clock = (\<lambda>e. (se_now e, e)), pf_crypto = sample_crypto,
     pf_livekit = sample_livekit, pf_redis = sample_redis, pf_s3 = sample_s3,
     pf_fs = sample_fs, pf_exec = sample_exec, pf_context = sample_context,
     pf_text = sample_text\<rparr>"

definition sample_start :: sample_env where
  "sample_start =
    \<lparr>se_now = 1000000 * Second, se_count = 1, se_rooms = [''hall''], se_tokens = [], se_redis = [],
     se_objects = []\<rparr>"

definition sample_alice :: User where
  "sample_alice = \<lparr>user_ID = ''alice'', user_Name = ''Alice'', user_Email = ''a@x'',
    user_EmailConfirmed = False, user_PasswordHash = ''hash of pw'', user_CreatedAt = 0\<rparr>"

definition sample_film :: Media where
  "sample_film = \<lparr>media_ID = ''film'', media_OwnerUserID = ''alice'', media_Title = ''Film'',
    media_OriginalName = ''f.mp4'', media_StorageKey = ''users/alice/media/film/original/f.mp4'',
    media_PlaybackURL = [], media_PreviewURL = None, media_DurationSec = None,
    media_FileSizeBytes = 10, media_MimeType = ''video/mp4'', media_Status = MediaReady,
    media_CreatedAt = 0, media_DeletedAt = None\<rparr>"

definition sample_hall :: Room where
  "sample_hall = \<lparr>room_ID = ''r1'', room_Name = ''hall'', room_OwnerUserID = ''alice'',
    room_MediaID = None, room_Status = RoomActive, room_CreatedAt = 0, room_EndedAt = None\<rparr>"

definition sample_world :: "sample_env world" where
  "sample_world =
    \<lparr>db = \<lparr>media_tbl = [sample_film], rooms_tbl = [sample_hall], users_tbl = [sample_alice],
       sessions_tbl = []\<rparr>,
     jobQueue = [], env = sample_start\<rparr>"

definition sample_rooms :: "(sample_env world, unit) RoomService" where
  "sample_rooms = pg_room_service sample_platform ''key'' ''secret'' [] (10 * Minute) Hour"

definition sample_bucket :: storage_config where
  "sample_bucket = \<lparr>sc_bucket = ''bucket'', sc_region = ''r'', sc_accessKeyID = [],
    sc_secretAccessKey = [], sc_endpoint = [], sc_pathStyle = False, sc_publicURL = []\<rparr>"

definition sample_cleanup :: "sample_env world MediaCleanupService" where
  "sample_cleanup = pg_cleanup_service sample_platform sample_bucket 0 0"

text \<open>A bucket with an object of the film and one of a media the database does not have.\<close>

definition sample_stored :: "sample_env world" where
  "sample_stored = sample_world\<lparr>env := sample_start\<lparr>se_objects :=
    [(''users/alice/media/film/original/f.mp4'', []), (''users/alice/media/gone/hls/s.ts'', [])]\<rparr>\<rparr>"

definition sample_objs :: "sample_env \<Rightarrow> string \<Rightarrow> string set" where
  "sample_objs e b = (if b = ''bucket'' then fst ` set (se_objects e) else {})"

definition sample_auth :: "sample_env world AuthService" where
  "sample_auth = pg_auth_service sample_platform ''secret'' (15 * Minute) (24 * Hour)"

lemmas sample_defs = sample_pool_def sample_rand_def sample_crypto_def sample_livekit_def
  sample_redis_def sample_s3_def sample_fs_def sample_exec_def sample_context_def
  sample_text_def sample_platform_def sample_start_def sample_alice_def
  sample_film_def sample_hall_def sample_world_def sample_rooms_def sample_auth_def
  sample_bucket_def sample_cleanup_def sample_stored_def sample_page_def sample_first_def sample_locked_def

lemma sample_world_ok [simp]: "world_ok sample_world"
  by (simp add: world_ok_def db_ok_def db_unique_def db_foreign_def sample_world_def
      sample_film_def sample_hall_def sample_alice_def)

lemma sample_stored_ok [simp]: "world_ok sample_stored"
  using sample_world_ok by (simp add: world_ok_def sample_stored_def)

lemma sample_page_keys:
  assumes "sample_page ks tok = (contents, next)"
  shows "obj \<in> set contents \<Longrightarrow> \<exists>k \<in> set ks. obj = Some k"
    "k \<in> set ks \<Longrightarrow> ahead sample_past tok k \<Longrightarrow> Some k \<in> set contents \<or> more_pages next \<and> ahead sample_past next k"
    "next = Some t \<Longrightarrow> tok = None \<and> t = ''2'' \<and> (\<exists>k \<in> set ks. Some k \<in> set contents)"
    "next = Some t \<Longrightarrow> Some k \<in> set contents \<Longrightarrow> sample_past t k"
  using assms
  by (auto simp: sample_page_def sample_past_def ahead_def more_pages_def image_iff split: if_splits)

lemma sample_s3_laws:
  "lists_objects sample_s3 sample_objs sample_past" "lists_onward sample_s3 sample_past"
  "deletes_objects sample_s3 sample_objs (\<lambda>b. sample_locked)"
  "s3_no_marker sample_s3" "pool_keeps sample_pool sample_objs"
proof -
  show "lists_objects sample_s3 sample_objs sample_past"
    unfolding lists_objects_def
  proof (intro allI impI)
    fix b p tok e r e'
    assume "s3_ListPage sample_s3 b p tok e = (r, e')"
    then have e': "e' = e" and r: "r = Inr (sample_page
        (if b = ''bucket'' then filter (\<lambda>k. HasPrefix k p) (map fst (se_objects e)) else []) tok)"
      by (simp_all add: sample_s3_def)
    have keys: "set (if b = ''bucket'' then filter (\<lambda>k. HasPrefix k p) (map fst (se_objects e)) else []) =
        {k \<in> sample_objs e b. HasPrefix k p}" by (auto simp: sample_objs_def)
    show "sample_objs e' = sample_objs e \<and> (\<forall>contents next. r = Inr (contents, next) \<longrightarrow>
        (\<forall>obj \<in> set contents. \<exists>k \<in> sample_objs e b. obj = Some k \<and> HasPrefix k p) \<and>
        (\<forall>k \<in> sample_objs e b. HasPrefix k p \<longrightarrow> (\<forall>t. tok = Some t \<longrightarrow> \<not> sample_past t k) \<longrightarrow>
          Some k \<in> set contents \<or> more_pages next \<and> (\<forall>t. next = Some t \<longrightarrow> \<not> sample_past t k)))"
    proof (intro conjI allI impI)
      fix contents "next"
      assume "r = Inr (contents, next)"
      with r have page: "sample_page (if b = ''bucket'' then filter (\<lambda>k. HasPrefix k p) (map fst (se_objects e)) else []) tok =
          (contents, next)" by simp
      show "\<forall>obj \<in> set contents. \<exists>k \<in> sample_objs e b. obj = Some k \<and> HasPrefix k p"
        using sample_page_keys(1) [OF page] unfolding keys by blast
      show "\<forall>k \<in> sample_objs e b. HasPrefix k p \<longrightarrow> (\<forall>t. tok = Some t \<longrightarrow> \<not> sample_past t k) \<longrightarrow>
          Some k \<in> set contents \<or> more_pages next \<and> (\<forall>t. next = Some t \<longrightarrow> \<not> sample_past t k)"
        using sample_page_keys(2) [OF page] unfolding keys ahead_def by blast
    qed (simp add: e')
  qed
  show "lists_onward sample_s3 sample_past"
    unfolding lists_onward_def
  proof (intro allI impI)
    fix b p tok e contents t e'
    assume "s3_ListPage sample_s3 b p tok e = (Inr (contents, Some t), e')"
    then have "sample_page (if b = ''bucket'' then filter (\<lambda>k. HasPrefix k p) (map fst (se_objects e)) else []) tok =
        (contents, Some t)" by (simp add: sample_s3_def)
    from sample_page_keys(3,4) [OF this refl]
    show "(\<exists>k. Some k \<in> set contents \<and> ahead sample_past tok k) \<and> (\<forall>k. Some k \<in> set contents \<longrightarrow> sample_past t k) \<and>
        (\<forall>k. ahead sample_past (Some t) k \<longrightarrow> ahead sample_past tok k)" by auto
  qed
  show "deletes_objects sample_s3 sample_objs (\<lambda>b. sample_locked)"
    by (auto simp: deletes_objects_def sample_s3_def sample_objs_def image_iff)
  show "s3_no_marker sample_s3"
    by (auto simp: s3_no_marker_def sample_s3_def)
  show "pool_keeps sample_pool sample_objs"
    by (simp add: pool_keeps_def sample_pool_def)
qed

end
