(* ===== verification/Room_Properties.thy ===== *)
theory Room_Properties
  imports Sample_Platform
begin

text \<open>
  What the room service guarantees on the program's own repositories, whatever the pool, LiveKit
  and the clock do. The proofs are the lemmas of the locale \<open>room_service\<close> at the interpretation
  \<open>pg_room\<close>; the witnesses run the service on the sample platform.
\<close>

lemmas run_room_defs = sample_defs EndRoomByOwner_def EndRoom_def endRoom_def JoinRoom_def
  UpdateRoomState_def next_media_def EndStaleActiveRooms_def pg_room_service_def
  NewRoomService_def NewClient_def ext_sdk_def ext_def ext_read_def ext_crypto_def
  Client_DeleteRoom_def Client_GenerateToken_def room_token_def PostgresRoom_GetRoomByID_def
  PostgresRoom_EndRoom_def PostgresRoom_UpdateRoomMedia_def PostgresRoom_ListActiveRooms_def
  PostgresMedia_GetByID_def query_row_def exec_affecting_def run_stmt_def no_rows_as_def
  rooms_select_def rooms_end_def rooms_set_media_def rooms_active_def media_select_def
  update_where_def eval_prog

text \<open>
  C14. When \<open>EndRoomByOwner\<close> succeeds the caller owns the room, and the room is over: if it was
  active, the answer is the room with its end at the clock's time and the stored row is the same
  up to the database's time resolution; a room that was not active is returned as it is. No
  other room changes.
\<close>

theorem EndRoomByOwner_ends:
  assumes "world_ok w"
    and "EndRoomByOwner (pg_room_service pf k sec whs timeout ttl) i owner w = (Inr r, w')"
  shows "world_ok w' \<and> (\<exists>room. room_row w i = Some room \<and> room_OwnerUserID room = owner \<and>
    room_Status r \<noteq> RoomActive \<and>
    (if room_Status room = RoomActive
     then \<exists>t. r = room\<lparr>room_Status := RoomEnded, room_EndedAt := Some t\<rparr> \<and>
       room_row w' = (room_row w)(i \<mapsto> room\<lparr>room_Status := RoomEnded, room_EndedAt := Some (timestamptz t)\<rparr>)
     else r = room \<and> room_row w' = room_row w))"
  by (rule pg_room.EndRoomByOwner_Inr [OF assms])

theorem EndRoomByOwner_ends_witness:
  "\<exists>r w'. EndRoomByOwner sample_rooms ''r1'' ''alice'' sample_world = (Inr r, w') \<and>
    room_Status r \<noteq> RoomActive \<and> world_ok w'"
proof -
  have "\<exists>r w'. EndRoomByOwner sample_rooms ''r1'' ''alice'' sample_world = (Inr r, w')"
    by (simp add: run_room_defs)
  then obtain r w' where run: "EndRoomByOwner sample_rooms ''r1'' ''alice'' sample_world = (Inr r, w')"
    by blast
  from EndRoomByOwner_ends [OF sample_world_ok run [unfolded sample_rooms_def]] run
  show ?thesis by blast
qed

text \<open>
  Nobody but its owner ends a room through \<open>EndRoomByOwner\<close>: for a room of somebody else, or
  one that does not exist, the call fails and no room changes, whatever the database, the clock
  and LiveKit answer.
\<close>

theorem EndRoomByOwner_only_owner:
  assumes "world_ok w"
    and "EndRoomByOwner (pg_room_service pf k sec whs timeout ttl) i owner w = (q, w')"
    and "\<And>room. room_row w i = Some room \<Longrightarrow> room_OwnerUserID room \<noteq> owner"
  shows "room_row w' = room_row w \<and> (\<exists>e. q = Inl e)"
  by (rule pg_room.EndRoomByOwner_owner_only [OF assms])

theorem EndRoomByOwner_only_owner_witness:
  "\<exists>q w'. EndRoomByOwner sample_rooms ''r1'' ''bob'' sample_world = (q, w') \<and>
    room_row w' = room_row sample_world"
proof -
  obtain q w' where run: "EndRoomByOwner sample_rooms ''r1'' ''bob'' sample_world = (q, w')"
    by (cases "EndRoomByOwner sample_rooms ''r1'' ''bob'' sample_world")
  have "\<And>room. room_row sample_world ''r1'' = Some room \<Longrightarrow> room_OwnerUserID room \<noteq> ''bob''"
    by (simp add: sample_world_def sample_hall_def room_view_def row_of_def)
  from EndRoomByOwner_only_owner [OF sample_world_ok run [unfolded sample_rooms_def] this] run
  show ?thesis by blast
qed

text \<open>
  C15. \<open>JoinRoom\<close> hands out a token only for a room that exists and is active; the token is what
  the SDK makes, with the configured key, secret and time to live, of a grant for the caller's identity and
  name to join, publish and subscribe in that room's LiveKit room, and in no other; and no room changes.
\<close>

theorem JoinRoom_active_only:
  assumes "world_ok w"
    and "JoinRoom (pg_room_service pf k sec whs timeout ttl) i identity name w = (Inr (jwt, room), w')"
  shows "room_row w i = Some room \<and> room_Status room = RoomActive \<and> room_row w' = room_row w \<and>
    (\<exists>e. sdk_ToJWT (pf_livekit pf)
        \<lparr>at_apiKey = k, at_secret = sec, at_identity = identity, at_name = name,
         at_videoGrant = \<lparr>vg_Room = room_Name room, vg_RoomJoin = True, vg_CanPublish = Some True,
           vg_CanSubscribe = Some True\<rparr>,
         at_validFor = ttl\<rparr> e = (Inr jwt, env w'))"
proof -
  have run: "m (env v) = (Inr x, env v')" if "ext m v = (Inr x, v')" for m and v v' :: "'a world" and x :: string
    using that by (auto simp: ext_def split: prod.splits)
  from pg_room.JoinRoom_Inr [OF assms] show ?thesis by (auto simp: room_token_def NewClient_def dest!: run)
qed

theorem JoinRoom_active_only_witness:
  "\<exists>jwt room w'. JoinRoom sample_rooms ''r1'' ''bob'' ''Bob'' sample_world = (Inr (jwt, room), w') \<and>
    room_Status room = RoomActive"
proof -
  have "\<exists>jwt room w'. JoinRoom sample_rooms ''r1'' ''bob'' ''Bob'' sample_world = (Inr (jwt, room), w')"
    by (simp add: run_room_defs)
  then obtain jwt room w' where
      run: "JoinRoom sample_rooms ''r1'' ''bob'' ''Bob'' sample_world = (Inr (jwt, room), w')" by blast
  from JoinRoom_active_only [OF sample_world_ok run [unfolded sample_rooms_def]] run
  show ?thesis by blast
qed

text \<open>
  C16. \<open>UpdateRoomState\<close> succeeds only for the owner of an active room. It replaces the room's
  media and nothing else: by none in conference mode, and in movie mode by a media that exists,
  is not deleted, is ready and belongs to the owner.
\<close>

theorem UpdateRoomState_guards:
  assumes "world_ok w"
    and "UpdateRoomState (pg_room_service pf k sec whs timeout ttl) i owner mode mediaID w = (Inr r, w')"
  shows "\<exists>room nm. room_row w i = Some room \<and> room_OwnerUserID room = owner \<and>
    room_Status room = RoomActive \<and> r = room\<lparr>room_MediaID := nm\<rparr> \<and>
    world_ok w' \<and> room_row w' = (room_row w)(i \<mapsto> r) \<and>
    (mode = ''conference'' \<and> nm = None \<or>
     mode = ''movie'' \<and> (\<exists>j m. mediaID = Some j \<and> j \<noteq> [] \<and> nm = Some j \<and>
       media_row w j = Some m \<and> live m \<and> media_OwnerUserID m = owner \<and> media_Status m = MediaReady))"
  by (rule pg_room.UpdateRoomState_Inr [OF assms])

theorem UpdateRoomState_guards_witness:
  "\<exists>r w'. UpdateRoomState sample_rooms ''r1'' ''alice'' ''movie'' (Some ''film'') sample_world = (Inr r, w') \<and>
    room_MediaID r = Some ''film'' \<and> world_ok w'"
proof -
  have "\<exists>r w'. UpdateRoomState sample_rooms ''r1'' ''alice'' ''movie'' (Some ''film'') sample_world = (Inr r, w')"
    by (simp add: run_room_defs live_def)
  then obtain r w' where run:
      "UpdateRoomState sample_rooms ''r1'' ''alice'' ''movie'' (Some ''film'') sample_world = (Inr r, w')"
    by blast
  from UpdateRoomState_guards [OF sample_world_ok run [unfolded sample_rooms_def]] run
  show ?thesis by auto
qed

text \<open>
  C17. The background job \<open>EndStaleActiveRooms\<close>, when it can list the rooms: rooms that are not
  active and rooms younger than the limit (24 hours when it is not positive) are not touched,
  every older room is no longer active unless it is one of the failures it reports, and it
  reports at most as many rooms as there are old ones.
\<close>

theorem EndStaleActiveRooms_closes:
  assumes "world_ok w"
    and "EndStaleActiveRooms (pg_room_service pf k sec whs timeout ttl) d0 w = (Inr (closedCount, failed), w')"
    and "d = (if d0 \<le> 0 then 24 * Hour else d0)"
  shows "\<exists>rooms now. (\<exists>u u'. ext_read (pf_clock pf) u = (now, u')) \<and> distinct (map room_ID rooms) \<and>
    set rooms = {r. room_row w (room_ID r) = Some r \<and> room_Status r = RoomActive} \<and>
    world_ok w' \<and> 0 \<le> closedCount \<and> 0 \<le> failed \<and>
    closedCount + failed \<le> int (length (filter (stale now d) rooms)) \<and>
    (\<forall>i. i \<notin> room_ID ` set (filter (stale now d) rooms) \<longrightarrow> room_row w' i = room_row w i) \<and>
    int (length (filter (\<lambda>r. stale now d r \<and> still_active (room_row w') r) rooms)) \<le> failed"
  using pg_room.EndStaleActiveRooms_Inr [OF assms] by simp

theorem EndStaleActiveRooms_closes_witness:
  "\<exists>w'. EndStaleActiveRooms sample_rooms 0 sample_world = (Inr (1, 0), w') \<and> world_ok w'"
proof -
  have "\<exists>w'. EndStaleActiveRooms sample_rooms 0 sample_world = (Inr (1, 0), w')"
    by (simp add: run_room_defs time_Sub_def)
  then obtain w' where run: "EndStaleActiveRooms sample_rooms 0 sample_world = (Inr (1, 0), w')"
    by blast
  from EndStaleActiveRooms_closes [OF sample_world_ok run [unfolded sample_rooms_def] refl] run
  show ?thesis by blast
qed

end
