(* ===== verification/Auth_Properties.thy ===== *)
theory Auth_Properties
  imports Sample_Platform
begin

text \<open>
  What registration, login and token refresh guarantee on the program's own repositories. The
  proofs are the lemmas of the locale \<open>auth_service\<close> at the interpretation \<open>pg_auth\<close>.
\<close>

lemmas run_auth_defs = sample_defs Login_def Refresh_def Register_def session_over_def
  generateRefreshToken_def hashToken_def IssueToken_def IssueAccessToken_def access_claims_def
  pg_auth_service_def NewAuthService_def NewJWTService_def ext_def ext_read_def ext_crypto_def
  PostgresUser_GetByEmail_def PostgresUser_CreateUser_def PostgresSession_Store_def
  PostgresSession_GetByRefreshTokenHash_def PostgresSession_Rotate_def query_row_def
  exec_affecting_def run_stmt_def no_rows_as_def users_select_def users_insert_def
  sessions_insert_def sessions_select_def sessions_rotate_def stored_session_def rotated_def
  update_where_def unique_violation_as_exists_def eval_prog Let_def

text \<open>
  A login that succeeds was made with the password of the user of that address, and stores
  exactly one session: new, unrevoked, version 1, expiring when the refresh lifetime is over,
  with the hash of the refresh token the client gets. No other session changes.
\<close>

lemma Login_stores_session:
  assumes "world_ok w" and "Login (pg_auth_service pf secret a r) inp w = (Inr l, w')"
  shows "world_ok w' \<and> (\<exists>user i jti now. user_row w (li_Email inp) = Some user \<and>
    bcrypt_Compare (pf_crypto pf) (user_PasswordHash user) (li_Password inp) \<and>
    lr_UserID l = user_ID user \<and> lr_Name l = user_Name user \<and> sess_row w i = None \<and>
    sess_row w' = (sess_row w)(i \<mapsto> stored_session
      \<lparr>sess_ID = i, sess_UserID = user_ID user,
       sess_RefreshTokenHash = hashToken (pf_crypto pf) (lr_RefreshToken l),
       sess_AccessJTI = jti, sess_Version = 1, sess_IssuedAt = now,
       sess_ExpiresAt = now + r, sess_RevokedAt = None\<rparr>))"
  using pg_auth.Login_Inr [OF assms] by (simp add: hashToken_def)

definition sample_login :: LoginInput where
  "sample_login = \<lparr>li_Email = ''a@x'', li_Password = ''pw''\<rparr>"

lemma Login_stores_session_witness:
  "\<exists>l w'. Login sample_auth sample_login sample_world = (Inr l, w') \<and> lr_UserID l = ''alice'' \<and>
    world_ok w'"
proof -
  have "\<exists>l w'. Login sample_auth sample_login sample_world = (Inr l, w') \<and> lr_UserID l = ''alice''"
    by (simp add: run_auth_defs sample_login_def)
  then obtain l w' where run: "Login sample_auth sample_login sample_world = (Inr l, w')"
    and l: "lr_UserID l = ''alice''" by blast
  from Login_stores_session [OF sample_world_ok run [unfolded sample_auth_def]] run l
  show ?thesis by blast
qed

text \<open>
  C18. A login with a wrong password, or for an address nobody has, fails and changes no session,
  and the two cases are reported alike, as invalid credentials, unless the database call itself
  fails.
\<close>

theorem Login_rejects:
  assumes "world_ok w" and "Login (pg_auth_service pf secret a r) inp w = (q, w')"
    and "\<And>user. user_row w (li_Email inp) = Some user \<Longrightarrow>
      \<not> bcrypt_Compare (pf_crypto pf) (user_PasswordHash user) (li_Password inp)"
  shows "sess_row w' = sess_row w \<and> (\<exists>e. q = Inl e) \<and>
    (\<forall>u w1. PostgresUser_GetByEmail (pf_pool pf) (li_Email inp) w = (u, w1) \<longrightarrow>
      (case u of Inl e \<Rightarrow> Is e ErrNotFound | Inr _ \<Rightarrow> True) \<longrightarrow> q = Inl ErrInvalidCredentials)"
  using pg_auth.Login_wrong_password [OF assms(1,2)] assms(3) by simp

theorem Login_rejects_witness:
  "\<exists>w'. Login sample_auth (sample_login\<lparr>li_Password := ''guess''\<rparr>) sample_world =
      (Inl ErrInvalidCredentials, w') \<and> sess_row w' = sess_row sample_world"
proof -
  let ?in = "sample_login\<lparr>li_Password := ''guess''\<rparr>"
  have "\<exists>w'. Login sample_auth ?in sample_world = (Inl ErrInvalidCredentials, w')"
    by (simp add: run_auth_defs sample_login_def)
  then obtain w' where run: "Login sample_auth ?in sample_world = (Inl ErrInvalidCredentials, w')" by blast
  have "\<And>user. user_row sample_world (li_Email ?in) = Some user \<Longrightarrow>
      \<not> bcrypt_Compare (pf_crypto sample_platform) (user_PasswordHash user) (li_Password ?in)"
    by (auto simp: sample_defs sample_login_def user_view_def row_of_def)
  from Login_rejects [OF sample_world_ok run [unfolded sample_auth_def] this] run show ?thesis by blast
qed

text \<open>
  C19. A refresh that succeeds used the token of a session that is neither revoked nor expired.
  The session keeps its owner and goes to its next version, which the answer reports, with the
  hash of the new token in place of the old one. No other session changes.
\<close>

theorem Refresh_rotates:
  assumes "world_ok w" and "Refresh (pg_auth_service pf secret a ttl) tok w = (Inr r, w')"
  shows "world_ok w' \<and> (\<exists>session t jti now.
    sess_row w (sess_ID session) = Some session \<and>
    sess_RefreshTokenHash session = hashToken (pf_crypto pf) tok \<and>
    sess_RevokedAt session = None \<and> \<not> sess_ExpiresAt session < t \<and>
    (\<exists>u u'. ext_read (pf_clock pf) u = (t, u')) \<and>
    rr_UserID r = sess_UserID session \<and> rr_Version r = sess_Version session + 1 \<and>
    sess_row w' = (sess_row w)(sess_ID session \<mapsto>
      rotated jti (hashToken (pf_crypto pf) (rr_RefreshToken r)) now (now + ttl) session))"
  using pg_auth.Refresh_Inr [OF assms] by (simp add: hashToken_def)

definition sample_session :: Session where
  "sample_session =
    \<lparr>sess_ID = ''s1'', sess_UserID = ''alice'',
     sess_RefreshTokenHash = hashToken (pf_crypto sample_platform) ''token'',
     sess_AccessJTI = ''jti'', sess_Version = 1, sess_IssuedAt = 0,
     sess_ExpiresAt = 2000000 * Second, sess_RevokedAt = None\<rparr>"

definition sample_logged_in :: "sample_env world" where
  "sample_logged_in = sample_world\<lparr>db := (db sample_world)\<lparr>sessions_tbl := [sample_session]\<rparr>\<rparr>"

lemma sample_logged_in_ok [simp]: "world_ok sample_logged_in"
  by (simp add: world_ok_def db_ok_def db_unique_def db_foreign_def sample_logged_in_def
      sample_session_def sample_world_def sample_film_def sample_hall_def sample_alice_def)

lemma sample_hashes: "EncodeToString (replicate 32 64) \<noteq> EncodeToString (replicate 32 5)"
proof
  assume "EncodeToString (replicate 32 64) = EncodeToString (replicate 32 5)"
  then have "replicate 32 (64 :: byte) = replicate 32 5" by (rule EncodeToString_inj)
  then show False by (simp add: replicate_eq_replicate)
qed

lemma sample_refresh:
  "\<exists>r w'. Refresh sample_auth ''token'' sample_logged_in = (Inr r, w') \<and>
    hashToken (pf_crypto sample_platform) (rr_RefreshToken r) \<noteq>
      hashToken (pf_crypto sample_platform) ''token''"
  by (simp add: run_auth_defs sample_logged_in_def sample_session_def sample_hashes)

theorem Refresh_rotates_witness:
  "\<exists>r w'. Refresh sample_auth ''token'' sample_logged_in = (Inr r, w') \<and> world_ok w'"
proof -
  from sample_refresh obtain r w' where run: "Refresh sample_auth ''token'' sample_logged_in = (Inr r, w')"
    by blast
  from Refresh_rotates [OF sample_logged_in_ok run [unfolded sample_auth_def]] run show ?thesis by blast
qed

text \<open>
  A user's address stays taken: registering it again fails and changes no user.
\<close>

theorem Register_taken:
  assumes "world_ok w" and "Register (pg_auth_service pf secret a ttl) inp w = (q, w')"
    and "user_row w (ri_Email inp) = Some u"
  shows "\<exists>e. q = Inl e"
  using pg_auth.Register_Inr [OF assms(1)] assms(2,3) by (cases q) fastforce+

definition sample_register :: RegisterInput where
  "sample_register = \<lparr>ri_Name = ''Eve'', ri_Email = ''a@x'', ri_Password = ''x''\<rparr>"

theorem Register_taken_witness:
  "\<exists>e. fst (Register sample_auth sample_register sample_world) = Inl e"
proof -
  obtain q w' where run: "Register sample_auth sample_register sample_world = (q, w')"
    by (cases "Register sample_auth sample_register sample_world")
  have "user_row sample_world (ri_Email sample_register) = Some sample_alice"
    by (simp add: sample_world_def sample_alice_def sample_register_def user_view_def row_of_def)
  from Register_taken [OF sample_world_ok run [unfolded sample_auth_def] this] run
  show ?thesis by simp
qed

text \<open>
  C5. \<open>CreateUser\<close> never reports \<open>ErrAlreadyExists\<close>: the unique violation comes as the error
  type of \<open>pgx/v5\<close>, which the assertion on \<open>github.com/jackc/pgconn\<close> does not match, so a taken
  address is reported as a plain database error.
\<close>

theorem CreateUser_duplicate_unreported:
  "fst (PostgresUser_CreateUser pool u w) \<noteq> Inl ErrAlreadyExists \<and>
    (user_Email u \<in> user_Email ` set (users_tbl (db w)) \<and> fst (pg_outcome pool (env w)) = Answer \<longrightarrow>
      (\<exists>msg. fst (PostgresUser_CreateUser pool u w) = Inl (Driver (PgErrorV5 ''23505'' msg))))"
proof
  show "fst (PostgresUser_CreateUser pool u w) \<noteq> Inl ErrAlreadyExists"
  proof
    assume "fst (PostgresUser_CreateUser pool u w) = Inl ErrAlreadyExists"
    then obtain w' where "PostgresUser_CreateUser pool u w = (Inl ErrAlreadyExists, w')"
      by (cases "PostgresUser_CreateUser pool u w") simp
    then obtain e where e: "unique_violation_as_exists e = ErrAlreadyExists"
      and q: "query_row pool (users_insert u) w = (Inl e, w')"
      unfolding PostgresUser_CreateUser_def mapErrP_Inl by metis
    from q have "(\<exists>code msg. e = Driver (PgErrorV5 code msg)) \<or> (\<exists>msg. e = Driver (OtherError msg)) \<or>
        e = Driver NoRows"
      by (auto simp: query_row_def bindP_def retP_def failP_def
          split: prod.splits sum.splits list.splits dest!: run_stmt_InlD)
    with e show False by (auto simp: unique_violation_as_exists_def)
  qed
  show "user_Email u \<in> user_Email ` set (users_tbl (db w)) \<and> fst (pg_outcome pool (env w)) = Answer \<longrightarrow>
      (\<exists>msg. fst (PostgresUser_CreateUser pool u w) = Inl (Driver (PgErrorV5 ''23505'' msg)))"
    by (auto simp: PostgresUser_CreateUser_def query_row_def run_stmt_def users_insert_def Let_def
        unique_violation_as_exists_def eval_prog split: prod.splits)
qed

theorem CreateUser_duplicate_unreported_witness:
  "\<exists>msg. fst (PostgresUser_CreateUser sample_pool sample_alice sample_world) =
    Inl (Driver (PgErrorV5 ''23505'' msg))"
  using CreateUser_duplicate_unreported [of sample_pool sample_alice sample_world]
  by (simp add: sample_world_def sample_pool_def)

end
