(* ===== verification/Storage_Properties.thy ===== *)
theory Storage_Properties
  imports Sample_Platform
begin

text \<open>
  What deleting by prefix and the clean-up job do to the object store, for every store that meets
  the laws \<open>lists_objects\<close>, \<open>lists_onward\<close> and \<open>deletes_objects\<close>: what S3 documents, per-key errors
  of a batch delete included.
\<close>

lemmas run_storage_defs = sample_defs DeleteObjectsByPrefix_def flush_def object_key_def
  more_pages_def pg_storage_def NewStorageService_def ext_s3_def ext_def eval_prog Let_def

text \<open>
  C21. A \<open>DeleteObjectsByPrefix\<close> that succeeds has deleted objects of its (trimmed) prefix and of its
  bucket only, over however many pages and batches; and what it leaves below the prefix are
  exactly the objects it cannot have got rid of: those the store may refuse with an error of their own in an
  answer that succeeds, which the code does not look at, and those whose key has white space around it,
  which it trims before it deletes.
\<close>

theorem DeleteObjectsByPrefix_exact:
  assumes "lists_objects (pf_s3 pf) objs past" and "deletes_objects (pf_s3 pf) objs refused"
    and "solid (TrimSpace p)"
    and "DeleteObjectsByPrefix fuel (pg_storage pf c) p w = (Inr (), w')"
  shows "(\<forall>b. b \<noteq> sc_bucket c \<longrightarrow> objs (env w') b = objs (env w) b) \<and>
    objs (env w') (sc_bucket c) \<subseteq> objs (env w) (sc_bucket c) \<and>
    (\<forall>k \<in> objs (env w) (sc_bucket c). \<not> HasPrefix k (TrimSpace p) \<longrightarrow> k \<in> objs (env w') (sc_bucket c)) \<and>
    (\<forall>k \<in> objs (env w') (sc_bucket c). HasPrefix k (TrimSpace p) \<longrightarrow> refused (sc_bucket c) k \<or> TrimSpace k \<noteq> k)"
proof -
  from assms(4) have "DeleteObjectsByPrefix fuel (pg_storage pf c) (TrimSpace p) w = (Inr (), w')"
    unfolding DeleteObjectsByPrefix_def solid_TrimSpace [OF assms(3)] .
  from DeleteObjectsByPrefix_Inr [of "pg_storage pf c", unfolded pg_storage_simps, OF lists_objects_world [OF assms(1)]
      deletes_objects_world [OF assms(2)] assms(3) this]
  show ?thesis by simp
qed

text \<open>
  A bucket with objects of two media: the listing of the second has two pages, one of its objects is
  locked and one has a key that ends with a blank.
\<close>

definition sample_crowded :: "sample_env world" where
  "sample_crowded = sample_world\<lparr>env := sample_start\<lparr>se_objects := map (\<lambda>k. (k, []))
    [''users/alice/media/film/original/f.mp4'', ''users/alice/media/gone/hls/s.ts'',
     ''users/alice/media/gone/hls/index.m3u8'', ''users/alice/media/gone/a!'', ''users/alice/media/gone/b '']\<rparr>\<rparr>"

lemma sample_delete:
  "\<exists>w'. DeleteObjectsByPrefix 3 (pg_storage sample_platform sample_bucket) '' users/alice/media/gone/''
    sample_crowded = (Inr (), w')"
proof -
  have "isl (fst (DeleteObjectsByPrefix 3 (pg_storage sample_platform sample_bucket) '' users/alice/media/gone/''
    sample_crowded)) = False" by code_simp
  then show ?thesis
    by (cases "DeleteObjectsByPrefix 3 (pg_storage sample_platform sample_bucket) '' users/alice/media/gone/'' sample_crowded")
      (metis (full_types) fst_conv isl_def old.unit.exhaust sum.collapse(2))
qed

lemma sample_laws:
  "lists_objects (pf_s3 sample_platform) sample_objs sample_past"
  "lists_onward (pf_s3 sample_platform) sample_past" "s3_no_marker (pf_s3 sample_platform)"
  "deletes_objects (pf_s3 sample_platform) sample_objs (\<lambda>b. sample_locked)"
  "pool_keeps (pf_pool sample_platform) sample_objs"
  using sample_s3_laws by (simp_all add: sample_platform_def)

theorem DeleteObjectsByPrefix_exact_witness:
  "\<exists>w'. DeleteObjectsByPrefix 3 (pg_storage sample_platform sample_bucket) '' users/alice/media/gone/''
      sample_crowded = (Inr (), w') \<and>
    sample_objs (env w') ''bucket'' \<inter> {''users/alice/media/gone/hls/s.ts'', ''users/alice/media/gone/hls/index.m3u8''} = {}"
proof -
  from sample_delete obtain w' where run: "DeleteObjectsByPrefix 3 (pg_storage sample_platform sample_bucket)
      '' users/alice/media/gone/'' sample_crowded = (Inr (), w')" by blast
  have trim: "TrimSpace '' users/alice/media/gone/'' = ''users/alice/media/gone/''" by code_simp
  have keys: "TrimSpace k = k \<and> HasPrefix k ''users/alice/media/gone/'' \<and> \<not> sample_locked k"
    if "k \<in> {''users/alice/media/gone/hls/s.ts'', ''users/alice/media/gone/hls/index.m3u8''}" for k
    using that by (elim insertE emptyE; hypsubst) code_simp+
  have solid: "solid (TrimSpace '' users/alice/media/gone/'')" unfolding trim by (simp add: solid_def graphic_def)
  from DeleteObjectsByPrefix_exact [OF sample_laws(1,4) solid run, unfolded trim]
  have "\<forall>k \<in> sample_objs (env w') ''bucket''. HasPrefix k ''users/alice/media/gone/'' \<longrightarrow>
      sample_locked k \<or> TrimSpace k \<noteq> k" by (simp add: sample_bucket_def)
  with keys have "sample_objs (env w') ''bucket'' \<inter>
      {''users/alice/media/gone/hls/s.ts'', ''users/alice/media/gone/hls/index.m3u8''} = {}" by blast
  with run show ?thesis by blast
qed

text \<open>
  C22. The paging loops end: when every page that is followed by another one shows an object that was
  not yet shown and every continuation token lies behind what its page shows, as S3 lists keys, then a
  deletion or a listing of the media makes at most one more request than the bucket has objects of the
  prefix, whatever the calls answer otherwise.
\<close>

theorem DeleteObjectsByPrefix_returns:
  assumes "lists_objects (pf_s3 pf) objs past" and "lists_onward (pf_s3 pf) past" and "s3_no_marker (pf_s3 pf)"
    and "deletes_objects (pf_s3 pf) objs refused" and "finite (objs (env w) (sc_bucket c))"
  shows "(card {k \<in> objs (env w) (sc_bucket c). HasPrefix k (TrimSpace p)} < fuel \<longrightarrow>
      fst (DeleteObjectsByPrefix fuel (pg_storage pf c) p w) \<noteq> Inl OutOfFuel) \<and>
    (card {k \<in> objs (env w) (sc_bucket c). HasPrefix k ''users/''} < fuel \<longrightarrow>
      fst (ListMediaPrefixes fuel (pg_storage pf c) w) \<noteq> Inl OutOfFuel)"
  using DeleteObjectsByPrefix_enough [of "pg_storage pf c" "\<lambda>w. objs (env w)" past refused w p fuel]
    ListMediaPrefixes_enough [of "pg_storage pf c" "\<lambda>w. objs (env w)" past w fuel] assms
  by (simp add: lists_objects_world lists_onward_world s3_no_marker_world deletes_objects_world)

theorem DeleteObjectsByPrefix_returns_witness:
  "fst (DeleteObjectsByPrefix 6 (pg_storage sample_platform sample_bucket) ''users/alice/media/gone/'' sample_crowded) \<noteq>
    Inl OutOfFuel \<and> fst (DeleteObjectsByPrefix 1 (pg_storage sample_platform sample_bucket) ''users/alice/media/gone/''
      sample_crowded) = Inl OutOfFuel"
proof -
  have objs: "sample_objs (env sample_crowded) (sc_bucket sample_bucket) = fst ` set (se_objects (env sample_crowded))"
    by (simp add: sample_objs_def sample_bucket_def)
  have "card {k \<in> fst ` set (se_objects (env sample_crowded)). HasPrefix k q} \<le> length (se_objects (env sample_crowded))" for q
    by (rule order_trans [OF card_mono [OF _ Collect_restrict]], simp)
      (metis card_length length_map list.set_map)
  moreover have "length (se_objects (env sample_crowded)) < 6" by (simp add: sample_crowded_def)
  ultimately have "card {k \<in> fst ` set (se_objects (env sample_crowded)). HasPrefix k q} < 6" for q
    by (rule order_le_less_trans)
  then have "fst (DeleteObjectsByPrefix 6 (pg_storage sample_platform sample_bucket) ''users/alice/media/gone/'' sample_crowded)
      \<noteq> Inl OutOfFuel"
    using DeleteObjectsByPrefix_returns [OF sample_laws(1-4), of sample_crowded sample_bucket] objs by simp
  moreover have "fst (DeleteObjectsByPrefix 1 (pg_storage sample_platform sample_bucket) ''users/alice/media/gone/''
      sample_crowded) = Inl OutOfFuel" by code_simp
  ultimately show ?thesis by simp
qed

text \<open>
  C23. \<open>extractMediaPrefix\<close> reads back from every key below the prefix of a media the identifier
  of the media and exactly the prefix that \<open>DeleteMedia\<close> and the clean-up delete.
\<close>

theorem extractMediaPrefix_roundtrip:
  assumes "name_ok owner" and "name_ok i"
  shows "extractMediaPrefix (path_Join [''users'', owner, ''media'', i] @ ''/'' @ rest) =
    Some (i, path_Join [''users'', owner, ''media'', i] @ ''/'')"
proof -
  have "media_object owner i (media_prefix owner i @ rest)"
    by (simp add: media_object_def HasPrefix_def)
  from extract_media_object [OF assms this] show ?thesis by (simp add: media_prefix_def)
qed

lemma sample_names: "name_ok ''alice''" "name_ok ''film''" "name_ok ''gone''"
  by (simp_all add: name_ok_def clean_name_def solid_def graphic_def)

theorem extractMediaPrefix_roundtrip_witness:
  "extractMediaPrefix (path_Join [''users'', ''alice'', ''media'', ''film''] @ ''/'' @ ''hls/s.ts'') =
    Some (''film'', path_Join [''users'', ''alice'', ''media'', ''film''] @ ''/'')"
  by (rule extractMediaPrefix_roundtrip [OF sample_names(1,2)])

text \<open>
  C3. The clean-up never touches the objects of a media that is in the database and not deleted,
  whatever fails on the way, when the keys below \<open>users/\<close> are of the program's making and talking
  to the database does not change the object store.
\<close>

theorem RunOnce_keeps_live:
  assumes "world_ok w" and "lists_objects (pf_s3 pf) objs past" and "deletes_objects (pf_s3 pf) objs refused"
    and "placed (objs (env w) (sc_bucket c))" and "pool_keeps (pf_pool pf) objs"
    and "\<And>xs. mset (order xs) = mset xs"
    and "RunOnce fuel order (pg_cleanup_service pf c n t) w = (r, w')"
    and "media_row w i = Some m" and "live m" and "name_ok owner" and "name_ok i"
    and "k \<in> objs (env w) (sc_bucket c)" and "media_object owner i k" and "HasPrefix k ''users/''"
  shows "k \<in> objs (env w') (sc_bucket c)"
  by (rule pg_cleanup.RunOnce_keeps [where objs = "\<lambda>w. objs (env w)" and pf = pf and c = c and n = n
      and t = t, unfolded pg_cleanup_service_simps(1,2) pg_storage_simps, OF assms(1)
      lists_objects_world [OF assms(2)] deletes_objects_world [OF assms(3)] assms(4)
      pg_existing_keeps [OF assms(5)] assms(6) pg_cleanup_service_simps(3) assms(7-11,13,12,14)])

lemma sample_placed: "placed (sample_objs (env sample_stored) (sc_bucket sample_bucket))"
proof -
  have "media_object ''alice'' ''film'' ''users/alice/media/film/original/f.mp4''"
    "media_object ''alice'' ''gone'' ''users/alice/media/gone/hls/s.ts''"
    by (simp_all add: media_object_def HasPrefix_def media_prefix_text sample_names)
  with sample_names show ?thesis
    by (auto simp: placed_def sample_objs_def sample_stored_def sample_start_def sample_bucket_def)
qed

lemma sample_film_row: "media_row sample_stored ''film'' = Some sample_film" "live sample_film"
  by (simp_all add: sample_stored_def sample_world_def media_view_def row_of_def sample_film_def live_def)

theorem RunOnce_keeps_live_witness:
  "''users/alice/media/film/original/f.mp4'' \<in>
    sample_objs (env (snd (RunOnce 2 (\<lambda>xs. xs) sample_cleanup sample_stored))) ''bucket''"
proof -
  let ?k = "''users/alice/media/film/original/f.mp4''"
  obtain r w' where run: "RunOnce 2 (\<lambda>xs. xs) sample_cleanup sample_stored = (r, w')"
    by (cases "RunOnce 2 (\<lambda>xs. xs) sample_cleanup sample_stored")
  have k: "?k \<in> sample_objs (env sample_stored) (sc_bucket sample_bucket)"
    by (simp add: sample_objs_def sample_stored_def sample_start_def sample_bucket_def)
  have obj: "media_object ''alice'' ''film'' ?k" "HasPrefix ?k ''users/''"
    by (simp_all add: media_object_def HasPrefix_def media_prefix_text sample_names)
  from RunOnce_keeps_live [OF sample_stored_ok sample_laws(1,4) sample_placed sample_laws(5) _ run [unfolded sample_cleanup_def]
      sample_film_row sample_names(1,2) k obj]
  have "?k \<in> sample_objs (env w') (sc_bucket sample_bucket)" by simp
  with run show ?thesis by (simp add: sample_bucket_def)
qed

text \<open>
  C24. A clean-up that ends without an error has scanned every media whose objects the listing shows, and its
  counts add up: each media that is deleted or not in the database is counted once, as deleted or as failed.
  It removes objects below the prefixes of such media only. When none has failed, what is left below these
  prefixes are objects the store may refuse, objects whose key has white space around it, and objects of an
  identifier that occurs under a second owner. The keys below \<open>users/\<close> are of the program's making.
\<close>

theorem RunOnce_deletes_orphans:
  assumes "world_ok w" and "lists_objects (pf_s3 pf) objs past" and "deletes_objects (pf_s3 pf) objs refused"
    and "placed (objs (env w) (sc_bucket c))" and "pool_keeps (pf_pool pf) objs"
    and "\<And>xs. mset (order xs) = mset xs"
    and "RunOnce fuel order (pg_cleanup_service pf c n t) w = (Inr (scanned, deleted, failed), w')"
  shows "0 \<le> deleted \<and> 0 \<le> failed \<and> scanned = int (card (found_media (objs (env w) (sc_bucket c)))) \<and>
    deleted + failed = int (card {i \<in> found_media (objs (env w) (sc_bucket c)). \<not> alive media_row w i}) \<and>
    objs (env w') (sc_bucket c) \<subseteq> objs (env w) (sc_bucket c) \<and>
    (\<forall>k \<in> objs (env w) (sc_bucket c). (\<forall>owner i. \<not> orphan_object media_row w owner i k) \<longrightarrow>
      k \<in> objs (env w') (sc_bucket c)) \<and>
    (failed = 0 \<longrightarrow> (\<forall>k \<in> objs (env w') (sc_bucket c). \<forall>owner i. orphan_object media_row w owner i k \<longrightarrow>
      refused (sc_bucket c) k \<or> TrimSpace k \<noteq> k \<or>
      (\<exists>other \<noteq> owner. \<exists>k2 \<in> objs (env w) (sc_bucket c). name_ok other \<and> media_object other i k2)))"
  by (rule pg_cleanup.RunOnce_Inr [where objs = "\<lambda>w. objs (env w)" and pf = pf and c = c and n = n
      and t = t, unfolded pg_cleanup_service_simps(1,2) pg_storage_simps, OF assms(1)
      lists_objects_world [OF assms(2)] deletes_objects_world [OF assms(3)] assms(4)
      pg_existing_keeps [OF assms(5)] assms(6) pg_cleanup_service_simps(3) assms(7)])

lemma sample_one_owner:
  assumes "k \<in> sample_objs (env sample_stored) (sc_bucket sample_bucket)" "media_object owner i k"
    "name_ok owner" "name_ok i"
  shows "owner = ''alice''"
proof -
  have "media_object ''alice'' ''film'' ''users/alice/media/film/original/f.mp4''"
    "media_object ''alice'' ''gone'' ''users/alice/media/gone/hls/s.ts''"
    by (simp_all add: media_object_def HasPrefix_def media_prefix_text sample_names)
  with assms(1) obtain j where j: "media_object ''alice'' j k" "name_ok j"
    using sample_names by (auto simp: sample_objs_def sample_stored_def sample_start_def sample_bucket_def)
  from extract_media_object [OF assms(3,4,2)] extract_media_object [OF sample_names(1) j(2,1)]
  have "i = j \<and> media_prefix owner i = media_prefix ''alice'' j" by auto
  then have "''users/'' @ owner @ ''/media/'' @ i @ ''/'' = ''users/'' @ ''alice'' @ ''/media/'' @ i @ ''/''"
    using media_prefix_text [OF assms(3,4)] media_prefix_text [OF sample_names(1) assms(4)] by metis
  then show ?thesis by (simp only: same_append_eq append_same_eq)
qed

theorem RunOnce_deletes_orphans_witness:
  "\<exists>w'. RunOnce 2 (\<lambda>xs. xs) sample_cleanup sample_stored = (Inr (2, 1, 0), w') \<and>
    ''users/alice/media/gone/hls/s.ts'' \<notin> sample_objs (env w') (sc_bucket sample_bucket)"
proof -
  let ?k = "''users/alice/media/gone/hls/s.ts''" and ?b = "sc_bucket sample_bucket"
  have "fst (RunOnce 2 (\<lambda>xs. xs) sample_cleanup sample_stored) = Inr (2, 1, 0)"
    by code_simp
  then obtain w' where run: "RunOnce 2 (\<lambda>xs. xs) sample_cleanup sample_stored = (Inr (2, 1, 0), w')"
    by (cases "RunOnce 2 (\<lambda>xs. xs) sample_cleanup sample_stored") simp
  have "media_row sample_stored ''gone'' = None"
    by (simp add: sample_stored_def sample_world_def media_view_def row_of_def sample_film_def)
  then have orphan: "orphan_object media_row sample_stored ''alice'' ''gone'' ?k"
    by (simp add: orphan_object_def alive_def HasPrefix_def media_prefix_text sample_names)
  have key: "TrimSpace ?k = ?k" "\<not> sample_locked ?k" by code_simp+
  from RunOnce_deletes_orphans [OF sample_stored_ok sample_laws(1,4) sample_placed sample_laws(5)
      _ run [unfolded sample_cleanup_def]]
  have "\<forall>k \<in> sample_objs (env w') ?b. \<forall>owner i. orphan_object media_row sample_stored owner i k \<longrightarrow>
      sample_locked k \<or> TrimSpace k \<noteq> k \<or> (\<exists>other \<noteq> owner. \<exists>k2 \<in> sample_objs (env sample_stored) ?b.
        name_ok other \<and> media_object other i k2)" by simp
  with orphan key have "?k \<notin> sample_objs (env w') ?b \<or> (\<exists>other. other \<noteq> ''alice'' \<and>
      (\<exists>k2 \<in> sample_objs (env sample_stored) ?b. name_ok other \<and> media_object other ''gone'' k2))" by blast
  moreover have "other = ''alice''" if "k2 \<in> sample_objs (env sample_stored) ?b" "name_ok other"
    "media_object other ''gone'' k2" for other k2
    by (rule sample_one_owner [OF that(1,3,2) sample_names(3)])
  ultimately have "?k \<notin> sample_objs (env w') ?b" by blast
  with run show ?thesis by blast
qed

end
