(* ===== verification/Go_Numbers.thy ===== *)
theory Go_Numbers
  imports Go_Strings
begin

text \<open>
  \<open>strconv.Atoi\<close> and \<open>strconv.ParseInt(s, 10, 64)\<close>, which agree on a 64-bit platform, and
  \<open>utf8.RuneCountInString\<close>.
\<close>

subsection \<open>Decimal numbers\<close>

definition is_digit :: "char \<Rightarrow> bool" where
  "is_digit c \<longleftrightarrow> 48 \<le> (of_char c :: nat) \<and> (of_char c :: nat) \<le> 57"

definition digits_value :: "string \<Rightarrow> int" where
  "digits_value s = foldl (\<lambda>n c. 10 * n + (of_char c - 48)) 0 s"

text \<open>A sign, if any, and at least one digit, with a value in the range of an \<open>int64\<close>.\<close>

definition ParseInt64 :: "string \<Rightarrow> int option" where
  "ParseInt64 s =
    (let neg = (s \<noteq> [] \<and> hd s = CHR ''-'');
         ds = (if s \<noteq> [] \<and> (hd s = CHR ''-'' \<or> hd s = CHR ''+'') then tl s else s);
         v = (if neg then - digits_value ds else digits_value ds)
     in if ds = [] \<or> \<not> list_all is_digit ds \<or> v < MinInt64 \<or> MaxInt64 < v then None else Some v)"

lemma ParseInt64_range: "ParseInt64 s = Some v \<Longrightarrow> MinInt64 \<le> v \<and> v \<le> MaxInt64"
  by (auto simp: ParseInt64_def Let_def split: if_splits)

lemma digits_value_snoc: "digits_value (s @ [c]) = 10 * digits_value s + (of_char c - 48)"
  by (simp add: digits_value_def)

lemma decimal_digit:
  assumes "d < (10 :: nat)"
  shows "is_digit (char_of (48 + d))" "(of_char (char_of (48 + d) :: char) :: int) = 48 + int d"
proof -
  have n: "(of_char (char_of (48 + d) :: char) :: nat) = 48 + d" using assms by simp
  then show "is_digit (char_of (48 + d))" using assms by (simp add: is_digit_def)
  have "(of_char (char_of (48 + d) :: char) :: int) = int (of_char (char_of (48 + d) :: char))"
    by (rule of_nat_of_char [symmetric])
  also have "\<dots> = int (48 + d)" by (simp only: n)
  finally show "(of_char (char_of (48 + d) :: char) :: int) = 48 + int d" by simp
qed

lemma decimal_value: "decimal n \<noteq> [] \<and> list_all is_digit (decimal n) \<and> digits_value (decimal n) = int n"
proof (induction n rule: decimal.induct)
  case (1 n)
  show ?case
  proof (cases "n < 10")
    case True
    then show ?thesis
      using decimal_digit [of n] by (subst (1 2 3) decimal.simps) (simp add: digits_value_def)
  next
    case False
    with 1 have "decimal (n div 10) \<noteq> []" "list_all is_digit (decimal (n div 10))"
      "digits_value (decimal (n div 10)) = int (n div 10)" by auto
    moreover from False have "decimal n = decimal (n div 10) @ [char_of (48 + n mod 10)]"
      by (subst decimal.simps) simp
    ultimately show ?thesis
      using decimal_digit [of "n mod 10"] by (simp add: digits_value_snoc) presburger
  qed
qed

lemma decimal_head: "hd (decimal n) \<noteq> CHR ''-'' \<and> hd (decimal n) \<noteq> CHR ''+''"
proof -
  have "is_digit (hd (decimal n))" using decimal_value [of n] by (cases "decimal n") auto
  then show ?thesis by (auto simp: is_digit_def)
qed

text \<open>\<open>strconv\<close> reads back the numbers it has written.\<close>

lemma ParseInt64_Itoa:
  assumes "MinInt64 \<le> i" "i \<le> MaxInt64"
  shows "ParseInt64 (Itoa i) = Some i"
  using assms decimal_value [of "nat i"] decimal_value [of "nat (- i)"] decimal_head [of "nat i"]
  by (auto simp: ParseInt64_def Itoa_def Let_def)

subsection \<open>Runes\<close>

text \<open>
  The runes of a string of well-formed UTF-8, such as the JSON decoder makes: the bytes that
  do not continue a sequence.
\<close>

definition RuneCount :: "string \<Rightarrow> int" where
  "RuneCount s = int (length (filter (\<lambda>c. \<not> (128 \<le> (of_char c :: nat) \<and> (of_char c :: nat) < 192)) s))"

end
