(* ===== verification/Http_Base.thy ===== *)
theory Http_Base
  imports Externals Go_Numbers "HOL-Library.Char_ord" "HOL-Library.List_Lexorder"
begin

text \<open>
  \<open>internal/http/httputil\<close>: requests, responses and JSON. A handler is a total function: for every
  request and world it gives a response and the world it leaves, so it cannot fail. The
  log lines the handlers write are left out.
\<close>

subsection \<open>JSON\<close>

text \<open>
  A number read is its literal; a number written is an integer or a \<open>float64\<close>. The fields of an
  object stand in the order in which they are read or written.
\<close>

datatype json =
    JNull
  | JBool bool
  | JNum string
  | JInt int
  | JFloat float64
  | JStr string
  | JArr "json list"
  | JObj "(string \<times> json) list"

text \<open>What the decoder finds: \<open>io.EOF\<close> before any value, a syntax or type error, or a result.\<close>

datatype 'a decoded = NoInput | BadJSON | Decoded 'a

text \<open>
  Names of fields are compared after folding: upper case for ASCII, and \<open>S\<close> and \<open>K\<close> for the two
  runes outside ASCII that fold to ASCII letters, U+017F and U+212A.
\<close>

fun fold_name :: "string \<Rightarrow> string" where
  "fold_name [] = []"
| "fold_name (c # s) =
    (if c = CHR 0xC5 \<and> prefix [CHR 0xBF] s then CHR ''s'' # fold_name (drop 1 s)
     else if c = CHR 0xE2 \<and> prefix [CHR 0x84, CHR 0xAA] s then CHR ''k'' # fold_name (drop 2 s)
     else ascii_lower c # fold_name s)"

text \<open>
  The fields of a struct: name and how a value is stored. A field is found by its exact name, or
  else by its folded one; an unknown field is an error (\<open>DisallowUnknownFields\<close>), the last
  value of a field that is there twice counts, and \<open>null\<close> leaves a string or number as it is.
\<close>

type_synonym 'r fields = "(string \<times> (json \<Rightarrow> 'r \<Rightarrow> 'r option)) list"

definition field_of :: "'r fields \<Rightarrow> string \<Rightarrow> (json \<Rightarrow> 'r \<Rightarrow> 'r option) option" where
  "field_of fs k =
    (case map_of fs k of
       Some setf \<Rightarrow> Some setf
     | None \<Rightarrow> map_option snd (find (\<lambda>(n, _). fold_name n = fold_name k) fs))"

fun decode_object :: "'r fields \<Rightarrow> (string \<times> json) list \<Rightarrow> 'r \<Rightarrow> 'r option" where
  "decode_object fs [] r = Some r"
| "decode_object fs ((k, v) # kvs) r =
    (case field_of fs k of
       None \<Rightarrow> None
     | Some setf \<Rightarrow> (case setf v r of None \<Rightarrow> None | Some r' \<Rightarrow> decode_object fs kvs r'))"

definition DecodeJSON :: "'r fields \<Rightarrow> 'r \<Rightarrow> json decoded \<Rightarrow> 'r decoded" where
  "DecodeJSON fs zero body =
    (case body of
       NoInput \<Rightarrow> NoInput
     | BadJSON \<Rightarrow> BadJSON
     | Decoded v \<Rightarrow>
         (case v of
            JNull \<Rightarrow> Decoded zero
          | JObj kvs \<Rightarrow> (case decode_object fs kvs zero of None \<Rightarrow> BadJSON | Some r \<Rightarrow> Decoded r)
          | _ \<Rightarrow> BadJSON))"

definition string_field :: "(string \<Rightarrow> 'r \<Rightarrow> 'r) \<Rightarrow> json \<Rightarrow> 'r \<Rightarrow> 'r option" where
  "string_field upd v r = (case v of JStr s \<Rightarrow> Some (upd s r) | JNull \<Rightarrow> Some r | _ \<Rightarrow> None)"

definition pointer_field :: "(string option \<Rightarrow> 'r \<Rightarrow> 'r) \<Rightarrow> json \<Rightarrow> 'r \<Rightarrow> 'r option" where
  "pointer_field upd v r =
    (case v of JStr s \<Rightarrow> Some (upd (Some s) r) | JNull \<Rightarrow> Some (upd None r) | _ \<Rightarrow> None)"

definition int64_field :: "(int \<Rightarrow> 'r \<Rightarrow> 'r) \<Rightarrow> json \<Rightarrow> 'r \<Rightarrow> 'r option" where
  "int64_field upd v r =
    (case v of JNum l \<Rightarrow> map_option (\<lambda>n. upd n r) (ParseInt64 l) | JNull \<Rightarrow> Some r | _ \<Rightarrow> None)"

definition float64_field :: "gotext \<Rightarrow> (float64 \<Rightarrow> 'r \<Rightarrow> 'r) \<Rightarrow> json \<Rightarrow> 'r \<Rightarrow> 'r option" where
  "float64_field tx upd v r =
    (case v of
       JNum l \<Rightarrow> (case gt_ParseFloat tx l of Inl _ \<Rightarrow> None | Inr x \<Rightarrow> Some (upd x r))
     | JNull \<Rightarrow> Some r | _ \<Rightarrow> None)"

subsection \<open>Requests and responses\<close>

text \<open>
  What the handlers look at in a request: \<open>rq_Header\<close> is \<open>Header.Get\<close> (empty when absent), \<open>rq_Param\<close>
  the URL parameters chi has filled in, \<open>rq_UserID\<close> the value the authentication has put into the
  context. \<open>rq_Raw\<close> is the request as it came in, for the libraries that read it themselves.
\<close>

record 'q request =
  rq_Method :: string
  rq_Path :: string
  rq_Header :: "string \<Rightarrow> string"
  rq_Cookie :: "string \<Rightarrow> string option"
  rq_TLS :: bool
  rq_Param :: "string \<Rightarrow> string"
  rq_UserID :: "string option"
  rq_Raw :: 'q

datatype same_site = SameSiteLax | SameSiteNone

record cookie =
  ck_Name :: string
  ck_Value :: string
  ck_HttpOnly :: bool
  ck_Path :: string
  ck_MaxAge :: int
  ck_Expires :: time
  ck_SameSite :: same_site
  ck_Secure :: bool

datatype body = JsonBody json | TextBody string

record response =
  rs_Status :: int
  rs_Header :: "(string \<times> string) list"
  rs_Cookies :: "cookie list"
  rs_Body :: body

text \<open>
  The libraries behind the handlers: the JSON value at the start of a body, the validator's rule
  for addresses, and the text of a time in the zone of the process.
\<close>

record 'q http_lib =
  hl_Body :: "'q \<Rightarrow> json decoded"
  hl_Email :: "string \<Rightarrow> bool"
  hl_Local :: "time \<Rightarrow> string"
  hl_text :: gotext

definition RespondJSON :: "int \<Rightarrow> json \<Rightarrow> response" where
  "RespondJSON status v =
    \<lparr>rs_Status = status, rs_Header = [(''Content-Type'', ''application/json'')], rs_Cookies = [],
     rs_Body = JsonBody v\<rparr>"

definition RespondError :: "int \<Rightarrow> string \<Rightarrow> response" where
  "RespondError status code = RespondJSON status (JObj [(''error'', JStr code)])"

text \<open>
  The errors of the validator: the field and the tag of the rule it breaks, one per field. The
  reason names the first; a map is encoded with its keys in order.
\<close>

type_synonym validation = "(string \<times> string) list"

definition lower_field :: "string \<times> string \<Rightarrow> string \<times> string" where
  "lower_field fe = (map ascii_lower (fst fe), snd fe)"

definition RespondValidationError :: "validation \<Rightarrow> response" where
  "RespondValidationError verrs =
    (case map lower_field verrs of
       [] \<Rightarrow> RespondError 400 ''validation_failed''
     | (field, tag) # rest \<Rightarrow>
         RespondJSON 400 (JObj
           [(''error'', JStr ''validation_failed''),
            (''fields'', JObj (sort_key fst (map (\<lambda>(f, t). (f, JStr t)) ((field, tag) # rest)))),
            (''reason'', JStr (field @ ''_'' @ tag))]))"

definition ChiParam :: "'q request \<Rightarrow> string \<Rightarrow> string" where
  "ChiParam r key = rq_Param r key"

text \<open>\<open>int(d.Seconds())\<close>, towards zero, as in \<open>AccessTTLSeconds\<close>.\<close>

definition int_Seconds :: "duration \<Rightarrow> int" where
  "int_Seconds d = (if 0 \<le> d then d div Second else - (- d div Second))"

subsection \<open>Handlers\<close>

type_synonym ('w, 'q) handler = "'q request \<Rightarrow> 'w \<Rightarrow> response \<times> 'w"

definition answer :: "response \<Rightarrow> 'w \<Rightarrow> response \<times> 'w" where
  "answer r w = (r, w)"

text \<open>A call of a service, with what follows on an error and on a result.\<close>

definition callH ::
    "('w, 'a) prog \<Rightarrow> (err \<Rightarrow> 'w \<Rightarrow> response \<times> 'w) \<Rightarrow> ('a \<Rightarrow> 'w \<Rightarrow> response \<times> 'w) \<Rightarrow> 'w \<Rightarrow> response \<times> 'w" where
  "callH m onErr onOk w = (case m w of (Inl e, w1) \<Rightarrow> onErr e w1 | (Inr x, w1) \<Rightarrow> onOk x w1)"

definition readH :: "('w \<Rightarrow> 'a \<times> 'w) \<Rightarrow> ('a \<Rightarrow> 'w \<Rightarrow> response \<times> 'w) \<Rightarrow> 'w \<Rightarrow> response \<times> 'w" where
  "readH c k w = (case c w of (x, w1) \<Rightarrow> k x w1)"

text \<open>\<open>DecodeJSON\<close> with its error branch, and \<open>ValidateStruct\<close> with its.\<close>

definition decodeH ::
    "'r decoded \<Rightarrow> ('r \<Rightarrow> 'w \<Rightarrow> response \<times> 'w) \<Rightarrow> 'w \<Rightarrow> response \<times> 'w" where
  "decodeH d k = (case d of Decoded r \<Rightarrow> k r | _ \<Rightarrow> answer (RespondError 400 ''invalid_json''))"

definition serves :: "('w \<Rightarrow> 'w \<Rightarrow> bool) \<Rightarrow> ('w \<Rightarrow> response \<times> 'w) \<Rightarrow> bool" where
  "serves R h \<longleftrightarrow> (\<forall>w. R w (snd (h w)))"

lemma servesD: "serves R h \<Longrightarrow> h w = (r, w') \<Longrightarrow> R w w'"
  by (metis serves_def snd_conv)

context world_order
begin

lemma serves_answer [frame_intros]: "serves R (answer r)"
  by (simp add: serves_def answer_def R_refl)

lemma serves_callH [frame_intros]:
  assumes "stays R m" "\<And>e. serves R (f e)" "\<And>x. serves R (g x)"
  shows "serves R (callH m f g)"
  unfolding serves_def
proof
  fix w
  obtain r w1 where m: "m w = (r, w1)" by (cases "m w")
  with assms(1) have "R w w1" by (rule staysD)
  with m assms(2,3) show "R w (snd (callH m f g w))"
    by (auto simp: callH_def serves_def split: sum.splits intro: R_trans)
qed

lemma serves_readH [frame_intros]:
  assumes "stays R (readP c)" "\<And>x. serves R (k x)"
  shows "serves R (readH c k)"
  unfolding serves_def
proof
  fix w
  obtain x w1 where c: "c w = (x, w1)" by (cases "c w")
  with staysD [OF assms(1), of w] have "R w w1" by (simp add: readP_def)
  with c assms(2) show "R w (snd (readH c k w))"
    by (auto simp: readH_def serves_def intro: R_trans)
qed

lemma serves_decodeH [frame_intros]:
  "(\<And>r. serves R (k r)) \<Longrightarrow> serves R (decodeH d k)"
  by (auto simp: decodeH_def serves_answer split: decoded.splits)

lemma serves_if [frame_intros]:
  "(c \<Longrightarrow> serves R h) \<Longrightarrow> (\<not> c \<Longrightarrow> serves R k) \<Longrightarrow> serves R (if c then h else k)"
  by simp

lemma serves_option [frame_intros]:
  "serves R n \<Longrightarrow> (\<And>x. serves R (f x)) \<Longrightarrow> serves R (case q of None \<Rightarrow> n | Some x \<Rightarrow> f x)"
  by (cases q) auto

end

text \<open>The same for relations between worlds.\<close>

locale world_frame = world_order R for R :: "'e world \<Rightarrow> 'e world \<Rightarrow> bool"

interpretation world_quiet: world_frame "quiet world_ok (v :: 'e world \<Rightarrow> 'v)" for v
  by (rule world_frame.intro) (rule calm.world_order_axioms)

end
