(* ===== verification/Media_Transcoder.thy ===== *)
theory Media_Transcoder
  imports Media_Repository Storage_Keys
begin

text \<open>
  \<open>internal/service/media_transcoder.go\<close>: the queue of uploaded media, and the worker that turns
  each into an HLS stream with \<open>ffmpeg\<close>, uploads it and marks the media ready. Processes, files,
  timers and the texts of the standard library are parameters; log lines are left out.
\<close>

record 'w MediaTranscoderService =
  mt_mediaRepo :: "'w MediaRepository"
  mt_storage :: "'w StorageService"
  mt_ffmpegPath :: string
  mt_ffprobePath :: string
  mt_workDir :: string
  mt_segmentDuration :: int
  mt_jobTimeout :: duration
  mt_queueSize :: int
  mt_exec :: "'w processes"
  mt_text :: gotext

record 'w NewMediaTranscoderServiceInput =
  nt_mediaRepo :: "'w MediaRepository"
  nt_storage :: "'w StorageService"
  nt_ffmpegPath :: string
  nt_ffprobePath :: string
  nt_workDir :: string
  nt_segmentDuration :: int
  nt_queueSize :: int
  nt_jobTimeout :: duration

text \<open>\<open>fmt.Errorf(msg + ": %w", err)\<close>.\<close>

definition wrapf :: "string \<Rightarrow> err \<Rightarrow> err" where
  "wrapf msg e = Wrap (msg @ '': '' @ Error e) e"

definition or_default :: "int \<Rightarrow> int \<Rightarrow> int" where
  "or_default n d = (if n \<le> 0 then d else n)"

definition NewMediaTranscoderService ::
    "'w processes \<Rightarrow> gotext \<Rightarrow> 'w NewMediaTranscoderServiceInput \<Rightarrow> ('w, 'w MediaTranscoderService) prog"
  where
  "NewMediaTranscoderService x tx inp =
    (let ffmpeg = (if TrimSpace (nt_ffmpegPath inp) = [] then ''ffmpeg'' else TrimSpace (nt_ffmpegPath inp));
         ffprobe = (if TrimSpace (nt_ffprobePath inp) = [] then ''ffprobe'' else TrimSpace (nt_ffprobePath inp))
     in bindP (mapErrP (wrapf ''ffmpeg binary is not available'') (ex_LookPath x ffmpeg)) (\<lambda>_.
          bindP (mapErrP (wrapf ''ffprobe binary is not available'') (ex_LookPath x ffprobe)) (\<lambda>_.
            retP \<lparr>mt_mediaRepo = nt_mediaRepo inp, mt_storage = nt_storage inp,
              mt_ffmpegPath = ffmpeg, mt_ffprobePath = ffprobe,
              mt_workDir = TrimSpace (nt_workDir inp),
              mt_segmentDuration = or_default (nt_segmentDuration inp) 6,
              mt_jobTimeout = or_default (nt_jobTimeout inp) (2 * Hour),
              mt_queueSize = or_default (nt_queueSize inp) 32,
              mt_exec = x, mt_text = tx\<rparr>)))"

subsection \<open>The queue\<close>

text \<open>A non-blocking send to the buffered channel \<open>jobQueue\<close>.\<close>

definition Enqueue :: "'w MediaTranscoderService \<Rightarrow> string \<Rightarrow> ('e world, unit) prog" where
  "Enqueue s mediaID w =
    (let trimmed = TrimSpace mediaID
     in if trimmed = [] then (Inl (New ''media id is required''), w)
        else if int (length (jobQueue w)) < mt_queueSize s
        then (Inr (), w\<lparr>jobQueue := jobQueue w @ [trimmed]\<rparr>)
        else (Inl (New ''transcoding queue is full''), w))"

subsection \<open>The tail of the output\<close>

record tailBuffer =
  tb_maxBytes :: int
  tb_buf :: string

definition tail_Write :: "tailBuffer \<Rightarrow> string \<Rightarrow> tailBuffer" where
  "tail_Write b p =
    (if tb_maxBytes b \<le> 0 then b
     else if int (length p) \<ge> tb_maxBytes b
     then b\<lparr>tb_buf := drop (length p - nat (tb_maxBytes b)) p\<rparr>
     else let needed = int (length (tb_buf b)) + int (length p) - tb_maxBytes b;
              kept = (if needed > 0 then drop (nat needed) (tb_buf b) else tb_buf b)
          in b\<lparr>tb_buf := kept @ p\<rparr>)"

definition tail_String :: "tailBuffer \<Rightarrow> string" where
  "tail_String b = TrimSpace (tb_buf b)"

subsection \<open>Errors\<close>

fun killed :: "err \<Rightarrow> bool" where
  "killed (Driver (Killed msg)) = True"
| "killed (Wrap msg e) = killed e"
| "killed _ = False"

definition formatFFmpegError :: "string \<Rightarrow> err \<Rightarrow> string \<Rightarrow> err" where
  "formatFFmpegError pre e stderr =
    (if killed e then
       (let msg = pre @ '': process was killed with SIGKILL; likely OOM kill or container/node resource limit''
        in if stderr = [] then New msg else New (msg @ '': '' @ stderr))
     else if stderr = [] then wrapf pre e
     else Wrap (pre @ '': '' @ Error e @ '': '' @ stderr) e)"

definition isNoSpaceErr :: "gotext \<Rightarrow> err \<Rightarrow> bool" where
  "isNoSpaceErr tx e \<longleftrightarrow>
    Is e (Driver ENOSPC) \<or> Contains (ToLower (gt_Lower tx) (Error e)) ''no space left on device''"

text \<open>
  The message is built with \<open>fmt.Sprintf\<close>, which has no verb \<open>%w\<close>: what it prints for the context's
  error is \<open>gt_BadW\<close>, and the error that is returned wraps nothing.
\<close>

definition wrapContextOpError ::
    "gotext \<Rightarrow> string \<Rightarrow> 'w cancel_context \<Rightarrow> err \<Rightarrow> err option \<Rightarrow> ('w, 'a) prog" where
  "wrapContextOpError tx opName cx ctxErr lastErr =
    bindP (readP (cx_Remaining cx)) (\<lambda>remaining.
      let msg = opName @ '': '' @ gt_BadW tx ctxErr;
          msg1 = (case remaining of None \<Rightarrow> msg
            | Some d \<Rightarrow> msg @ '' (deadline_remaining='' @ gt_Duration tx d @ '')'');
          msg2 = (case lastErr of None \<Rightarrow> msg1
            | Some e \<Rightarrow> if Is e ctxErr then msg1 else msg1 @ ''; last error: '' @ Error e)
      in failP (New msg2))"

subsection \<open>Retrying\<close>

text \<open>
  The loop of \<open>withRetry\<close> with \<open>left\<close> attempts to go: it stops at the first success, when the
  context has ended, and after the last attempt, and waits between attempts.
\<close>

fun retry_loop ::
    "gotext \<Rightarrow> 'w cancel_context \<Rightarrow> string \<Rightarrow> ('w, unit) prog \<Rightarrow> nat \<Rightarrow> duration \<Rightarrow> err option \<Rightarrow> ('w, unit) prog"
  where
  "retry_loop tx cx opName fn 0 backoff lastErr =
    (case lastErr of None \<Rightarrow> retP () | Some e \<Rightarrow> failP e)"
| "retry_loop tx cx opName fn (Suc left) backoff lastErr =
    bindP (readP (cx_Err cx)) (\<lambda>ended.
      case ended of
        Some c \<Rightarrow> wrapContextOpError tx opName cx c lastErr
      | None \<Rightarrow>
          bindP (attemptP fn) (\<lambda>r.
            case r of
              Inr _ \<Rightarrow> retP ()
            | Inl e \<Rightarrow>
                bindP (readP (cx_Err cx)) (\<lambda>ended'.
                  case ended' of
                    Some c \<Rightarrow> wrapContextOpError tx opName cx c (Some e)
                  | None \<Rightarrow>
                      if left = 0 then failP e
                      else bindP (readP (cx_Wait cx backoff)) (\<lambda>done.
                        if done
                        then bindP (readP (cx_Err cx)) (\<lambda>c.
                          wrapContextOpError tx opName cx (case c of None \<Rightarrow> New [] | Some x \<Rightarrow> x) (Some e))
                        else retry_loop tx cx opName fn left (backoff * 2) (Some e)))))"

definition withRetry :: "gotext \<Rightarrow> 'w cancel_context \<Rightarrow> string \<Rightarrow> ('w, unit) prog \<Rightarrow> ('w, unit) prog" where
  "withRetry tx cx opName fn = retry_loop tx cx opName fn 4 Second None"

subsection \<open>Encoding\<close>

record hlsEncodingProfile =
  hp_name :: string
  hp_preset :: string
  hp_crf :: int
  hp_maxrate :: string
  hp_bufsize :: string
  hp_audioBitr :: string
  hp_threads :: int

definition selectHLSEncodingProfile :: "int \<Rightarrow> hlsEncodingProfile" where
  "selectHLSEncodingProfile durationSec =
    (if durationSec \<ge> 90 * 60
     then \<lparr>hp_name = ''long-form-safe'', hp_preset = ''superfast'', hp_crf = 23, hp_maxrate = ''3500k'',
       hp_bufsize = ''7000k'', hp_audioBitr = ''96k'', hp_threads = 2\<rparr>
     else \<lparr>hp_name = ''default'', hp_preset = ''veryfast'', hp_crf = 21, hp_maxrate = ''5000k'',
       hp_bufsize = ''10000k'', hp_audioBitr = ''128k'', hp_threads = 0\<rparr>)"

text \<open>Run a process and keep the tail of what it writes to standard error.\<close>

definition run_with_tail ::
    "'w processes \<Rightarrow> string \<Rightarrow> string list \<Rightarrow> int \<Rightarrow> string \<Rightarrow> ('w, unit) prog" where
  "run_with_tail x prg args maxBytes pre =
    bindP (readP (ex_Run x prg args)) (\<lambda>(writes, e).
      case e of
        None \<Rightarrow> retP ()
      | Some e \<Rightarrow> failP (formatFFmpegError pre e
          (tail_String (fold (\<lambda>p b. tail_Write b p) writes \<lparr>tb_maxBytes = maxBytes, tb_buf = []\<rparr>))))"

definition runFFmpegHLS ::
    "'w MediaTranscoderService \<Rightarrow> string \<Rightarrow> string \<Rightarrow> string \<Rightarrow> int \<Rightarrow> ('w, unit) prog" where
  "runFFmpegHLS s srcPath manifestPath segmentPattern durationSec =
    (let profile = selectHLSEncodingProfile durationSec
     in run_with_tail (mt_exec s) (mt_ffmpegPath s)
       [''-y'', ''-hide_banner'', ''-nostats'', ''-loglevel'', ''warning'', ''-i'', srcPath,
        ''-map'', ''0:v:0'', ''-map'', ''0:a:0?'', ''-c:v'', ''libx264'',
        ''-preset'', hp_preset profile, ''-profile:v'', ''main'', ''-level'', ''4.0'',
        ''-pix_fmt'', ''yuv420p'', ''-crf'', Itoa (hp_crf profile), ''-maxrate'', hp_maxrate profile,
        ''-bufsize'', hp_bufsize profile, ''-threads'', Itoa (hp_threads profile), ''-c:a'', ''aac'',
        ''-b:a'', hp_audioBitr profile, ''-ac'', ''2'', ''-f'', ''hls'',
        ''-hls_time'', Itoa (mt_segmentDuration s), ''-hls_playlist_type'', ''vod'',
        ''-hls_flags'', ''independent_segments'', ''-hls_segment_filename'', segmentPattern,
        manifestPath]
       (64 * 1024) ''ffmpeg hls'')"

text \<open>
  \<open>int(math.Round(x))\<close> of a positive \<open>x\<close>: halves up. Where the value does not fit, Go leaves the
  result to the machine; this is what amd64 does.
\<close>

definition round_to_int :: "float64 \<Rightarrow> int" where
  "round_to_int x =
    (case x of
       Fin q \<Rightarrow> (let n = floor (q + 1 / 2) in if n \<le> MaxInt64 then n else MinInt64)
     | _ \<Rightarrow> MinInt64)"

definition float_le_0 :: "float64 \<Rightarrow> bool" where
  "float_le_0 x = (case x of Fin q \<Rightarrow> q \<le> 0 | NegInf \<Rightarrow> True | _ \<Rightarrow> False)"

definition probeDurationSec :: "'w MediaTranscoderService \<Rightarrow> string \<Rightarrow> ('w, int) prog" where
  "probeDurationSec s srcPath =
    bindP (readP (ex_CombinedOutput (mt_exec s) (mt_ffprobePath s)
        [''-v'', ''error'', ''-show_entries'', ''format=duration'',
         ''-of'', ''default=noprint_wrappers=1:nokey=1'', srcPath])) (\<lambda>(out, e).
      case e of
        Some e \<Rightarrow> failP (Wrap (''ffprobe duration: '' @ Error e @ '': '' @ TrimSpace out) e)
      | None \<Rightarrow>
          let trimmed = TrimSpace out
          in if trimmed = [] then retP 0
             else (case gt_ParseFloat (mt_text s) trimmed of
                     Inl e \<Rightarrow> failP e
                   | Inr x \<Rightarrow> if float_le_0 x then retP 0 else retP (round_to_int x)))"

subsection \<open>Uploading\<close>

definition createAndUploadPreview ::
    "'w MediaTranscoderService \<Rightarrow> 'w cancel_context \<Rightarrow> string \<Rightarrow> string \<Rightarrow> Media \<Rightarrow> ('w, string option) prog"
  where
  "createAndUploadPreview s cx srcPath previewPath media =
    bindP (run_with_tail (mt_exec s) (mt_ffmpegPath s)
        [''-y'', ''-hide_banner'', ''-nostats'', ''-loglevel'', ''warning'', ''-ss'', ''00:00:01'',
         ''-i'', srcPath, ''-frames:v'', ''1'', ''-vf'', ''scale=640:-2'', previewPath]
        (32 * 1024) ''ffmpeg preview'') (\<lambda>_.
      let previewKey = path_Join [''users'', media_OwnerUserID media, ''media'', media_ID media,
            ''preview'', ''preview.jpg'']
      in bindP (withRetry (mt_text s) cx ''upload preview''
             (UploadFilePublic (mt_storage s) previewKey ''image/jpeg'' previewPath)) (\<lambda>_.
           retP (Some (generateObjectURL (mt_storage s) previewKey))))"

definition hls_content_type :: "string \<Rightarrow> string" where
  "hls_content_type fileName =
    (if HasSuffix fileName ''.m3u8'' then ''application/vnd.apple.mpegurl''
     else if HasSuffix fileName ''.ts'' then ''video/mp2t''
     else ''application/octet-stream'')"

fun upload_entries ::
    "'w MediaTranscoderService \<Rightarrow> 'w cancel_context \<Rightarrow> string \<Rightarrow> string \<Rightarrow> (string \<times> bool) list \<Rightarrow> ('w, unit) prog"
  where
  "upload_entries s cx hlsDir pre [] = retP ()"
| "upload_entries s cx hlsDir pre ((fileName, isDir) # entries) =
    (if isDir then upload_entries s cx hlsDir pre entries
     else bindP (withRetry (mt_text s) cx ''upload hls segment''
         (UploadFilePublic (mt_storage s) (path_Join [pre, fileName]) (hls_content_type fileName)
            (path_Join [hlsDir, fileName]))) (\<lambda>_.
       upload_entries s cx hlsDir pre entries))"

definition uploadHLSOutput ::
    "'w MediaTranscoderService \<Rightarrow> 'w cancel_context \<Rightarrow> string \<Rightarrow> string \<Rightarrow> ('w, unit) prog" where
  "uploadHLSOutput s cx hlsDir pre =
    bindP (fs_ReadDir (st_fs (mt_storage s)) hlsDir) (upload_entries s cx hlsDir pre)"

subsection \<open>A job\<close>

definition processMediaInWorkspace ::
    "'w MediaTranscoderService \<Rightarrow> 'w cancel_context \<Rightarrow> Media \<Rightarrow> string \<Rightarrow> ('w, unit) prog" where
  "processMediaInWorkspace s cx media tmpDir =
    (let srcPath = path_Join [tmpDir, ''input'' @ Ext (media_OriginalName media)];
         hlsDir = path_Join [tmpDir, ''hls'']
     in bindP (mapErrP (wrapf ''download source'') (withRetry (mt_text s) cx ''download source''
            (DownloadObjectToFile (mt_storage s) (media_StorageKey media) srcPath))) (\<lambda>_.
        bindP (probeDurationSec s srcPath) (\<lambda>durationSec.
        bindP (fs_MkdirAll (st_fs (mt_storage s)) hlsDir) (\<lambda>_.
        bindP (runFFmpegHLS s srcPath (path_Join [hlsDir, ''index.m3u8''])
            (path_Join [hlsDir, ''segment_%05d.ts'']) durationSec) (\<lambda>_.
        bindP (createAndUploadPreview s cx srcPath (path_Join [tmpDir, ''preview.jpg'']) media) (\<lambda>previewURL.
        let pre = path_Join [''users'', media_OwnerUserID media, ''media'', media_ID media, ''hls'']
        in bindP (uploadHLSOutput s cx hlsDir pre) (\<lambda>_.
             let playbackURL = generateObjectURL (mt_storage s) (path_Join [pre, ''index.m3u8''])
             in mr_UpdateTranscodeResult (mt_mediaRepo s) (media_ID media) playbackURL previewURL
                  (Some durationSec) MediaReady)))))))"

definition makeTempWorkspace :: "'w MediaTranscoderService \<Rightarrow> string \<Rightarrow> ('w, string) prog" where
  "makeTempWorkspace s baseDir =
    bindP (mapErrP (wrapf (''prepare transcoding temp base '' @ gt_Quote (mt_text s) baseDir))
        (fs_MkdirAll (st_fs (mt_storage s)) baseDir)) (\<lambda>_.
      mapErrP (wrapf (''create transcoding workspace in '' @ gt_Quote (mt_text s) baseDir))
        (fs_MkdirTemp (st_fs (mt_storage s)) baseDir ''calixio-transcode-*''))"

text \<open>The closure \<open>add\<close> of \<open>tempBaseDirs\<close>: clean directories, each once.\<close>

definition add_dir :: "string \<Rightarrow> string list \<Rightarrow> string list" where
  "add_dir d out =
    (let trimmed = TrimSpace d; cleaned = Clean trimmed
     in if trimmed = [] then out
        else if cleaned \<in> set out then out
        else out @ [cleaned])"

definition tempBaseDirs :: "'w MediaTranscoderService \<Rightarrow> string \<Rightarrow> string list" where
  "tempBaseDirs s tempDir =
    add_dir ''.'' (add_dir ''/var/tmp'' (add_dir tempDir (add_dir (mt_workDir s) [])))"

text \<open>
  The loop over the base directories: a full disk moves on to the next directory, any other error
  ends the job; the workspace is removed whether the job succeeds or not.
\<close>

fun process_in ::
    "'w MediaTranscoderService \<Rightarrow> 'w cancel_context \<Rightarrow> Media \<Rightarrow> string list \<Rightarrow> err option \<Rightarrow> ('w, unit) prog" where
  "process_in s cx media [] lastErr =
    (case lastErr of
       Some e \<Rightarrow> failP e
     | None \<Rightarrow> failP (New ''transcoding failed with no available workspace''))"
| "process_in s cx media (baseDir # baseDirs) lastErr =
    bindP (attemptP (makeTempWorkspace s baseDir)) (\<lambda>mk.
      case mk of
        Inl e \<Rightarrow> if isNoSpaceErr (mt_text s) e \<and> baseDirs \<noteq> []
                 then process_in s cx media baseDirs (Some e) else failP e
      | Inr tmpDir \<Rightarrow>
          bindP (attemptP (processMediaInWorkspace s cx media tmpDir)) (\<lambda>r.
            bindP (attemptP (fs_RemoveAll (st_fs (mt_storage s)) tmpDir)) (\<lambda>_.
              case r of
                Inr _ \<Rightarrow> retP ()
              | Inl e \<Rightarrow> if isNoSpaceErr (mt_text s) e \<and> baseDirs \<noteq> []
                         then process_in s cx media baseDirs (Some e) else failP e)))"

definition processMedia :: "'w MediaTranscoderService \<Rightarrow> 'w cancel_context \<Rightarrow> string \<Rightarrow> ('w, unit) prog" where
  "processMedia s cx mediaID =
    bindP (mr_GetByID (mt_mediaRepo s) mediaID) (\<lambda>media.
      bindP (readP (fs_TempDir (st_fs (mt_storage s)))) (\<lambda>tempDir.
        process_in s cx media (tempBaseDirs s tempDir) None))"

text \<open>
  One turn of \<open>worker\<close>: take the first job and run it; if it fails, mark the media as failed and
  ignore the outcome of that.
\<close>

definition run_job :: "'w MediaTranscoderService \<Rightarrow> 'w cancel_context \<Rightarrow> string \<Rightarrow> ('w, unit) prog" where
  "run_job s cx mediaID =
    bindP (attemptP (processMedia s cx mediaID)) (\<lambda>r.
      case r of
        Inr _ \<Rightarrow> retP ()
      | Inl e \<Rightarrow> bindP (attemptP (mr_UpdateStatus (mt_mediaRepo s) mediaID MediaFailed)) (\<lambda>_. retP ()))"

definition worker_step ::
    "'e world MediaTranscoderService \<Rightarrow> 'e world cancel_context \<Rightarrow> ('e world, unit) prog" where
  "worker_step s cx w =
    (case jobQueue w of
       [] \<Rightarrow> (Inr (), w)
     | mediaID # jobs \<Rightarrow> run_job s cx mediaID (w\<lparr>jobQueue := jobs\<rparr>))"

subsection \<open>The tail buffer keeps the end of what is written\<close>

definition last_bytes :: "nat \<Rightarrow> string \<Rightarrow> string" where
  "last_bytes n s = drop (length s - n) s"

lemma tail_Write_last:
  assumes "0 < tb_maxBytes b" "tb_buf b = last_bytes (nat (tb_maxBytes b)) t"
  shows "tb_buf (tail_Write b p) = last_bytes (nat (tb_maxBytes b)) (t @ p)"
proof -
  define n where "n = nat (tb_maxBytes b)"
  have n: "tb_maxBytes b = int n" using assms(1) by (simp add: n_def)
  have buf: "tb_buf b = drop (length t - n) t" using assms(2) by (simp add: n last_bytes_def)
  show ?thesis
  proof (cases "n \<le> length p")
    case True
    with assms(1) show ?thesis by (simp add: tail_Write_def n last_bytes_def)
  next
    case False
    let ?needed = "int (length (tb_buf b)) + int (length p) - int n"
    have "(if ?needed > 0 then drop (nat ?needed) (tb_buf b) else tb_buf b) = drop (length t + length p - n) t"
    proof (cases "length t \<le> n")
      case True
      then show ?thesis by (auto simp: buf nat_diff_distrib nat_add_distrib)
    next
      case large: False
      then have "nat ?needed = length p" using False by (simp add: buf)
      with large False show ?thesis by (auto simp: buf ac_simps)
    qed
    with assms(1) False show ?thesis by (simp add: tail_Write_def n last_bytes_def Let_def)
  qed
qed

lemma tail_Write_max [simp]: "tb_maxBytes (tail_Write b p) = tb_maxBytes b"
  by (simp add: tail_Write_def Let_def)

lemma tail_fold:
  assumes "0 < tb_maxBytes b" "tb_buf b = last_bytes (nat (tb_maxBytes b)) t"
  shows "tb_buf (fold (\<lambda>p b. tail_Write b p) writes b) =
    last_bytes (nat (tb_maxBytes b)) (t @ concat writes)"
  using assms
proof (induction writes arbitrary: b t)
  case (Cons p writes)
  from Cons.IH [of "tail_Write b p" "t @ p"] Cons.prems tail_Write_last [OF Cons.prems]
  show ?case by simp
qed simp

subsection \<open>Retrying\<close>

lemma wrapContextOpError_Inl: "\<exists>e. fst (wrapContextOpError tx op cx c l w) = Inl e"
  by (auto simp: wrapContextOpError_def bindP_def readP_def failP_def Let_def split: prod.splits)

text \<open>
  \<open>calls\<close> is a ghost counter of the calls of \<open>fn\<close>: the context leaves it alone and every call
  adds one.
\<close>

lemma retry_loop_count:
  fixes fn :: "('w, unit) prog"
  assumes cx: "stays (unchanged calls) (readP (cx_Err cx))" "\<And>d. stays (unchanged calls) (readP (cx_Wait cx d))"
      "stays (unchanged calls) (readP (cx_Remaining cx))"
    and fn: "\<And>w. calls (snd (fn w)) = Suc (calls w)"
    and run: "retry_loop tx cx op fn n backoff l w = (r, w')"
  shows "calls w' \<le> calls w + n \<and> (0 < n \<longrightarrow> r = Inr () \<longrightarrow> (\<exists>v. fn v = (Inr (), w')))"
  using run
proof (induction n arbitrary: backoff l w)
  case 0
  then show ?case by (auto simp: prog_simps retP_def failP_def split: option.splits)
next
  case (Suc n)
  have wrap: "calls v' = calls v \<and> (\<exists>e. q = Inl e)" if "(wrapContextOpError tx op cx c l :: ('w, unit) prog) v = (q, v')"
    for c l v q v'
  proof -
    have "stays (unchanged calls) (wrapContextOpError tx op cx c l :: ('w, unit) prog)"
      unfolding wrapContextOpError_def Let_def by (intro frame_intros cx)
    moreover have "\<exists>e. fst ((wrapContextOpError tx op cx c l :: ('w, unit) prog) v) = Inl e"
      by (rule wrapContextOpError_Inl)
    ultimately show ?thesis using that staysD by (fastforce simp: unchanged_def)
  qed
  note keep = cx [THEN staysD, unfolded unchanged_def]
  obtain x w1 where x: "readP (cx_Err cx) w = (Inr x, w1)"
    by (cases "cx_Err cx w") (simp add: readP_def)
  from keep(1) [OF x] have w1: "calls w1 = calls w" .
  show ?case
  proof (cases x)
    case (Some c)
    with Suc.prems x wrap w1 show ?thesis by (auto simp: bindP_step dest!: wrap)
  next
    case None
    obtain q w2 where f: "fn w1 = (q, w2)" by (cases "fn w1")
    with fn [of w1] w1 have w2: "calls w2 = Suc (calls w)" by simp
    have a: "attemptP fn w1 = (Inr q, w2)" using f by (simp add: prog_simps)
    show ?thesis
    proof (cases q)
      case (Inr u)
      with Suc.prems x None a f w2 show ?thesis by (auto simp: bindP_step retP_def)
    next
      case (Inl e)
      obtain y w3 where y: "readP (cx_Err cx) w2 = (Inr y, w3)"
        by (cases "cx_Err cx w2") (simp add: readP_def)
      from keep(1) [OF y] w2 have w3: "calls w3 = Suc (calls w)" by simp
      show ?thesis
      proof (cases y)
        case (Some c)
        with Suc.prems x None a Inl y w3 show ?thesis by (auto simp: bindP_step dest!: wrap)
      next
        case y_None: None
        show ?thesis
        proof (cases "n = 0")
          case True
          with Suc.prems x None a Inl y y_None w3 show ?thesis by (auto simp: bindP_step failP_def)
        next
          case more: False
          obtain d w4 where d: "readP (cx_Wait cx backoff) w3 = (Inr d, w4)"
            by (cases "cx_Wait cx backoff w3") (simp add: readP_def)
          from keep(2) [OF d] w3 have w4: "calls w4 = Suc (calls w)" by simp
          show ?thesis
          proof (cases d)
            case True
            obtain z w5 where z: "readP (cx_Err cx) w4 = (Inr z, w5)"
              by (cases "cx_Err cx w4") (simp add: readP_def)
            from keep(1) [OF z] w4 have "calls w5 = Suc (calls w)" by simp
            with Suc.prems x None a Inl y y_None more d True z show ?thesis
              by (auto simp: bindP_step dest!: wrap)
          next
            case False
            with Suc.prems x None a Inl y y_None more d
            have "retry_loop tx cx op fn n (backoff * 2) (Some e) w4 = (r, w')" by (simp add: bindP_step)
            from Suc.IH [OF this] w4 more show ?thesis by auto
          qed
        qed
      qed
    qed
  qed
qed

subsection \<open>Working directories\<close>

lemma add_dir_spec:
  assumes "distinct out" "\<forall>d \<in> set out. d \<noteq> []"
  shows "distinct (add_dir d out)" "\<forall>e \<in> set (add_dir d out). e \<noteq> []" "set out \<subseteq> set (add_dir d out)"
    "TrimSpace d \<noteq> [] \<Longrightarrow> Clean (TrimSpace d) \<in> set (add_dir d out)"
    "length (add_dir d out) \<le> Suc (length out)"
proof -
  have "Clean p \<noteq> []" for p by (auto simp: Clean_def Let_def)
  with assms show "distinct (add_dir d out)" "\<forall>e \<in> set (add_dir d out). e \<noteq> []" "set out \<subseteq> set (add_dir d out)"
    "TrimSpace d \<noteq> [] \<Longrightarrow> Clean (TrimSpace d) \<in> set (add_dir d out)"
    "length (add_dir d out) \<le> Suc (length out)"
    by (auto simp: add_dir_def Let_def)
qed

subsection \<open>The transcoder on the program's own repository and storage\<close>

text \<open>A service whose parts are those of a platform, as the constructor returns it there.\<close>

definition transcoder_on ::
    "('e, 'q) platform \<Rightarrow> storage_config \<Rightarrow> 'e world MediaTranscoderService \<Rightarrow> bool" where
  "transcoder_on pf c s \<longleftrightarrow>
    mt_mediaRepo s = NewPostgresMediaRepository (pf_pool pf) \<and> mt_storage s = pg_storage pf c \<and>
    mt_exec s = ext_processes (pf_exec pf)"

lemma NewMediaTranscoderService_on:
  assumes "NewMediaTranscoderService (ext_processes (pf_exec pf)) tx inp w = (Inr s, w')"
    and "nt_mediaRepo inp = NewPostgresMediaRepository (pf_pool pf)" "nt_storage inp = pg_storage pf c"
  shows "transcoder_on pf c s \<and> 0 < mt_queueSize s \<and> 0 < mt_segmentDuration s \<and> 0 < mt_jobTimeout s"
  using assms
  by (auto simp: NewMediaTranscoderService_def Let_def prog_simps transcoder_on_def or_default_def)

lemma transcoder_onD:
  assumes "transcoder_on pf c s"
  shows "mt_mediaRepo s = NewPostgresMediaRepository (pf_pool pf)" "st_fs (mt_storage s) = ext_fs (pf_fs pf)"
    "st_s3 (mt_storage s) = ext_s3 (pf_s3 pf)" "mt_exec s = ext_processes (pf_exec pf)"
    "mt_storage s = pg_storage pf c"
  using assms by (simp_all add: transcoder_on_def)

text \<open>Nothing but the calls of the repository touches the tables or the queue.\<close>

lemma data_retry:
  fixes fn :: "('e world, unit) prog"
  assumes "stays same_data fn"
  shows "stays same_data (retry_loop tx (ext_context k) op fn n backoff l)"
proof -
  have wrap: "stays same_data (wrapContextOpError tx op (ext_context k) c l :: ('e world, unit) prog)"
    for c l
    unfolding wrapContextOpError_def Let_def ext_context_simps by (intro frame_intros)
  show ?thesis
  proof (induction n arbitrary: backoff l)
    case 0
    show ?case unfolding retry_loop.simps by (intro frame_intros)
  next
    case (Suc n)
    show ?case
      unfolding retry_loop.simps ext_context_simps
      by (intro data.stays_bind data.stays_case_option data.stays_case_sum data.stays_if
          data.stays_attempt data.stays_ret data.stays_fail same_data_ext assms wrap Suc.IH)
  qed
qed

lemmas data_retry' = data_retry [where n = 4 and backoff = Second and l = None, folded withRetry_def]

lemma data_upload: "stays same_data (UploadFilePublic (pg_storage pf c) key ct f)"
  unfolding UploadFilePublic_def uploadFile_def pg_storage_simps ext_s3_simps ext_fs_simps
  by (intro frame_intros)

lemma data_download: "stays same_data (DownloadObjectToFile (pg_storage pf c) key f)"
  unfolding DownloadObjectToFile_def pg_storage_simps ext_s3_simps ext_fs_simps
  by (intro frame_intros)

lemma data_upload_entries:
  assumes "transcoder_on pf c s"
  shows "stays same_data (upload_entries s (ext_context k) d pre entries)"
proof (induction entries)
  case Nil
  show ?case by (simp add: data.stays_ret)
next
  case (Cons e entries)
  obtain name isDir where e: "e = (name, isDir)" by (cases e)
  show ?case
    unfolding e upload_entries.simps transcoder_onD(5) [OF assms]
    by (intro data.stays_if data.stays_bind data_retry' data_upload Cons.IH)
qed

lemma data_run_with_tail: "stays same_data (run_with_tail (ext_processes x) prg args m pre)"
  unfolding run_with_tail_def ext_processes_simps by (intro frame_intros)

text \<open>All of a job in its workspace but the update of the database.\<close>

definition produce_media ::
    "'w MediaTranscoderService \<Rightarrow> 'w cancel_context \<Rightarrow> Media \<Rightarrow> string \<Rightarrow> ('w, int \<times> string option) prog" where
  "produce_media s cx media tmpDir =
    (let srcPath = path_Join [tmpDir, ''input'' @ Ext (media_OriginalName media)];
         hlsDir = path_Join [tmpDir, ''hls'']
     in bindP (mapErrP (wrapf ''download source'') (withRetry (mt_text s) cx ''download source''
            (DownloadObjectToFile (mt_storage s) (media_StorageKey media) srcPath))) (\<lambda>_.
        bindP (probeDurationSec s srcPath) (\<lambda>durationSec.
        bindP (fs_MkdirAll (st_fs (mt_storage s)) hlsDir) (\<lambda>_.
        bindP (runFFmpegHLS s srcPath (path_Join [hlsDir, ''index.m3u8''])
            (path_Join [hlsDir, ''segment_%05d.ts'']) durationSec) (\<lambda>_.
        bindP (createAndUploadPreview s cx srcPath (path_Join [tmpDir, ''preview.jpg'']) media) (\<lambda>previewURL.
        bindP (uploadHLSOutput s cx hlsDir
            (path_Join [''users'', media_OwnerUserID media, ''media'', media_ID media, ''hls''])) (\<lambda>_.
          retP (durationSec, previewURL))))))))"

definition hls_key :: "Media \<Rightarrow> string" where
  "hls_key m = path_Join [path_Join [''users'', media_OwnerUserID m, ''media'', media_ID m, ''hls''],
    ''index.m3u8'']"

definition preview_key :: "Media \<Rightarrow> string" where
  "preview_key m = path_Join [''users'', media_OwnerUserID m, ''media'', media_ID m, ''preview'', ''preview.jpg'']"

lemma processMediaInWorkspace_split:
  "processMediaInWorkspace s cx media tmpDir =
    bindP (produce_media s cx media tmpDir) (\<lambda>(durationSec, previewURL).
      mr_UpdateTranscodeResult (mt_mediaRepo s) (media_ID media)
        (generateObjectURL (mt_storage s) (hls_key media)) previewURL (Some durationSec) MediaReady)"
  by (simp add: processMediaInWorkspace_def produce_media_def Let_def bindP_assoc bindP_retP hls_key_def)

lemma data_produce_media:
  assumes "transcoder_on pf c s"
  shows "stays same_data (produce_media s (ext_context k) media tmpDir)"
  unfolding produce_media_def probeDurationSec_def runFFmpegHLS_def createAndUploadPreview_def
    uploadHLSOutput_def Let_def transcoder_onD(4,5) [OF assms] ext_processes_simps pg_storage_simps
    ext_fs_simps
  by (intro data.stays_bind data.stays_mapErr data.stays_case_option data.stays_case_sum
      data.stays_case_prod data.stays_if data.stays_ret data.stays_fail same_data_ext data_retry'
      data_download data_upload data_run_with_tail data_upload_entries [OF assms])

lemma produce_media_preview:
  assumes "produce_media s cx media tmpDir w = (Inr (d, preview), w')"
  shows "preview = Some (generateObjectURL (mt_storage s) (preview_key media))"
  using assms
  by (auto simp: produce_media_def createAndUploadPreview_def Let_def prog_simps preview_key_def)

text \<open>The row of a media that has been transcoded, and what a job may do to the media's row.\<close>

definition ready_row :: "'w StorageService \<Rightarrow> Media \<Rightarrow> int \<Rightarrow> Media \<Rightarrow> Media" where
  "ready_row st media d =
    set_transcode (generateObjectURL st (hls_key media)) (Some (generateObjectURL st (preview_key media)))
      (Some d) MediaReady"

lemma ready_row_again [simp]: "ready_row st media d (ready_row st media d' r) = ready_row st media d r"
  by (simp add: ready_row_def set_transcode_def)

lemma live_ready_row [simp]: "live (ready_row st media d r) = live r"
  by (simp add: ready_row_def set_transcode_def live_def)

definition job_rel :: "'e world StorageService \<Rightarrow> string \<Rightarrow> Media \<Rightarrow> 'e world \<Rightarrow> 'e world \<Rightarrow> bool" where
  "job_rel st i media w w' \<longleftrightarrow> jobQueue w' = jobQueue w \<and> (world_ok w \<longrightarrow> world_ok w' \<and>
    (media_row w' = media_row w \<or> (\<exists>r d. media_row w i = Some r \<and> live r \<and>
      media_row w' = (media_row w)(i \<mapsto> ready_row st media d r))))"

lemma job_rel_trans: "job_rel st i media u v \<Longrightarrow> job_rel st i media v w \<Longrightarrow> job_rel st i media u w"
proof -
  assume uv: "job_rel st i media u v" and vw: "job_rel st i media v w"
  have "world_ok w \<and> (media_row w = media_row u \<or> (\<exists>r d. media_row u i = Some r \<and> live r \<and>
      media_row w = (media_row u)(i \<mapsto> ready_row st media d r)))" if "world_ok u"
  proof -
    from uv that have v: "world_ok v" "media_row v = media_row u \<or> (\<exists>r d. media_row u i = Some r \<and>
        live r \<and> media_row v = (media_row u)(i \<mapsto> ready_row st media d r))"
      by (auto simp: job_rel_def)
    from vw v(1) have w: "world_ok w" "media_row w = media_row v \<or> (\<exists>r d. media_row v i = Some r \<and>
        live r \<and> media_row w = (media_row v)(i \<mapsto> ready_row st media d r))"
      by (auto simp: job_rel_def)
    from w(2) show ?thesis
    proof (elim disjE exE conjE)
      assume "media_row w = media_row v"
      with v w(1) show ?thesis by simp
    next
      fix q d
      assume q: "media_row v i = Some q" "live q" "media_row w = (media_row v)(i \<mapsto> ready_row st media d q)"
      from v(2) show ?thesis
      proof (elim disjE exE conjE)
        assume "media_row v = media_row u"
        with q w(1) show ?thesis by auto
      next
        fix r e
        assume r: "media_row u i = Some r" "live r" "media_row v = (media_row u)(i \<mapsto> ready_row st media e r)"
        with q have "media_row w = (media_row u)(i \<mapsto> ready_row st media d r)" by auto
        with r w(1) show ?thesis by blast
      qed
    qed
  qed
  with uv vw show ?thesis by (simp add: job_rel_def)
qed

interpretation job: world_order "job_rel st i media"
  for st :: "'e world StorageService" and i :: string and media :: Media
  by unfold_locales (simp add: job_rel_def, rule job_rel_trans)

lemma same_data_job: "stays same_data m \<Longrightarrow> stays (job_rel st i media) m"
  by (auto simp: stays_def same_data_def job_rel_def world_ok_def)

lemma repo_queue: "stays (unchanged jobQueue) (exec_affecting pool st)"
  using run_stmt_queue [of pool st]
  by (auto simp: stays_def unchanged_def query_row_state) (metis prod.collapse)

lemma job_update:
  "stays (job_rel st i media) (mr_UpdateTranscodeResult (NewPostgresMediaRepository pool) i
    (generateObjectURL st (hls_key media)) (Some (generateObjectURL st (preview_key media))) (Some d) MediaReady)"
  (is "stays _ ?m")
  unfolding stays_def
proof
  fix w
  obtain r w' where run: "?m w = (r, w')" by (cases "?m w")
  have "jobQueue w' = jobQueue w"
    using repo_queue [THEN staysD] run
    by (auto simp: PostgresMedia_UpdateTranscodeResult_def unchanged_def)
  moreover have "world_ok w' \<and> (media_row w' = media_row w \<or> (\<exists>r d. media_row w i = Some r \<and> live r \<and>
      media_row w' = (media_row w)(i \<mapsto> ready_row st media d r)))" if ok: "world_ok w"
  proof (cases r)
    case (Inl e)
    from update_law_Inl [OF pg_media.UpdateTranscodeResult_law ok run [unfolded Inl]] show ?thesis
      unfolding updated_def ready_row_def by blast
  next
    case (Inr x)
    from update_law_Inr [OF pg_media.UpdateTranscodeResult_law ok run [unfolded Inr]] show ?thesis
      unfolding updated_def ready_row_def by blast
  qed
  ultimately show "job_rel st i media w (snd (?m w))" using run by (simp add: job_rel_def)
qed

lemma job_workspace:
  assumes on: "transcoder_on pf c s" and i: "media_ID media = i"
  shows "stays (job_rel (mt_storage s) i media) (processMediaInWorkspace s (ext_context k) media tmpDir)"
  unfolding processMediaInWorkspace_split
proof (rule job.stays_bind_result [OF same_data_job [OF data_produce_media [OF on]]])
  fix x w w'
  assume x: "produce_media s (ext_context k) media tmpDir w = (Inr x, w')"
  obtain d preview where [simp]: "x = (d, preview)" by (cases x)
  from produce_media_preview [of s "ext_context k" media tmpDir w d preview w'] x
  have "preview = Some (generateObjectURL (mt_storage s) (preview_key media))" by simp
  with job_update [of "mt_storage s" i media "pf_pool pf" d]
  show "stays (job_rel (mt_storage s) i media) (case x of (durationSec, previewURL) \<Rightarrow>
      mr_UpdateTranscodeResult (mt_mediaRepo s) (media_ID media)
        (generateObjectURL (mt_storage s) (hls_key media)) previewURL (Some durationSec) MediaReady)"
    by (simp add: i transcoder_onD(1) [OF on])
qed

lemma data_makeTempWorkspace:
  assumes "transcoder_on pf c s"
  shows "stays same_data (makeTempWorkspace s d)"
  unfolding makeTempWorkspace_def transcoder_onD(2) [OF assms] ext_fs_simps
  by (intro data.stays_bind data.stays_mapErr same_data_ext)

lemma job_process_in:
  assumes on: "transcoder_on pf c s" and i: "media_ID media = i"
  shows "stays (job_rel (mt_storage s) i media) (process_in s (ext_context k) media dirs l)"
proof (induction dirs arbitrary: l)
  case Nil
  show ?case unfolding process_in.simps by (intro job.stays_case_option job.stays_fail)
next
  case (Cons d dirs)
  show ?case
    unfolding process_in.simps transcoder_onD(2) [OF on] ext_fs_simps
    by (intro job.stays_bind job.stays_attempt job.stays_case_sum job.stays_if job.stays_ret
        job.stays_fail same_data_job [OF data_makeTempWorkspace [OF on]] job_workspace [OF on i]
        same_data_job [OF same_data_ext(1)] Cons.IH)
qed

end
