(* ===== verification/Media_Upload.thy ===== *)
theory Media_Upload
  imports Media_Transcoder
begin

text \<open>
  \<open>internal/service/media_upload.go\<close>: uploads (a presigned URL, then the check of what was
  uploaded and a transcoding job), playback (a manifest whose segments are presigned, cached in
  Redis, and reachable through a token), and deletion. JSON and the RFC 3339 texts are parameters.
\<close>

text \<open>The cached form of a playback, and \<open>encoding/json\<close> for it.\<close>

record playbackCacheRecord =
  pcr_MediaID :: string
  pcr_Status :: string
  pcr_Manifest :: string
  pcr_PreviewURL :: "string option"
  pcr_ExpiresAt :: string

record playback_json =
  pj_Marshal :: "playbackCacheRecord \<Rightarrow> err + string"
  pj_Unmarshal :: "string \<Rightarrow> err + playbackCacheRecord"

record 'e MediaUploadService =
  mu_mediaRepo :: "'e world MediaRepository"
  mu_storage :: "'e world StorageService"
  mu_transcoder :: "'e world MediaTranscoderService option"
  mu_cache :: "'e world redis_client option"
  mu_maxSizeBytes :: int
  mu_allowedMimeTypes :: "string list"
  mu_presignTTL :: duration
  mu_playbackTTL :: duration
  mu_clock :: "'e world \<Rightarrow> time \<times> 'e world"
  mu_crypto :: "'e world crypto"
  mu_json :: playback_json
  mu_text :: gotext

record 'e NewMediaUploadServiceInput =
  nu_mediaRepo :: "'e world MediaRepository"
  nu_storage :: "'e world StorageService"
  nu_transcoder :: "'e world MediaTranscoderService option"
  nu_cache :: "'e world redis_client option"
  nu_maxSizeBytes :: int
  nu_allowedMimeTypes :: "string list"
  nu_presignURLTTL :: duration
  nu_playbackSignedTTL :: duration

text \<open>The set \<open>allowed\<close> as a list: the configured types trimmed and in lower case, or the default ones.\<close>

definition allowed_mimes :: "gotext \<Rightarrow> string list \<Rightarrow> string list" where
  "allowed_mimes tx mts =
    (let allowed = filter (\<lambda>m. m \<noteq> []) (map (\<lambda>m. TrimSpace (ToLower (gt_Lower tx) m)) mts)
     in if allowed = []
        then [''video/mp4'', ''video/webm'', ''video/quicktime'', ''video/x-msvideo'',
              ''video/matroska'', ''video/x-matroska'']
        else allowed)"

definition NewMediaUploadService ::
    "('e world \<Rightarrow> time \<times> 'e world) \<Rightarrow> 'e world crypto \<Rightarrow> playback_json \<Rightarrow> gotext \<Rightarrow>
      'e NewMediaUploadServiceInput \<Rightarrow> 'e MediaUploadService" where
  "NewMediaUploadService clk cr js tx inp =
    \<lparr>mu_mediaRepo = nu_mediaRepo inp, mu_storage = nu_storage inp, mu_transcoder = nu_transcoder inp,
     mu_cache = nu_cache inp,
     mu_maxSizeBytes = or_default (nu_maxSizeBytes inp) (10 * 1024 * 1024 * 1024),
     mu_allowedMimeTypes = allowed_mimes tx (nu_allowedMimeTypes inp),
     mu_presignTTL = or_default (nu_presignURLTTL inp) (15 * Minute),
     mu_playbackTTL = or_default (nu_playbackSignedTTL inp) (3 * Hour),
     mu_clock = clk, mu_crypto = cr, mu_json = js, mu_text = tx\<rparr>"

record InitUploadInput =
  iu_OwnerUserID :: string
  iu_FileName :: string
  iu_ContentType :: string
  iu_SizeBytes :: int

record InitUploadOutput =
  iuo_MediaID :: string
  iuo_StorageKey :: string
  iuo_UploadURL :: string

record CompleteUploadInput =
  cu_OwnerUserID :: string
  cu_MediaID :: string

record CompleteUploadOutput =
  cuo_MediaID :: string
  cuo_Status :: MediaStatus

text \<open>A \<open>MediaStatus\<close> is a string in Go, and one from the cache may be any.\<close>

record PlaybackOutput =
  po_MediaID :: string
  po_Status :: string
  po_Manifest :: string
  po_ManifestURL :: "string option"
  po_PreviewURL :: "string option"
  po_ExpiresAt :: time

subsection \<open>Names and types\<close>

definition normalizeMime :: "gotext \<Rightarrow> string \<Rightarrow> string" where
  "normalizeMime tx mime =
    (let normalized = ToLower (gt_Lower tx) (TrimSpace mime)
     in if CHR '';'' \<in> set normalized
        then TrimSpace (takeWhile (\<lambda>c. c \<noteq> CHR '';'') normalized)
        else normalized)"

definition isAllowedMime :: "'e MediaUploadService \<Rightarrow> string \<Rightarrow> bool" where
  "isAllowedMime s mime \<longleftrightarrow> normalizeMime (mu_text s) mime \<in> set (mu_allowedMimeTypes s)"

definition sanitizeFilename :: "string \<Rightarrow> string" where
  "sanitizeFilename name =
    (let safeName = Base (TrimSpace name)
     in if safeName = [] \<or> safeName = ''.'' \<or> safeName = ''/'' then ''file''
        else ReplaceAll safeName (CHR '' '') (CHR ''_''))"

definition buildTitleFromFilename :: "string \<Rightarrow> string" where
  "buildTitleFromFilename fileName =
    (let title = TrimSpace (TrimSuffix fileName (Ext fileName))
     in if title = [] then ''media'' else title)"

definition newMediaID :: "'w crypto \<Rightarrow> ('w, string) prog" where
  "newMediaID cr =
    bindP (mapErrP (wrapf ''generate media id'') (rand_Read cr 12))
      (\<lambda>b. retP (''media_'' @ EncodeToString b))"

definition playbackCacheKey :: "string \<Rightarrow> string" where
  "playbackCacheKey mediaID = ''media:playback:v2:'' @ mediaID"

definition playbackManifestTokenKey :: "string \<Rightarrow> string" where
  "playbackManifestTokenKey token = ''media:playback:manifest:v1:'' @ token"

subsection \<open>Listing and uploading\<close>

text \<open>The loop of \<open>ListByOwner\<close>: a preview that cannot be signed keeps the stored URL.\<close>

fun sign_previews :: "'e MediaUploadService \<Rightarrow> Media list \<Rightarrow> ('e world, Media list) prog" where
  "sign_previews s [] = retP []"
| "sign_previews s (m # ms) =
    bindP (if media_PreviewURL m = None then retP m
           else bindP (attemptP (PresignGetObject (mu_storage s)
               (path_Join [''users'', media_OwnerUserID m, ''media'', media_ID m, ''preview'', ''preview.jpg''])
               (mu_presignTTL s)))
             (\<lambda>r. case r of Inl _ \<Rightarrow> retP m | Inr signedURL \<Rightarrow> retP (m\<lparr>media_PreviewURL := Some signedURL\<rparr>)))
      (\<lambda>m'. bindP (sign_previews s ms) (\<lambda>ms'. retP (m' # ms')))"

definition ListByOwner :: "'e MediaUploadService \<Rightarrow> string \<Rightarrow> ('e world, Media list) prog" where
  "ListByOwner s ownerUserID =
    (if TrimSpace ownerUserID = [] then failP ErrInvalidUploadInput
     else bindP (mr_ListByOwner (mu_mediaRepo s) ownerUserID) (sign_previews s))"

definition InitUpload :: "'e MediaUploadService \<Rightarrow> InitUploadInput \<Rightarrow> ('e world, InitUploadOutput) prog" where
  "InitUpload s inp =
    (if TrimSpace (iu_OwnerUserID inp) = [] \<or> TrimSpace (iu_FileName inp) = [] then failP ErrInvalidUploadInput
     else if iu_SizeBytes inp \<le> 0 \<or> iu_SizeBytes inp > mu_maxSizeBytes s then failP ErrInvalidUploadInput
     else if \<not> isAllowedMime s (iu_ContentType inp) then failP ErrInvalidUploadInput
     else bindP (newMediaID (mu_crypto s)) (\<lambda>mediaID.
       let safeName = sanitizeFilename (iu_FileName inp);
           storageKey = path_Join [''users'', iu_OwnerUserID inp, ''media'', mediaID, ''original'', safeName]
       in bindP (PresignPutObject (mu_storage s) storageKey (iu_ContentType inp) (mu_presignTTL s)) (\<lambda>uploadURL.
            bindP (readP (mu_clock s)) (\<lambda>created.
              bindP (mr_Create (mu_mediaRepo s)
                \<lparr>media_ID = mediaID, media_OwnerUserID = iu_OwnerUserID inp,
                 media_Title = buildTitleFromFilename safeName, media_OriginalName = iu_FileName inp,
                 media_StorageKey = storageKey, media_PlaybackURL = generateObjectURL (mu_storage s) storageKey,
                 media_PreviewURL = None, media_DurationSec = None, media_FileSizeBytes = iu_SizeBytes inp,
                 media_MimeType = ToLower (gt_Lower (mu_text s)) (TrimSpace (iu_ContentType inp)),
                 media_Status = MediaUploading, media_CreatedAt = created, media_DeletedAt = None\<rparr>) (\<lambda>_.
                retP \<lparr>iuo_MediaID = mediaID, iuo_StorageKey = storageKey, iuo_UploadURL = uploadURL\<rparr>)))))"

text \<open>\<open>CompleteUpload\<close> once the media has been found.\<close>

definition complete_found ::
    "'e MediaUploadService \<Rightarrow> CompleteUploadInput \<Rightarrow> Media \<Rightarrow> ('e world, CompleteUploadOutput) prog" where
  "complete_found s inp media =
    (if media_OwnerUserID media \<noteq> cu_OwnerUserID inp then failP ErrForbiddenMedia
     else bindP (mapErrP (\<lambda>e. if Is e ErrNotFound then ErrUploadedObjectNotFound else e)
          (HeadObject (mu_storage s) (media_StorageKey media))) (\<lambda>head.
       if oh_ContentLength head \<le> 0 then failP ErrInvalidUploadInput
       else if \<not> isAllowedMime s (oh_ContentType head) then failP ErrInvalidUploadInput
       else bindP (mr_UpdateUploadState (mu_mediaRepo s) (media_ID media) MediaUploaded
            (oh_ContentLength head) (normalizeMime (mu_text s) (oh_ContentType head))) (\<lambda>_.
         case mu_transcoder s of
           None \<Rightarrow> retP \<lparr>cuo_MediaID = media_ID media, cuo_Status = MediaUploaded\<rparr>
         | Some t \<Rightarrow> bindP (mr_UpdateStatus (mu_mediaRepo s) (media_ID media) MediaProcessing) (\<lambda>_.
             bindP (attemptP (Enqueue t (media_ID media))) (\<lambda>r.
               case r of
                 Inl e \<Rightarrow> bindP (attemptP (mr_UpdateStatus (mu_mediaRepo s) (media_ID media) MediaFailed))
                   (\<lambda>_. failP e)
               | Inr _ \<Rightarrow> retP \<lparr>cuo_MediaID = media_ID media, cuo_Status = MediaProcessing\<rparr>)))))"

definition CompleteUpload ::
    "'e MediaUploadService \<Rightarrow> CompleteUploadInput \<Rightarrow> ('e world, CompleteUploadOutput) prog" where
  "CompleteUpload s inp =
    (if TrimSpace (cu_OwnerUserID inp) = [] \<or> TrimSpace (cu_MediaID inp) = [] then failP ErrInvalidUploadInput
     else bindP (mr_GetByID (mu_mediaRepo s) (cu_MediaID inp)) (complete_found s inp))"

subsection \<open>Playback\<close>

text \<open>What \<open>signManifest\<close> does to one line.\<close>

definition sign_line :: "'w StorageService \<Rightarrow> string \<Rightarrow> duration \<Rightarrow> string \<Rightarrow> ('w, string) prog" where
  "sign_line st baseDirKey ttl rawLine =
    (let line = TrimSpace rawLine
     in if line = [] \<or> HasPrefix line ''#'' then retP rawLine
        else if HasPrefix line ''http://'' \<or> HasPrefix line ''https://'' then retP rawLine
        else PresignGetObject st (path_Join [baseDirKey, line]) ttl)"

fun sign_lines :: "'w StorageService \<Rightarrow> string \<Rightarrow> duration \<Rightarrow> string list \<Rightarrow> ('w, string list) prog" where
  "sign_lines st baseDirKey ttl [] = retP []"
| "sign_lines st baseDirKey ttl (rawLine # lines) =
    bindP (sign_line st baseDirKey ttl rawLine) (\<lambda>signed.
      bindP (sign_lines st baseDirKey ttl lines) (\<lambda>rest. retP (signed # rest)))"

definition newline :: char where
  "newline = CHR 0x0A"

definition signManifest :: "'w StorageService \<Rightarrow> string \<Rightarrow> string \<Rightarrow> duration \<Rightarrow> ('w, string) prog" where
  "signManifest st baseDirKey manifest ttl =
    bindP (sign_lines st baseDirKey ttl (Split manifest newline)) (\<lambda>signedLines.
      retP (Join signedLines newline))"

definition buildPlayback :: "'e MediaUploadService \<Rightarrow> Media \<Rightarrow> ('e world, PlaybackOutput) prog" where
  "buildPlayback s media =
    (if media_Status media \<noteq> MediaReady then failP ErrMediaNotReady
     else let manifestKey = path_Join [''users'', media_OwnerUserID media, ''media'', media_ID media,
            ''hls'', ''index.m3u8'']
       in bindP (GetObjectBytes (mu_storage s) manifestKey) (\<lambda>manifestBytes.
          bindP (signManifest (mu_storage s) (Dir manifestKey) manifestBytes (mu_playbackTTL s)) (\<lambda>signedManifest.
          bindP (attemptP (PresignGetObject (mu_storage s)
              (path_Join [''users'', media_OwnerUserID media, ''media'', media_ID media, ''preview'', ''preview.jpg''])
              (mu_playbackTTL s))) (\<lambda>preview.
          bindP (readP (mu_clock s)) (\<lambda>now.
            retP \<lparr>po_MediaID = media_ID media, po_Status = MediaStatus_string (media_Status media),
              po_Manifest = signedManifest, po_ManifestURL = None,
              po_PreviewURL = (case preview of Inl _ \<Rightarrow> None | Inr url \<Rightarrow> Some url),
              po_ExpiresAt = now + mu_playbackTTL s\<rparr>)))))"

text \<open>Without a cache, or when the entropy source or Redis fails, there is no URL.\<close>

definition buildManifestProxyURL :: "'e MediaUploadService \<Rightarrow> string \<Rightarrow> ('e world, string option) prog" where
  "buildManifestProxyURL s mediaID =
    (case mu_cache s of
       None \<Rightarrow> retP None
     | Some cache \<Rightarrow> bindP (attemptP (rand_Read (mu_crypto s) 16)) (\<lambda>r.
         case r of
           Inl _ \<Rightarrow> retP None
         | Inr tokenBytes \<Rightarrow>
             let token = EncodeToString tokenBytes
             in bindP (attemptP (redis_Set cache (playbackManifestTokenKey token) mediaID (mu_playbackTTL s)))
                  (\<lambda>q. case q of
                     Inl _ \<Rightarrow> retP None
                   | Inr _ \<Rightarrow> retP (Some (path_Join [''/media/playback'', token, ''index.m3u8''])))))"

text \<open>
  The two halves \<open>GetPlayback\<close> and \<open>GetPlaybackByMediaID\<close> share: the answer from the cache, if there
  is one that can be read, and storing an answer, whose failure is ignored.
\<close>

definition decode_playback :: "'e MediaUploadService \<Rightarrow> string \<Rightarrow> (playbackCacheRecord \<times> time) option" where
  "decode_playback s cached =
    (if TrimSpace cached = [] then None
     else case pj_Unmarshal (mu_json s) cached of
       Inl _ \<Rightarrow> None
     | Inr rec \<Rightarrow> (case gt_ParseRFC3339 (mu_text s) (pcr_ExpiresAt rec) of
         None \<Rightarrow> None | Some expiresAt \<Rightarrow> Some (rec, expiresAt)))"

definition cached_playback :: "'e MediaUploadService \<Rightarrow> string \<Rightarrow> ('e world, PlaybackOutput option) prog" where
  "cached_playback s mediaID =
    (case mu_cache s of
       None \<Rightarrow> retP None
     | Some cache \<Rightarrow> bindP (attemptP (redis_Get cache (playbackCacheKey mediaID))) (\<lambda>r.
         case (case r of Inl _ \<Rightarrow> None | Inr cached \<Rightarrow> decode_playback s cached) of
           None \<Rightarrow> retP None
         | Some (rec, expiresAt) \<Rightarrow> bindP (buildManifestProxyURL s (pcr_MediaID rec)) (\<lambda>manifestURL.
             retP (Some \<lparr>po_MediaID = pcr_MediaID rec, po_Status = pcr_Status rec,
               po_Manifest = pcr_Manifest rec, po_ManifestURL = manifestURL,
               po_PreviewURL = pcr_PreviewURL rec, po_ExpiresAt = expiresAt\<rparr>))))"

definition cache_record :: "gotext \<Rightarrow> PlaybackOutput \<Rightarrow> playbackCacheRecord" where
  "cache_record tx out =
    \<lparr>pcr_MediaID = po_MediaID out, pcr_Status = po_Status out, pcr_Manifest = po_Manifest out,
     pcr_PreviewURL = po_PreviewURL out, pcr_ExpiresAt = gt_FormatRFC3339 tx (po_ExpiresAt out)\<rparr>"

definition store_playback :: "'e MediaUploadService \<Rightarrow> string \<Rightarrow> PlaybackOutput \<Rightarrow> ('e world, unit) prog" where
  "store_playback s mediaID out =
    (case mu_cache s of
       None \<Rightarrow> retP ()
     | Some cache \<Rightarrow> (case pj_Marshal (mu_json s) (cache_record (mu_text s) out) of
         Inl _ \<Rightarrow> retP ()
       | Inr payload \<Rightarrow> bindP (attemptP (redis_Set cache (playbackCacheKey mediaID) payload (mu_playbackTTL s)))
           (\<lambda>_. retP ())))"

definition GetPlayback :: "'e MediaUploadService \<Rightarrow> string \<Rightarrow> string \<Rightarrow> ('e world, PlaybackOutput) prog" where
  "GetPlayback s ownerUserID mediaID =
    (if TrimSpace ownerUserID = [] \<or> TrimSpace mediaID = [] then failP ErrInvalidUploadInput
     else bindP (cached_playback s mediaID) (\<lambda>hit.
       case hit of
         Some out \<Rightarrow> retP out
       | None \<Rightarrow> bindP (mr_GetByID (mu_mediaRepo s) mediaID) (\<lambda>media.
           if media_OwnerUserID media \<noteq> ownerUserID then failP ErrForbiddenMedia
           else bindP (buildPlayback s media) (\<lambda>out.
             bindP (store_playback s mediaID out) (\<lambda>_.
               bindP (buildManifestProxyURL s (po_MediaID out)) (\<lambda>url.
                 retP (out\<lparr>po_ManifestURL := url\<rparr>)))))))"

definition GetPlaybackByMediaID :: "'e MediaUploadService \<Rightarrow> string \<Rightarrow> ('e world, PlaybackOutput) prog" where
  "GetPlaybackByMediaID s mediaID =
    (if TrimSpace mediaID = [] then failP ErrInvalidUploadInput
     else bindP (cached_playback s mediaID) (\<lambda>hit.
       case hit of
         Some out \<Rightarrow> retP out
       | None \<Rightarrow> bindP (mr_GetByID (mu_mediaRepo s) mediaID) (\<lambda>media.
           bindP (buildPlayback s media) (\<lambda>out.
             bindP (store_playback s mediaID out) (\<lambda>_.
               bindP (buildManifestProxyURL s (po_MediaID out)) (\<lambda>url.
                 retP (out\<lparr>po_ManifestURL := url\<rparr>)))))))"

definition ResolvePlaybackManifest :: "'e MediaUploadService \<Rightarrow> string \<Rightarrow> ('e world, string) prog" where
  "ResolvePlaybackManifest s rawToken =
    (let token = TrimSpace rawToken
     in if token = [] then failP ErrInvalidManifestKey
        else case mu_cache s of
          None \<Rightarrow> failP ErrInvalidManifestKey
        | Some cache \<Rightarrow>
            bindP (mapErrP (\<lambda>e. if Is e (Driver RedisNil) then ErrInvalidManifestKey else e)
              (redis_Get cache (playbackManifestTokenKey token))) (\<lambda>mediaID.
              bindP (mr_GetByID (mu_mediaRepo s) mediaID) (\<lambda>media.
                bindP (buildPlayback s media) (\<lambda>out. retP (po_Manifest out)))))"

subsection \<open>Deleting\<close>

text \<open>\<open>DeleteMedia\<close> once the media has been found.\<close>

definition delete_found :: "nat \<Rightarrow> 'e MediaUploadService \<Rightarrow> string \<Rightarrow> string \<Rightarrow> Media \<Rightarrow> ('e world, unit) prog" where
  "delete_found fuel s ownerUserID mediaID media =
    (if media_OwnerUserID media \<noteq> ownerUserID then failP ErrForbiddenMedia
     else bindP (mapErrP (\<lambda>e. Wrap (Error ErrStorageDelete @ '': '' @ Error e) ErrStorageDelete)
          (DeleteObjectsByPrefix fuel (mu_storage s)
            (path_Join [''users'', media_OwnerUserID media, ''media'', media_ID media] @ ''/''))) (\<lambda>_.
       bindP (readP (mu_clock s)) (\<lambda>now.
         bindP (mr_SoftDelete (mu_mediaRepo s) (media_ID media) now) (\<lambda>_.
           case mu_cache s of
             None \<Rightarrow> retP ()
           | Some cache \<Rightarrow> bindP (attemptP (redis_Del cache (playbackCacheKey mediaID))) (\<lambda>_. retP ())))))"

definition DeleteMedia :: "nat \<Rightarrow> 'e MediaUploadService \<Rightarrow> string \<Rightarrow> string \<Rightarrow> ('e world, unit) prog" where
  "DeleteMedia fuel s ownerUserID mediaID =
    (if TrimSpace ownerUserID = [] \<or> TrimSpace mediaID = [] then failP ErrInvalidUploadInput
     else bindP (mr_GetByID (mu_mediaRepo s) mediaID) (delete_found fuel s ownerUserID mediaID))"

subsection \<open>The service over any repository that keeps the contract\<close>

text \<open>Only the repository writes rows of media: every other call leaves them alone.\<close>

locale media_upload =
  media_repository "mu_mediaRepo s" invar media_at
  for s :: "'e MediaUploadService" and invar :: "'e world \<Rightarrow> bool"
    and media_at :: "'e world \<Rightarrow> string \<Rightarrow> Media option" +
  assumes clock_quiet: "stays (quiet invar media_at) (readP (mu_clock s))"
    and rand_quiet: "stays (quiet invar media_at) (rand_Read (mu_crypto s) n)"
    and put_quiet: "stays (quiet invar media_at) (PresignPutObject (mu_storage s) key ct d)"
    and get_quiet: "stays (quiet invar media_at) (PresignGetObject (mu_storage s) key d)"
    and head_quiet: "stays (quiet invar media_at) (HeadObject (mu_storage s) key)"
    and bytes_quiet: "stays (quiet invar media_at) (GetObjectBytes (mu_storage s) key)"
    and delete_quiet: "stays (quiet invar media_at) (DeleteObjectsByPrefix fuel (mu_storage s) key)"
    and redis_quiet: "mu_cache s = Some c \<Longrightarrow> stays (quiet invar media_at) (redis_Get c key)"
      "mu_cache s = Some c \<Longrightarrow> stays (quiet invar media_at) (redis_Set c key v d)"
      "mu_cache s = Some c \<Longrightarrow> stays (quiet invar media_at) (redis_Del c key)"
    and enqueue_quiet: "mu_transcoder s = Some t \<Longrightarrow> stays (quiet invar media_at) (Enqueue t i)"
    and queue_kept: "stays (unchanged jobQueue) (mr_GetByID (mu_mediaRepo s) i)"
      "stays (unchanged jobQueue) (HeadObject (mu_storage s) key)"
      "stays (unchanged jobQueue) (mr_UpdateUploadState (mu_mediaRepo s) i st sz mime)"
      "stays (unchanged jobQueue) (mr_UpdateStatus (mu_mediaRepo s) i st)"
begin

text \<open>Listing and playback leave the rows as they are.\<close>

lemma quiet_sign_previews: "stays (quiet invar media_at) (sign_previews s ms)"
proof (induction ms)
  case Nil
  show ?case unfolding sign_previews.simps by (intro frame_intros)
next
  case (Cons m ms)
  show ?case unfolding sign_previews.simps by (intro frame_intros get_quiet Cons.IH)
qed

lemma quiet_sign_lines: "stays (quiet invar media_at) (sign_lines (mu_storage s) b d ls)"
proof (induction ls)
  case Nil
  show ?case unfolding sign_lines.simps by (intro frame_intros)
next
  case (Cons l ls)
  show ?case unfolding sign_lines.simps sign_line_def Let_def by (intro frame_intros get_quiet Cons.IH)
qed

lemma quiet_buildPlayback: "stays (quiet invar media_at) (buildPlayback s m)"
  unfolding buildPlayback_def signManifest_def Let_def
  by (intro frame_intros get_quiet bytes_quiet clock_quiet quiet_sign_lines)

lemma quiet_manifest_url: "stays (quiet invar media_at) (buildManifestProxyURL s i)"
  unfolding buildManifestProxyURL_def Let_def by (intro frame_intros rand_quiet redis_quiet)

lemma quiet_cached: "stays (quiet invar media_at) (cached_playback s i)"
    "stays (quiet invar media_at) (store_playback s i out)"
  unfolding cached_playback_def store_playback_def
  by (intro frame_intros redis_quiet quiet_manifest_url; assumption)+

lemma quiet_playback:
  "stays (quiet invar media_at) (ListByOwner s owner)" "stays (quiet invar media_at) (GetPlayback s owner i)"
  "stays (quiet invar media_at) (GetPlaybackByMediaID s i)"
  "stays (quiet invar media_at) (ResolvePlaybackManifest s tok)"
  unfolding ListByOwner_def GetPlayback_def GetPlaybackByMediaID_def ResolvePlaybackManifest_def Let_def
  by (intro frame_intros redis_quiet quiet_manifest_url quiet_buildPlayback quiet_sign_previews quiet_cached
      ListByOwner_quiet GetByID_quiet)+

text \<open>Starting an upload adds one row, and nothing else happens to the table.\<close>

lemma InitUpload_Inr:
  assumes inv: "invar w" and run: "InitUpload s inp w = (Inr out, w')"
  shows "invar w' \<and> 0 < iu_SizeBytes inp \<and> iu_SizeBytes inp \<le> mu_maxSizeBytes s \<and>
    isAllowedMime s (iu_ContentType inp) \<and> (\<exists>b. iuo_MediaID out = ''media_'' @ EncodeToString b) \<and>
    iuo_StorageKey out = path_Join [''users'', iu_OwnerUserID inp, ''media'', iuo_MediaID out, ''original'',
      sanitizeFilename (iu_FileName inp)] \<and>
    media_at w (iuo_MediaID out) = None \<and> (\<exists>m. media_at w' = (media_at w)(iuo_MediaID out \<mapsto> m) \<and>
      media_ID m = iuo_MediaID out \<and> media_OwnerUserID m = iu_OwnerUserID inp \<and>
      media_StorageKey m = iuo_StorageKey out \<and> media_Status m = MediaUploading \<and>
      media_FileSizeBytes m = iu_SizeBytes inp \<and> live m)"
proof -
  from run have guards: "0 < iu_SizeBytes inp" "iu_SizeBytes inp \<le> mu_maxSizeBytes s"
    "isAllowedMime s (iu_ContentType inp)" by (auto simp: InitUpload_def prog_simps split: if_splits)
  let ?key = "\<lambda>i. path_Join [''users'', iu_OwnerUserID inp, ''media'', i, ''original'',
    sanitizeFilename (iu_FileName inp)]"
  from run obtain b w1 url w2 t w3 m where b: "rand_Read (mu_crypto s) 12 w = (Inr b, w1)"
    and url: "PresignPutObject (mu_storage s) (?key (''media_'' @ EncodeToString b)) (iu_ContentType inp)
      (mu_presignTTL s) w1 = (Inr url, w2)"
    and t: "readP (mu_clock s) w2 = (Inr t, w3)"
    and new: "\<exists>m'. mr_Create (mu_mediaRepo s) m w3 = (Inr m', w')"
    and m: "media_ID m = ''media_'' @ EncodeToString b" "media_OwnerUserID m = iu_OwnerUserID inp"
      "media_StorageKey m = ?key (media_ID m)" "media_Status m = MediaUploading"
      "media_FileSizeBytes m = iu_SizeBytes inp" "live m"
    and out: "iuo_MediaID out = media_ID m" "iuo_StorageKey out = media_StorageKey m"
    by (fastforce simp: InitUpload_def newMediaID_def Let_def live_def prog_simps split: if_splits)
  from quietD [OF rand_quiet inv b] have 1: "invar w1" "media_at w1 = media_at w" by auto
  from quietD [OF put_quiet 1(1) url] 1 have 2: "invar w2" "media_at w2 = media_at w" by auto
  from quietD [OF clock_quiet 2(1) t] 2 have 3: "invar w3" "media_at w3 = media_at w" by auto
  from new obtain m' where "mr_Create (mu_mediaRepo s) m w3 = (Inr m', w')" by blast
  from Create_Inr [OF 3(1) this] 3(2) have "invar w'" "media_at w (media_ID m) = None"
    "media_at w' = (media_at w)(media_ID m \<mapsto> stored_media m)" by auto
  with guards m out show ?thesis
    by (auto simp: stored_media_def live_def intro!: exI [of _ "stored_media m"])
qed

text \<open>Whatever the outcome, the rows of the table develop, and only the row the call is about changes.\<close>

lemmas grows_calls = clock_quiet [THEN media_dev.develops_quiet] rand_quiet [THEN media_dev.develops_quiet]
  put_quiet [THEN media_dev.develops_quiet] head_quiet [THEN media_dev.develops_quiet]
  delete_quiet [THEN media_dev.develops_quiet] redis_quiet [THEN media_dev.develops_quiet]
  enqueue_quiet [THEN media_dev.develops_quiet]

lemmas touches_calls = clock_quiet [THEN touches_quiet] head_quiet [THEN touches_quiet]
  delete_quiet [THEN touches_quiet] redis_quiet [THEN touches_quiet] enqueue_quiet [THEN touches_quiet]
  GetByID_quiet [THEN touches_quiet]

lemma grows_found: "stays grows (complete_found s inp m)" "stays grows (delete_found fuel s owner i m)"
  unfolding complete_found_def delete_found_def
  by (intro frame_intros grows_calls grows_updates; assumption)+

lemma grows_upload:
  "stays grows (InitUpload s ii)" "stays grows (CompleteUpload s ci)" "stays grows (DeleteMedia fuel s owner i)"
  unfolding InitUpload_def CompleteUpload_def DeleteMedia_def newMediaID_def Let_def
  by (intro frame_intros grows_calls grows_reads grows_Create grows_found)+

lemma touches_found:
  "stays (touches invar media_at (media_ID m)) (complete_found s inp m)"
  "stays (touches invar media_at (media_ID m)) (delete_found fuel s owner i m)"
  unfolding complete_found_def delete_found_def
  by (intro frame_intros touches_calls touches_updates; assumption)+

lemma touches_upload:
  "stays (touches invar media_at (cu_MediaID inp)) (CompleteUpload s inp)"
  "stays (touches invar media_at i) (DeleteMedia fuel s owner i)"
proof -
  have at: "media_ID m = i" if "invar w" "mr_GetByID (mu_mediaRepo s) i w = (Inr m, w')" for i m w w'
    using GetByID_Inr [OF that] media_at_ID [OF that(1)] by blast
  show "stays (touches invar media_at (cu_MediaID inp)) (CompleteUpload s inp)"
    unfolding CompleteUpload_def
    by (intro touch.stays_if touch.stays_fail touch.stays_bind_from [where I = invar] touches_calls)
      (metis at touches_found(1), simp add: touches_def)
  show "stays (touches invar media_at i) (DeleteMedia fuel s owner i)"
    unfolding DeleteMedia_def
    by (intro touch.stays_if touch.stays_fail touch.stays_bind_from [where I = invar] touches_calls)
      (metis at touches_found(2), simp add: touches_def)
qed

text \<open>What an upload that has been completed was, and what has become of its row and the queue.\<close>

lemma complete_found_Inr:
  assumes inv: "invar w" and m: "media_at w (media_ID m) = Some m"
    and run: "complete_found s inp m w = (Inr out, w')"
  shows "media_OwnerUserID m = cu_OwnerUserID inp \<and> cuo_MediaID out = media_ID m \<and> invar w' \<and>
    (\<exists>head w1. HeadObject (mu_storage s) (media_StorageKey m) w = (Inr head, w1) \<and> 0 < oh_ContentLength head \<and>
      normalizeMime (mu_text s) (oh_ContentType head) \<in> set (mu_allowedMimeTypes s) \<and>
      media_at w' = (media_at w)(media_ID m \<mapsto> set_status (cuo_Status out) (set_upload MediaUploaded
        (oh_ContentLength head) (normalizeMime (mu_text s) (oh_ContentType head)) m))) \<and>
    (case mu_transcoder s of
       None \<Rightarrow> cuo_Status out = MediaUploaded \<and> jobQueue w' = jobQueue w
     | Some t \<Rightarrow> cuo_Status out = MediaProcessing \<and>
         (\<exists>v. jobQueue v = jobQueue w \<and> Enqueue t (media_ID m) v = (Inr (), w')))"
proof -
  let ?i = "media_ID m"
  from run obtain head w1 w2 where own: "media_OwnerUserID m = cu_OwnerUserID inp"
    and head: "HeadObject (mu_storage s) (media_StorageKey m) w = (Inr head, w1)"
    and ok: "0 < oh_ContentLength head" "isAllowedMime s (oh_ContentType head)"
    and upd: "mr_UpdateUploadState (mu_mediaRepo s) ?i MediaUploaded (oh_ContentLength head)
      (normalizeMime (mu_text s) (oh_ContentType head)) w1 = (Inr (), w2)"
    and rest: "(case mu_transcoder s of
           None \<Rightarrow> out = \<lparr>cuo_MediaID = ?i, cuo_Status = MediaUploaded\<rparr> \<and> w' = w2
         | Some t \<Rightarrow> \<exists>w3. mr_UpdateStatus (mu_mediaRepo s) ?i MediaProcessing w2 = (Inr (), w3) \<and>
             Enqueue t ?i w3 = (Inr (), w') \<and> out = \<lparr>cuo_MediaID = ?i, cuo_Status = MediaProcessing\<rparr>)"
    by (auto simp: complete_found_def prog_simps split: if_splits option.splits sum.splits)
      (metis obj_sumE old.unit.exhaust)
  let ?m = "set_upload MediaUploaded (oh_ContentLength head) (normalizeMime (mu_text s) (oh_ContentType head)) m"
  from quietD [OF head_quiet inv head] have 1: "invar w1" "media_at w1 = media_at w" by auto
  from update_law_Inr [OF UpdateUploadState_law 1(1) upd] 1(2) m
  have 2: "invar w2" "media_at w2 = (media_at w)(?i \<mapsto> ?m)" by (auto simp: updated_def)
  have q: "jobQueue w2 = jobQueue w"
    using staysD [OF queue_kept(2) head] staysD [OF queue_kept(3) upd] by (simp add: unchanged_def)
  have mime: "normalizeMime (mu_text s) (oh_ContentType head) \<in> set (mu_allowedMimeTypes s)"
    using ok(2) by (simp add: isAllowedMime_def)
  show ?thesis
  proof (cases "mu_transcoder s")
    case None
    have "set_status MediaUploaded ?m = ?m" by (simp add: set_status_def set_upload_def)
    with None rest 2 q own head ok mime show ?thesis by (intro conjI exI [of _ head] exI [of _ w1]) auto
  next
    case (Some t)
    with rest obtain w3 where st: "mr_UpdateStatus (mu_mediaRepo s) ?i MediaProcessing w2 = (Inr (), w3)"
      and enq: "Enqueue t ?i w3 = (Inr (), w')" and out: "out = \<lparr>cuo_MediaID = ?i, cuo_Status = MediaProcessing\<rparr>"
      by auto
    from update_law_Inr [OF UpdateStatus_law 2(1) st] 2(2)
    have 3: "invar w3" "media_at w3 = (media_at w)(?i \<mapsto> set_status MediaProcessing ?m)"
      by (auto simp: updated_def)
    from quietD [OF enqueue_quiet [OF Some] 3(1) enq] have 4: "invar w'" "media_at w' = media_at w3" by auto
    from staysD [OF queue_kept(4) st] q have "jobQueue w3 = jobQueue w" by (simp add: unchanged_def)
    with Some 3 4 own head ok mime enq out show ?thesis by (intro conjI exI [of _ head] exI [of _ w1]) auto
  qed
qed

lemma CompleteUpload_Inr:
  assumes inv: "invar w" and run: "CompleteUpload s inp w = (Inr out, w')"
  shows "invar w' \<and> cuo_MediaID out = cu_MediaID inp \<and> (\<exists>m w1 head w2.
    media_at w (cu_MediaID inp) = Some m \<and> live m \<and> media_OwnerUserID m = cu_OwnerUserID inp \<and>
    mr_GetByID (mu_mediaRepo s) (cu_MediaID inp) w = (Inr m, w1) \<and>
    HeadObject (mu_storage s) (media_StorageKey m) w1 = (Inr head, w2) \<and> 0 < oh_ContentLength head \<and>
    normalizeMime (mu_text s) (oh_ContentType head) \<in> set (mu_allowedMimeTypes s) \<and> media_at w' =
      (media_at w)(cu_MediaID inp \<mapsto> set_status (cuo_Status out) (set_upload MediaUploaded
        (oh_ContentLength head) (normalizeMime (mu_text s) (oh_ContentType head)) m))) \<and>
    (case mu_transcoder s of
       None \<Rightarrow> cuo_Status out = MediaUploaded \<and> jobQueue w' = jobQueue w
     | Some t \<Rightarrow> cuo_Status out = MediaProcessing \<and>
         (\<exists>v. jobQueue v = jobQueue w \<and> Enqueue t (cu_MediaID inp) v = (Inr (), w')))"
proof -
  from run obtain m w1 where g: "mr_GetByID (mu_mediaRepo s) (cu_MediaID inp) w = (Inr m, w1)"
    and rest: "complete_found s inp m w1 = (Inr out, w')"
    by (auto simp: CompleteUpload_def prog_simps split: if_splits)
  from quietD [OF GetByID_quiet inv g] have 1: "invar w1" "media_at w1 = media_at w" by auto
  from GetByID_Inr [OF inv g] media_at_ID [OF inv] have m: "media_at w (cu_MediaID inp) = Some m"
    "live m" "media_ID m = cu_MediaID inp" by auto
  from staysD [OF queue_kept(1) g] have q: "jobQueue w1 = jobQueue w" by (simp add: unchanged_def)
  from complete_found_Inr [OF 1(1) _ rest, unfolded 1(2) m(3) q, OF m(1)] m(1,2) g show ?thesis by blast
qed

lemma guarded_owner:
  assumes inv: "invar w" and m: "media_at w i = Some m" "media_OwnerUserID m \<noteq> owner"
    and run: "bindP (mr_GetByID (mu_mediaRepo s) i) f w = (r, w')"
    and f: "\<And>m v. media_OwnerUserID m \<noteq> owner \<Longrightarrow> f m v = (Inl ErrForbiddenMedia, v)"
  shows "(\<exists>e. r = Inl e) \<and> invar w' \<and> media_at w' = media_at w \<and> jobQueue w' = jobQueue w"
proof -
  obtain g w1 where g: "mr_GetByID (mu_mediaRepo s) i w = (g, w1)"
    by (cases "mr_GetByID (mu_mediaRepo s) i w")
  from quietD [OF GetByID_quiet inv g] staysD [OF queue_kept(1) g]
  have 1: "invar w1" "media_at w1 = media_at w" "jobQueue w1 = jobQueue w" by (auto simp: unchanged_def)
  show ?thesis
  proof (cases g)
    case (Inl e)
    with run g 1 show ?thesis by (auto simp: bindP_def)
  next
    case (Inr q)
    from GetByID_Inr [OF inv g [unfolded Inr]] m have "media_OwnerUserID q \<noteq> owner" by simp
    from f [OF this] run g Inr 1 show ?thesis by (auto simp: bindP_def)
  qed
qed

text \<open>Nobody completes, deletes or (without a cache) plays a media of somebody else.\<close>

lemma owner_only:
  assumes "invar w" and "media_at w i = Some m" "media_OwnerUserID m \<noteq> owner"
  shows "CompleteUpload s \<lparr>cu_OwnerUserID = owner, cu_MediaID = i\<rparr> w = (r1, w1) \<Longrightarrow>
      (\<exists>e. r1 = Inl e) \<and> invar w1 \<and> media_at w1 = media_at w \<and> jobQueue w1 = jobQueue w"
    and "DeleteMedia fuel s owner i w = (r2, w2) \<Longrightarrow>
      (\<exists>e. r2 = Inl e) \<and> invar w2 \<and> media_at w2 = media_at w \<and> jobQueue w2 = jobQueue w"
    and "mu_cache s = None \<Longrightarrow> GetPlayback s owner i w = (r3, w3) \<Longrightarrow>
      (\<exists>e. r3 = Inl e) \<and> invar w3 \<and> media_at w3 = media_at w \<and> jobQueue w3 = jobQueue w"
proof -
  note own = guarded_owner [OF assms]
  show "CompleteUpload s \<lparr>cu_OwnerUserID = owner, cu_MediaID = i\<rparr> w = (r1, w1) \<Longrightarrow>
      (\<exists>e. r1 = Inl e) \<and> invar w1 \<and> media_at w1 = media_at w \<and> jobQueue w1 = jobQueue w"
    using assms(1) own [of "complete_found s \<lparr>cu_OwnerUserID = owner, cu_MediaID = i\<rparr>"]
    by (auto simp: CompleteUpload_def complete_found_def failP_def split: if_splits)
  show "DeleteMedia fuel s owner i w = (r2, w2) \<Longrightarrow>
      (\<exists>e. r2 = Inl e) \<and> invar w2 \<and> media_at w2 = media_at w \<and> jobQueue w2 = jobQueue w"
    using assms(1) own [of "delete_found fuel s owner i"]
    by (auto simp: DeleteMedia_def delete_found_def failP_def split: if_splits)
  show "mu_cache s = None \<Longrightarrow> GetPlayback s owner i w = (r3, w3) \<Longrightarrow>
      (\<exists>e. r3 = Inl e) \<and> invar w3 \<and> media_at w3 = media_at w \<and> jobQueue w3 = jobQueue w"
    using assms(1) by (auto simp: GetPlayback_def cached_playback_def bindP_retP failP_def
        split: if_splits dest!: own)
qed

text \<open>A deletion purges the store first, and only then marks the row.\<close>

lemma DeleteMedia_cases:
  assumes inv: "invar w" and run: "DeleteMedia fuel s owner i w = (r, w')"
  obtains (kept) e where "r = Inl e" "invar w'" "media_at w' = media_at w"
  | (purged) m w1 w2 w3 t where "media_at w i = Some m" "live m" "media_OwnerUserID m = owner"
      "mr_GetByID (mu_mediaRepo s) i w = (Inr m, w1)"
      "DeleteObjectsByPrefix fuel (mu_storage s) (path_Join [''users'', owner, ''media'', i] @ ''/'') w1 = (Inr (), w2)"
      "readP (mu_clock s) w2 = (Inr t, w3)" "invar w'"
      "media_at w' = (media_at w)(i \<mapsto> set_deleted t m)"
      "\<exists>q w4. mr_SoftDelete (mu_mediaRepo s) i t w3 = (q, w4) \<and> (case q of Inl e \<Rightarrow> r = Inl e \<and> w' = w4
        | Inr _ \<Rightarrow> r = Inr () \<and> (case mu_cache s of None \<Rightarrow> w' = w4
            | Some c \<Rightarrow> w' = snd (redis_Del c (playbackCacheKey i) w4)))"
proof -
  obtain g w1 where g: "mr_GetByID (mu_mediaRepo s) i w = (g, w1)" by (cases "mr_GetByID (mu_mediaRepo s) i w")
  from quietD [OF GetByID_quiet inv g] have 1: "invar w1" "media_at w1 = media_at w" by auto
  show thesis
  proof (cases "(TrimSpace owner = [] \<or> TrimSpace i = []) \<or> (\<exists>e. g = Inl e)")
    case True
    with run g inv 1 have "\<exists>e. r = Inl e" "invar w' \<and> media_at w' = media_at w"
      by (auto simp: DeleteMedia_def failP_def bindP_def split: if_splits)
    with kept show thesis by blast
  next
    case False
    then obtain m where m: "g = Inr m" by (cases g) auto
    from GetByID_Inr [OF inv g [unfolded m]] media_at_ID [OF inv] have at: "media_at w i = Some m" "live m"
      "media_ID m = i" by auto
    from run g m False have rest: "delete_found fuel s owner i m w1 = (r, w')"
      by (simp add: DeleteMedia_def bindP_def)
    let ?p = "path_Join [''users'', media_OwnerUserID m, ''media'', i] @ ''/''"
    obtain d w2 where d: "DeleteObjectsByPrefix fuel (mu_storage s) ?p w1 = (d, w2)"
      by (cases "DeleteObjectsByPrefix fuel (mu_storage s) ?p w1")
    from quietD [OF delete_quiet 1(1) d] 1 have 2: "invar w2" "media_at w2 = media_at w" by auto
    show thesis
    proof (cases "media_OwnerUserID m \<noteq> owner \<or> (\<exists>e. d = Inl e)")
      case True
      with rest d 1 2 at have "\<exists>e. r = Inl e" "invar w' \<and> media_at w' = media_at w"
        by (auto simp: delete_found_def failP_def bindP_def mapErrP_def split: if_splits)
      with kept show thesis by blast
    next
      case own: False
      then have own: "media_OwnerUserID m = owner" "d = Inr ()" by (cases d; auto)+
      obtain t w3 where t: "readP (mu_clock s) w2 = (Inr t, w3)" by (cases "mu_clock s w2") (simp add: readP_def)
      from quietD [OF clock_quiet 2(1) t] 2 have 3: "invar w3" "media_at w3 = media_at w" by auto
      obtain q w4 where q: "mr_SoftDelete (mu_mediaRepo s) i t w3 = (q, w4)"
        by (cases "mr_SoftDelete (mu_mediaRepo s) i t w3")
      have last: "case q of Inl e \<Rightarrow> r = Inl e \<and> w' = w4 | Inr _ \<Rightarrow> r = Inr () \<and>
          (case mu_cache s of None \<Rightarrow> w' = w4 | Some c \<Rightarrow> w' = snd (redis_Del c (playbackCacheKey i) w4))"
        using rest own d t q at(3)
        by (auto simp: delete_found_def bindP_def mapErrP_def attemptP_def retP_def
            split: sum.splits option.splits prod.splits)
      have rows: "invar w4 \<and> media_at w' = media_at w4 \<and> invar w'" if "invar w4"
        using last that quietD [OF redis_quiet(3), of _ w4]
        by (cases q; cases "mu_cache s") (auto, (metis prod.collapse)+)
      from update_law_Inl [OF SoftDelete_law 3(1)] update_law_Inr [OF SoftDelete_law 3(1)] q 3(2)
      have 4: "invar w4 \<and> ((\<exists>e. q = Inl e) \<and> media_at w4 = media_at w \<or>
          media_at w4 = (media_at w)(i \<mapsto> set_deleted t m))"
        using at(1) by (cases q) (fastforce simp: updated_def)+
      then consider "\<exists>e. q = Inl e" "media_at w4 = media_at w" | "media_at w4 = (media_at w)(i \<mapsto> set_deleted t m)"
        by blast
      then show thesis
      proof cases
        case 1
        with last rows 4 have "\<exists>e. r = Inl e" "invar w' \<and> media_at w' = media_at w" by auto
        with kept show thesis by blast
      next
        case 2
        with rows 4 have "invar w'" "media_at w' = (media_at w)(i \<mapsto> set_deleted t m)" by auto
        with purged [OF at(1,2) own(1)] g m d t q last own show thesis by auto
      qed
    qed
  qed
qed

end

subsection \<open>The service on a platform\<close>

record upload_config =
  uc_maxSizeBytes :: int
  uc_allowedMimeTypes :: "string list"
  uc_presignURLTTL :: duration
  uc_playbackSignedTTL :: duration

definition pg_upload_service ::
    "('e, 'q) platform \<Rightarrow> storage_config \<Rightarrow> playback_json \<Rightarrow> 'e world MediaTranscoderService option \<Rightarrow>
      bool \<Rightarrow> upload_config \<Rightarrow> 'e MediaUploadService" where
  "pg_upload_service pf c js t cached u =
    NewMediaUploadService (ext_read (pf_clock pf)) (ext_crypto (pf_crypto pf)) js (pf_text pf)
      \<lparr>nu_mediaRepo = NewPostgresMediaRepository (pf_pool pf), nu_storage = pg_storage pf c, nu_transcoder = t,
       nu_cache = (if cached then Some (ext_redis (pf_redis pf)) else None),
       nu_maxSizeBytes = uc_maxSizeBytes u, nu_allowedMimeTypes = uc_allowedMimeTypes u,
       nu_presignURLTTL = uc_presignURLTTL u, nu_playbackSignedTTL = uc_playbackSignedTTL u\<rparr>"

lemma pg_upload_service_simps [simp]:
  "mu_mediaRepo (pg_upload_service pf c js t b u) = NewPostgresMediaRepository (pf_pool pf)"
  "mu_storage (pg_upload_service pf c js t b u) = pg_storage pf c"
  "mu_transcoder (pg_upload_service pf c js t b u) = t"
  "mu_cache (pg_upload_service pf c js t b u) = (if b then Some (ext_redis (pf_redis pf)) else None)"
  "mu_clock (pg_upload_service pf c js t b u) = ext_read (pf_clock pf)"
  "mu_crypto (pg_upload_service pf c js t b u) = ext_crypto (pf_crypto pf)"
  "mu_json (pg_upload_service pf c js t b u) = js" "mu_text (pg_upload_service pf c js t b u) = pf_text pf"
  by (simp_all add: pg_upload_service_def NewMediaUploadService_def)

text \<open>The calls to the object store are calls outside the program.\<close>

lemma data_storage:
  "stays same_data (PresignPutObject (pg_storage pf c) key ct d)"
  "stays same_data (PresignGetObject (pg_storage pf c) key d)"
  "stays same_data (HeadObject (pg_storage pf c) key)" "stays same_data (GetObjectBytes (pg_storage pf c) key)"
  unfolding PresignPutObject_def PresignGetObject_def HeadObject_def GetObjectBytes_def pg_storage_simps
    ext_s3_simps
  by (intro frame_intros)+

lemma data_DeleteObjectsByPrefix: "stays same_data (DeleteObjectsByPrefix fuel (pg_storage pf c) p)"
  by (rule data.stays_DeleteObjectsByPrefix_all) (simp_all add: same_data_ext)

lemma same_data_queue: "stays same_data m \<Longrightarrow> stays (unchanged jobQueue) m"
  by (auto simp: stays_def same_data_def unchanged_def)

lemma repo_GetByID_queue: "stays (unchanged jobQueue) (PostgresMedia_GetByID pool i)"
  unfolding stays_def
proof
  fix w
  obtain r w' where run: "run_stmt pool (media_select i) w = (r, w')" by (cases "run_stmt pool (media_select i) w")
  from run_stmt_queue [OF run] run show "unchanged jobQueue w (snd (PostgresMedia_GetByID pool i w))"
    by (simp add: PostgresMedia_GetByID_def mapErrP_state query_row_state unchanged_def)
qed

interpretation pg_upload: media_upload "pg_upload_service pf c js t b u" world_ok media_row
  for pf :: "('e, 'q) platform" and c js t b u
proof (intro media_upload.intro media_upload_axioms.intro)
  let ?s = "pg_upload_service pf c js t b u"
  show "media_repository (mu_mediaRepo ?s) world_ok media_row"
    unfolding pg_upload_service_simps by (rule pg_media.media_repository_axioms)
  fix n fuel :: nat and key ct v i mime :: string and d st sz and r :: "'e world redis_client"
    and tr :: "'e world MediaTranscoderService"
  show "stays (quiet world_ok media_row) (readP (mu_clock ?s))" by (simp add: ext_read_quiet)
  show "stays (quiet world_ok media_row) (rand_Read (mu_crypto ?s) n)" by (simp add: ext_quiet)
  show "stays (quiet world_ok media_row) (PresignPutObject (mu_storage ?s) key ct d)"
    "stays (quiet world_ok media_row) (PresignGetObject (mu_storage ?s) key d)"
    "stays (quiet world_ok media_row) (HeadObject (mu_storage ?s) key)"
    "stays (quiet world_ok media_row) (GetObjectBytes (mu_storage ?s) key)"
    "stays (quiet world_ok media_row) (DeleteObjectsByPrefix fuel (mu_storage ?s) key)"
    unfolding pg_upload_service_simps
    by (intro same_data_quiet data_storage data_DeleteObjectsByPrefix)+
  show "mu_cache ?s = Some r \<Longrightarrow> stays (quiet world_ok media_row) (redis_Get r key)"
    "mu_cache ?s = Some r \<Longrightarrow> stays (quiet world_ok media_row) (redis_Set r key v d)"
    "mu_cache ?s = Some r \<Longrightarrow> stays (quiet world_ok media_row) (redis_Del r key)"
    by (auto simp: ext_quiet split: if_splits)
  show "mu_transcoder ?s = Some tr \<Longrightarrow> stays (quiet world_ok media_row) (Enqueue tr i)"
    by (auto simp: stays_def Enqueue_def Let_def quiet_def world_ok_def)
  show "stays (unchanged jobQueue) (mr_GetByID (mu_mediaRepo ?s) i)" by (simp add: repo_GetByID_queue)
  show "stays (unchanged jobQueue) (HeadObject (mu_storage ?s) key)"
    unfolding pg_upload_service_simps by (intro same_data_queue data_storage)
  show "stays (unchanged jobQueue) (mr_UpdateUploadState (mu_mediaRepo ?s) i st sz mime)"
    "stays (unchanged jobQueue) (mr_UpdateStatus (mu_mediaRepo ?s) i st)"
    by (simp_all add: PostgresMedia_UpdateUploadState_def PostgresMedia_UpdateStatus_def repo_queue)
qed

end
