(* ===== verification/Room_Playback.thy ===== *)
theory Room_Playback
  imports Room_Repository Externals
begin

text \<open>
  \<open>internal/service/room_playback.go\<close>: the playback state of a room, which the host writes and
  everybody reads, kept in Redis as JSON. \<open>encoding/json\<close> and the Redis client are parameters.
\<close>

record RoomPlaybackState =
  rps_RoomID :: string
  rps_MediaID :: string
  rps_Status :: string
  rps_PositionMs :: int
  rps_PlaybackRate :: float64
  rps_UpdatedAt :: int
  rps_Version :: int
  rps_HostID :: string

text \<open>A \<open>PlaybackStatus\<close> is a string; these are the ones with a name.\<close>

definition PlaybackStatusPlaying :: string where "PlaybackStatusPlaying = ''playing''"
definition PlaybackStatusPaused :: string where "PlaybackStatusPaused = ''paused''"
definition PlaybackStatusSeeking :: string where "PlaybackStatusSeeking = ''seeking''"

record UpdateRoomPlaybackInput =
  up_MediaID :: string
  up_Status :: string
  up_PositionMs :: int
  up_PlaybackRate :: float64

record state_json =
  sj_Marshal :: "RoomPlaybackState \<Rightarrow> err + string"
  sj_Unmarshal :: "string \<Rightarrow> err + RoomPlaybackState"

record 'w RoomPlaybackService =
  rp_rooms :: "'w RoomRepository"
  rp_cache :: "'w redis_client"
  rp_clock :: "'w \<Rightarrow> time \<times> 'w"
  rp_json :: state_json

definition NewRoomPlaybackService ::
    "('w \<Rightarrow> time \<times> 'w) \<Rightarrow> state_json \<Rightarrow> 'w RoomRepository \<Rightarrow> 'w redis_client \<Rightarrow> 'w RoomPlaybackService" where
  "NewRoomPlaybackService clk js rooms cache =
    \<lparr>rp_rooms = rooms, rp_cache = cache, rp_clock = clk, rp_json = js\<rparr>"

definition stateKey :: "string \<Rightarrow> string" where
  "stateKey roomID = ''room:playback:v1:'' @ roomID"

definition GetState :: "'w RoomPlaybackService \<Rightarrow> string \<Rightarrow> ('w, RoomPlaybackState) prog" where
  "GetState s roomID =
    bindP (mapErrP (\<lambda>e. if Is e (Driver RedisNil) then ErrPlaybackStateNotFound else e)
      (redis_Get (rp_cache s) (stateKey roomID))) (\<lambda>raw.
        case sj_Unmarshal (rp_json s) raw of Inl e \<Rightarrow> failP e | Inr state \<Rightarrow> retP state)"

text \<open>\<open>t.UnixMilli()\<close>, and \<open>x > 0\<close> for a \<open>float64\<close>.\<close>

definition UnixMilli :: "time \<Rightarrow> int" where
  "UnixMilli t = wrap64 (t div 1000000)"

definition float_gt_0 :: "float64 \<Rightarrow> bool" where
  "float_gt_0 x = (case x of Fin q \<Rightarrow> 0 < q | PosInf \<Rightarrow> True | _ \<Rightarrow> False)"

definition float_not_gt_0 :: "float64 \<Rightarrow> bool" where
  "float_not_gt_0 x = (case x of Fin q \<Rightarrow> q \<le> 0 | NegInf \<Rightarrow> True | _ \<Rightarrow> False)"

text \<open>The state of a room nobody has written yet.\<close>

definition initial_state :: "string \<Rightarrow> string \<Rightarrow> string \<Rightarrow> time \<Rightarrow> RoomPlaybackState" where
  "initial_state roomID hostUserID mediaID now =
    \<lparr>rps_RoomID = roomID, rps_MediaID = mediaID, rps_Status = PlaybackStatusPaused, rps_PositionMs = 0,
     rps_PlaybackRate = Fin 1, rps_UpdatedAt = UnixMilli now, rps_Version = 0, rps_HostID = hostUserID\<rparr>"

definition next_state ::
    "string \<Rightarrow> UpdateRoomPlaybackInput \<Rightarrow> time \<Rightarrow> RoomPlaybackState \<Rightarrow> RoomPlaybackState" where
  "next_state hostUserID inp now current =
    current\<lparr>rps_MediaID := (if up_MediaID inp \<noteq> [] then up_MediaID inp else rps_MediaID current),
      rps_Status := (if up_Status inp \<noteq> [] then up_Status inp else rps_Status current),
      rps_PositionMs := up_PositionMs inp,
      rps_PlaybackRate := (if float_gt_0 (up_PlaybackRate inp) then up_PlaybackRate inp
        else if float_not_gt_0 (rps_PlaybackRate current) then Fin 1 else rps_PlaybackRate current),
      rps_UpdatedAt := UnixMilli now, rps_Version := wrap64 (rps_Version current + 1),
      rps_HostID := hostUserID\<rparr>"

text \<open>The state to start from: what is stored, or the initial one when nothing is.\<close>

definition current_state ::
    "'w RoomPlaybackService \<Rightarrow> string \<Rightarrow> string \<Rightarrow> UpdateRoomPlaybackInput \<Rightarrow> ('w, RoomPlaybackState) prog" where
  "current_state s roomID hostUserID inp =
    bindP (attemptP (GetState s roomID)) (\<lambda>r.
      case r of
        Inr current \<Rightarrow> retP current
      | Inl e \<Rightarrow> if Is e ErrPlaybackStateNotFound
                 then bindP (readP (rp_clock s)) (\<lambda>now. retP (initial_state roomID hostUserID (up_MediaID inp) now))
                 else failP e)"

definition SaveByHost ::
    "'w RoomPlaybackService \<Rightarrow> string \<Rightarrow> string \<Rightarrow> UpdateRoomPlaybackInput \<Rightarrow> ('w, RoomPlaybackState) prog" where
  "SaveByHost s roomID hostUserID inp =
    bindP (rr_GetRoomByID (rp_rooms s) roomID) (\<lambda>room.
      if room_OwnerUserID room \<noteq> hostUserID then failP ErrRoomForbidden
      else if room_Status room \<noteq> RoomActive then failP ErrRoomEnded
      else bindP (current_state s roomID hostUserID inp) (\<lambda>current.
        bindP (readP (rp_clock s)) (\<lambda>now.
          let state = next_state hostUserID inp now current
          in case sj_Marshal (rp_json s) state of
               Inl e \<Rightarrow> failP e
             | Inr payload \<Rightarrow> bindP (redis_Set (rp_cache s) (stateKey roomID) payload (24 * Hour)) (\<lambda>_.
                 retP state))))"

subsection \<open>What Redis promises\<close>

text \<open>
  \<open>kv\<close> shows the payload that Redis has for a key. Reading may find an entry expired; a write
  that succeeds leaves the new payload there, or nothing once it has expired.
\<close>

definition redis_holds :: "'w redis_client \<Rightarrow> ('w \<Rightarrow> string \<Rightarrow> string option) \<Rightarrow> bool" where
  "redis_holds r kv \<longleftrightarrow>
    (\<forall>k w v w'. redis_Get r k w = (Inr v, w') \<longrightarrow> kv w k = Some v) \<and>
    (\<forall>k v d w w'. redis_Set r k v d w = (Inr (), w') \<longrightarrow> kv w' k = Some v \<or> kv w' k = None)"

lemma redis_holds_Get: "redis_holds r kv \<Longrightarrow> redis_Get r k w = (Inr v, w') \<Longrightarrow> kv w k = Some v"
  unfolding redis_holds_def by blast

lemma redis_holds_Set:
  "redis_holds r kv \<Longrightarrow> redis_Set r k v d w = (Inr (), w') \<Longrightarrow> kv w' k = Some v \<or> kv w' k = None"
  unfolding redis_holds_def by metis

lemma ext_Inr: "ext m w = (Inr v, w') \<Longrightarrow> m (env w) = (Inr v, env w')"
  by (auto simp: ext_def split: prod.splits)

lemma redis_holds_ext:
  assumes "redis_holds r kv"
  shows "redis_holds (ext_redis r) (\<lambda>w. kv (env w))"
  unfolding redis_holds_def ext_redis_simps
proof (intro conjI allI impI)
  show "kv (env w) k = Some v" if "ext (redis_Get r k) w = (Inr v, w')" for k w v w'
    by (rule redis_holds_Get [OF assms ext_Inr [OF that]])
  show "kv (env w') k = Some v \<or> kv (env w') k = None"
    if "ext (redis_Set r k v d) w = (Inr (), w')" for k v d w w'
    by (rule redis_holds_Set [OF assms ext_Inr [OF that]])
qed

lemma GetState_Inr:
  assumes "GetState s i w = (Inr st, w')"
  shows "\<exists>v w1. redis_Get (rp_cache s) (stateKey i) w = (Inr v, w1) \<and> sj_Unmarshal (rp_json s) v = Inr st"
proof -
  from assms obtain v w1 where "redis_Get (rp_cache s) (stateKey i) w = (Inr v, w1)"
    and rest: "(case sj_Unmarshal (rp_json s) v of Inl e \<Rightarrow> failP e | Inr state \<Rightarrow> retP state) w1 = (Inr st, w')"
    by (auto simp: GetState_def prog_simps)
  moreover from rest have "sj_Unmarshal (rp_json s) v = Inr st"
    by (cases "sj_Unmarshal (rp_json s) v") (auto simp: prog_simps)
  ultimately show ?thesis by blast
qed

text \<open>Where the state to start from comes from.\<close>

definition starts_from ::
    "'w RoomPlaybackService \<Rightarrow> string \<Rightarrow> string \<Rightarrow> UpdateRoomPlaybackInput \<Rightarrow> 'w \<Rightarrow> RoomPlaybackState \<Rightarrow> bool" where
  "starts_from s i u inp w current \<longleftrightarrow>
    (case GetState s i w of
       (Inr st, _) \<Rightarrow> current = st
     | (Inl e, _) \<Rightarrow> Is e ErrPlaybackStateNotFound \<and> (\<exists>t. current = initial_state i u (up_MediaID inp) t))"

lemma current_state_Inr:
  assumes "current_state s i u inp w = (Inr current, w')"
  shows "starts_from s i u inp w current"
proof -
  obtain r w1 where r: "GetState s i w = (r, w1)" by (cases "GetState s i w")
  show ?thesis
  proof (cases r)
    case (Inl e)
    with r assms show ?thesis
      by (auto simp: starts_from_def current_state_def bindP_def attemptP_def readP_def retP_def failP_def
          split: if_splits prod.splits)
  next
    case (Inr st)
    with r assms show ?thesis
      by (auto simp: starts_from_def current_state_def bindP_def attemptP_def retP_def)
  qed
qed

subsection \<open>The service over any repository that keeps the contract\<close>

locale room_playback =
  rooms: room_repository "rp_rooms s" invar room_at
  for s :: "'w RoomPlaybackService" and invar :: "'w \<Rightarrow> bool" and room_at :: "'w \<Rightarrow> string \<Rightarrow> Room option" +
  assumes clock_quiet: "stays (quiet invar room_at) (readP (rp_clock s))"
    and redis_quiet: "stays (quiet invar room_at) (redis_Get (rp_cache s) k)"
      "stays (quiet invar room_at) (redis_Set (rp_cache s) k v d)"
begin

lemma quiet_GetState: "stays (quiet invar room_at) (GetState s i)"
  unfolding GetState_def by (intro frame_intros redis_quiet)

lemma quiet_SaveByHost: "stays (quiet invar room_at) (SaveByHost s i u inp)"
  unfolding SaveByHost_def current_state_def Let_def
  by (intro frame_intros redis_quiet clock_quiet quiet_GetState rooms.GetRoomByID_quiet)

text \<open>A state is written by the host of an active room, from the state before.\<close>

lemma SaveByHost_Inr:
  assumes inv: "invar w" and run: "SaveByHost s i u inp w = (Inr st, w')"
  shows "\<exists>room w1 current now v w3. room_at w i = Some room \<and> room_OwnerUserID room = u \<and>
    room_Status room = RoomActive \<and> rr_GetRoomByID (rp_rooms s) i w = (Inr room, w1) \<and>
    starts_from s i u inp w1 current \<and> st = next_state u inp now current \<and> sj_Marshal (rp_json s) st = Inr v \<and>
    redis_Set (rp_cache s) (stateKey i) v (24 * Hour) w3 = (Inr (), w')"
proof -
  from run obtain room w1 where room: "rr_GetRoomByID (rp_rooms s) i w = (Inr room, w1)"
    and rest: "(if room_OwnerUserID room \<noteq> u then failP ErrRoomForbidden
      else if room_Status room \<noteq> RoomActive then failP ErrRoomEnded
      else bindP (current_state s i u inp) (\<lambda>current. bindP (readP (rp_clock s)) (\<lambda>now.
          let state = next_state u inp now current
          in case sj_Marshal (rp_json s) state of
               Inl e \<Rightarrow> failP e
             | Inr payload \<Rightarrow> bindP (redis_Set (rp_cache s) (stateKey i) payload (24 * Hour)) (\<lambda>_.
                 retP state)))) w1 = (Inr st, w')"
    unfolding SaveByHost_def by (auto simp: bindP_Inr)
  from rest have guards: "room_OwnerUserID room = u" "room_Status room = RoomActive"
    by (auto simp: failP_eq split: if_splits)
  with rest obtain current w2 now w3 where
    current: "current_state s i u inp w1 = (Inr current, w2)"
    and put: "(case sj_Marshal (rp_json s) (next_state u inp now current) of
               Inl e \<Rightarrow> failP e
             | Inr payload \<Rightarrow> bindP (redis_Set (rp_cache s) (stateKey i) payload (24 * Hour)) (\<lambda>_.
                 retP (next_state u inp now current))) w3 = (Inr st, w')"
    by (auto simp: bindP_Inr Let_def)
  then obtain v where v: "sj_Marshal (rp_json s) (next_state u inp now current) = Inr v"
    by (cases "sj_Marshal (rp_json s) (next_state u inp now current)") (auto simp: failP_eq)
  with put have "st = next_state u inp now current"
    "redis_Set (rp_cache s) (stateKey i) v (24 * Hour) w3 = (Inr (), w')"
    by (auto simp: prog_simps)
  moreover from current have "starts_from s i u inp w1 current"
    by (rule current_state_Inr)
  moreover from rooms.GetRoomByID_Inr [OF inv room] have "room_at w i = Some room" by blast
  ultimately show ?thesis using guards v room by blast
qed

lemma SaveByHost_refuses:
  assumes inv: "invar w" and room: "room_at w i = Some room"
    and bad: "room_OwnerUserID room \<noteq> u \<or> room_Status room \<noteq> RoomActive"
    and run: "SaveByHost s i u inp w = (r, w')"
  shows "\<exists>e g. r = Inl e \<and> rr_GetRoomByID (rp_rooms s) i w = (g, w') \<and>
    (\<forall>q. g = Inr q \<longrightarrow> e = (if room_OwnerUserID room \<noteq> u then ErrRoomForbidden else ErrRoomEnded))"
proof -
  obtain g w1 where g: "rr_GetRoomByID (rp_rooms s) i w = (g, w1)" by (cases "rr_GetRoomByID (rp_rooms s) i w")
  show ?thesis
  proof (cases g)
    case (Inl e)
    with g run show ?thesis by (auto simp: SaveByHost_def bindP_def)
  next
    case (Inr q)
    from rooms.GetRoomByID_Inr [OF inv g [unfolded Inr]] room have "q = room" by simp
    with g Inr run bad show ?thesis by (auto simp: SaveByHost_def bindP_def failP_def split: if_splits)
  qed
qed

text \<open>What has been saved is what is read, as long as it has not expired.\<close>

lemma SaveByHost_GetState:
  assumes inv: "invar w" and run: "SaveByHost s i u inp w = (Inr st, w1)"
    and redis: "redis_holds (rp_cache s) kv"
    and json: "\<And>v. sj_Marshal (rp_json s) st = Inr v \<Longrightarrow> sj_Unmarshal (rp_json s) v = Inr st"
    and get: "GetState s i w1 = (Inr st', w2)"
  shows "st' = st"
proof -
  from SaveByHost_Inr [OF inv run] obtain v w3 where v: "sj_Marshal (rp_json s) st = Inr v"
    and put: "redis_Set (rp_cache s) (stateKey i) v (24 * Hour) w3 = (Inr (), w1)" by blast
  from GetState_Inr [OF get] obtain v' w4 where "redis_Get (rp_cache s) (stateKey i) w1 = (Inr v', w4)"
    and v': "sj_Unmarshal (rp_json s) v' = Inr st'" by blast
  with redis_holds_Get [OF redis] have "kv w1 (stateKey i) = Some v'" by blast
  with redis_holds_Set [OF redis put] have "v' = v" by auto
  with v' json [OF v] show ?thesis by simp
qed

end

text \<open>A new state has a version one up, at most a wrap-around, and a rate that plays.\<close>

lemma next_state_version:
  "MinInt64 \<le> rps_Version (next_state u inp now st) \<and> rps_Version (next_state u inp now st) \<le> MaxInt64 \<and>
    (0 \<le> rps_Version st \<and> rps_Version st < MaxInt64 \<longrightarrow>
      rps_Version (next_state u inp now st) = rps_Version st + 1)"
  using wrap64_range [of "rps_Version st + 1"] by (auto simp: next_state_def wrap64_id)

lemma next_state_rate:
  "rps_PlaybackRate st \<noteq> NaN \<Longrightarrow> float_gt_0 (rps_PlaybackRate (next_state u inp now st))"
  by (auto simp: next_state_def float_gt_0_def float_not_gt_0_def split: float64.splits)

subsection \<open>The service on a platform\<close>

definition pg_playback_service :: "('e, 'q) platform \<Rightarrow> state_json \<Rightarrow> 'e world RoomPlaybackService" where
  "pg_playback_service pf js = NewRoomPlaybackService (ext_read (pf_clock pf)) js
    (NewPostgresRoomRepository (pf_pool pf)) (ext_redis (pf_redis pf))"

lemma pg_playback_service_simps [simp]:
  "rp_rooms (pg_playback_service pf js) = NewPostgresRoomRepository (pf_pool pf)"
  "rp_cache (pg_playback_service pf js) = ext_redis (pf_redis pf)"
  "rp_clock (pg_playback_service pf js) = ext_read (pf_clock pf)" "rp_json (pg_playback_service pf js) = js"
  by (simp_all add: pg_playback_service_def NewRoomPlaybackService_def)

interpretation pg_playback: room_playback "pg_playback_service pf js" world_ok room_row
  for pf :: "('e, 'q) platform" and js :: state_json
proof (intro room_playback.intro room_playback_axioms.intro)
  let ?s = "pg_playback_service pf js"
  show "room_repository (rp_rooms ?s) world_ok room_row"
    unfolding pg_playback_service_simps by (rule pg_rooms.room_repository_axioms)
  fix k v d
  show "stays (quiet world_ok room_row) (readP (rp_clock ?s))" by (simp add: ext_read_quiet)
  show "stays (quiet world_ok room_row) (redis_Get (rp_cache ?s) k)"
    "stays (quiet world_ok room_row) (redis_Set (rp_cache ?s) k v d)" by (simp_all add: ext_quiet)
qed

end
