(* ===== verification/Dto.thy ===== *)
theory Dto
  imports Http_Base Media_Upload Room_Playback
begin

text \<open>
  \<open>internal/http/dto\<close>: the bodies of requests, with their JSON fields and validation rules, and
  the bodies of responses, with their JSON text as a value. A rule is broken by the first tag of
  a field that fails.
\<close>

definition rule :: "string \<Rightarrow> (string \<times> bool) list \<Rightarrow> validation" where
  "rule field tags = (case find (\<lambda>(_, ok). \<not> ok) tags of None \<Rightarrow> [] | Some (tag, _) \<Rightarrow> [(field, tag)])"

subsection \<open>auth.go\<close>

record LoginRequest =
  lq_Email :: string
  lq_Password :: string

definition LoginRequest_fields :: "LoginRequest fields" where
  "LoginRequest_fields =
    [(''email'', string_field (\<lambda>s. lq_Email_update (\<lambda>_. s))),
     (''password'', string_field (\<lambda>s. lq_Password_update (\<lambda>_. s)))]"

definition validate_Login :: "(string \<Rightarrow> bool) \<Rightarrow> LoginRequest \<Rightarrow> validation" where
  "validate_Login is_email r =
    rule ''Email'' [(''required'', lq_Email r \<noteq> []), (''email'', is_email (lq_Email r))] @
    rule ''Password'' [(''required'', lq_Password r \<noteq> [])]"

record LoginResponse =
  lp_Name :: string
  lp_AccessToken :: string
  lp_AccessTTL :: int
  lp_RefreshTTL :: int

definition LoginResponse_json :: "LoginResponse \<Rightarrow> json" where
  "LoginResponse_json r = JObj
    [(''name'', JStr (lp_Name r)), (''access_token'', JStr (lp_AccessToken r)),
     (''access_ttl'', JInt (lp_AccessTTL r)), (''refresh_ttl'', JInt (lp_RefreshTTL r))]"

record RegisterRequest =
  gq_Name :: string
  gq_Email :: string
  gq_Password :: string

definition RegisterRequest_fields :: "RegisterRequest fields" where
  "RegisterRequest_fields =
    [(''name'', string_field (\<lambda>s. gq_Name_update (\<lambda>_. s))),
     (''email'', string_field (\<lambda>s. gq_Email_update (\<lambda>_. s))),
     (''password'', string_field (\<lambda>s. gq_Password_update (\<lambda>_. s)))]"

definition validate_Register :: "(string \<Rightarrow> bool) \<Rightarrow> RegisterRequest \<Rightarrow> validation" where
  "validate_Register is_email r =
    rule ''Name'' [(''required'', gq_Name r \<noteq> [])] @
    rule ''Email'' [(''required'', gq_Email r \<noteq> []), (''email'', is_email (gq_Email r))] @
    rule ''Password'' [(''required'', gq_Password r \<noteq> []), (''min'', 8 \<le> RuneCount (gq_Password r))]"

definition RegisterResponse_json :: "string \<Rightarrow> json" where
  "RegisterResponse_json userID = JObj [(''user_id'', JStr userID)]"

record RefreshResponse =
  fp_UserID :: string
  fp_AccessToken :: string
  fp_AccessTTL :: int
  fp_RefreshTTL :: int
  fp_Version :: int

definition RefreshResponse_json :: "RefreshResponse \<Rightarrow> json" where
  "RefreshResponse_json r = JObj
    [(''user_id'', JStr (fp_UserID r)), (''access_token'', JStr (fp_AccessToken r)),
     (''access_ttl'', JInt (fp_AccessTTL r)), (''refresh_ttl'', JInt (fp_RefreshTTL r)),
     (''version'', JInt (fp_Version r))]"

subsection \<open>media.go\<close>

text \<open>A pointer with \<open>omitempty\<close> is a field only when it is not nil.\<close>

definition omitempty :: "string \<Rightarrow> json option \<Rightarrow> (string \<times> json) list" where
  "omitempty k v = (case v of None \<Rightarrow> [] | Some x \<Rightarrow> [(k, x)])"

record InitMediaUploadRequest =
  mq_FileName :: string
  mq_ContentType :: string
  mq_SizeBytes :: int

definition InitMediaUploadRequest_fields :: "InitMediaUploadRequest fields" where
  "InitMediaUploadRequest_fields =
    [(''fileName'', string_field (\<lambda>s. mq_FileName_update (\<lambda>_. s))),
     (''contentType'', string_field (\<lambda>s. mq_ContentType_update (\<lambda>_. s))),
     (''sizeBytes'', int64_field (\<lambda>n. mq_SizeBytes_update (\<lambda>_. n)))]"

definition validate_InitUpload :: "InitMediaUploadRequest \<Rightarrow> validation" where
  "validate_InitUpload r =
    rule ''FileName'' [(''required'', mq_FileName r \<noteq> [])] @
    rule ''ContentType'' [(''required'', mq_ContentType r \<noteq> [])] @
    rule ''SizeBytes'' [(''required'', mq_SizeBytes r \<noteq> 0), (''gt'', 0 < mq_SizeBytes r)]"

definition InitMediaUploadResponse_json :: "InitUploadOutput \<Rightarrow> json" where
  "InitMediaUploadResponse_json out = JObj
    [(''mediaId'', JStr (iuo_MediaID out)), (''uploadUrl'', JStr (iuo_UploadURL out)),
     (''storageKey'', JStr (iuo_StorageKey out))]"

record CompleteMediaUploadRequest =
  cq_MediaID :: string

definition CompleteMediaUploadRequest_fields :: "CompleteMediaUploadRequest fields" where
  "CompleteMediaUploadRequest_fields = [(''mediaId'', string_field (\<lambda>s. cq_MediaID_update (\<lambda>_. s)))]"

definition validate_CompleteUpload :: "CompleteMediaUploadRequest \<Rightarrow> validation" where
  "validate_CompleteUpload r = rule ''MediaID'' [(''required'', cq_MediaID r \<noteq> [])]"

definition CompleteMediaUploadResponse_json :: "string \<Rightarrow> string \<Rightarrow> json" where
  "CompleteMediaUploadResponse_json mediaID status =
    JObj [(''mediaId'', JStr mediaID), (''status'', JStr status)]"

definition MediaListItemResponse_json :: "(time \<Rightarrow> string) \<Rightarrow> Media \<Rightarrow> json" where
  "MediaListItemResponse_json local m = JObj
    ([(''id'', JStr (media_ID m)), (''title'', JStr (media_Title m)),
      (''originalName'', JStr (media_OriginalName m)), (''playbackUrl'', JStr (media_PlaybackURL m))] @
     omitempty ''previewUrl'' (map_option JStr (media_PreviewURL m)) @
     omitempty ''durationSec'' (map_option JInt (media_DurationSec m)) @
     [(''fileSizeBytes'', JInt (media_FileSizeBytes m)), (''mimeType'', JStr (media_MimeType m)),
      (''status'', JStr (MediaStatus_string (media_Status m))),
      (''createdAt'', JStr (local (media_CreatedAt m)))])"

definition PlaybackMediaResponse_json :: "gotext \<Rightarrow> PlaybackOutput \<Rightarrow> json" where
  "PlaybackMediaResponse_json tx out = JObj
    ([(''mediaId'', JStr (po_MediaID out)), (''status'', JStr (po_Status out)),
      (''manifest'', JStr (po_Manifest out))] @
     omitempty ''manifestUrl'' (map_option JStr (po_ManifestURL out)) @
     omitempty ''previewUrl'' (map_option JStr (po_PreviewURL out)) @
     [(''expiresAt'', JStr (gt_FormatRFC3339 tx (po_ExpiresAt out)))])"

definition DeleteMediaResponse_json :: "string \<Rightarrow> string \<Rightarrow> json" where
  "DeleteMediaResponse_json mediaID status =
    JObj [(''mediaId'', JStr mediaID), (''status'', JStr status)]"

subsection \<open>rooms.go\<close>

record CreateRoomBody =
  cb_Name :: string

definition CreateRoomRequest_fields :: "CreateRoomBody fields" where
  "CreateRoomRequest_fields = [(''name'', string_field (\<lambda>s. cb_Name_update (\<lambda>_. s)))]"

definition validate_CreateRoom :: "CreateRoomBody \<Rightarrow> validation" where
  "validate_CreateRoom r =
    (if cb_Name r = [] then []
     else rule ''Name'' [(''min'', 2 \<le> RuneCount (cb_Name r)), (''max'', RuneCount (cb_Name r) \<le> 64)])"

definition RoomResponse_json :: "(time \<Rightarrow> string) \<Rightarrow> Room \<Rightarrow> json" where
  "RoomResponse_json local r = JObj
    [(''id'', JStr (room_ID r)), (''name'', JStr (room_Name r)),
     (''status'', JStr (RoomStatus_string (room_Status r))),
     (''created_at'', JStr (local (room_CreatedAt r)))]"

record JoinRoomRequest =
  jq_UserName :: string

definition JoinRoomRequest_fields :: "JoinRoomRequest fields" where
  "JoinRoomRequest_fields = [(''user_name'', string_field (\<lambda>s. jq_UserName_update (\<lambda>_. s)))]"

definition validate_JoinRoom :: "JoinRoomRequest \<Rightarrow> validation" where
  "validate_JoinRoom r =
    (if jq_UserName r = [] then []
     else rule ''UserName''
       [(''min'', 1 \<le> RuneCount (jq_UserName r)), (''max'', RuneCount (jq_UserName r) \<le> 36)])"

record RoomStateResponse =
  sp_Mode :: string
  sp_MediaID :: "string option"
  sp_Playback :: "PlaybackOutput option"

definition RoomStateResponse_json :: "gotext \<Rightarrow> RoomStateResponse \<Rightarrow> json" where
  "RoomStateResponse_json tx r = JObj
    ([(''mode'', JStr (sp_Mode r))] @
     omitempty ''media_id'' (map_option JStr (sp_MediaID r)) @
     omitempty ''playback'' (map_option (PlaybackMediaResponse_json tx) (sp_Playback r)))"

record JoinRoomResponse =
  jp_RoomID :: string
  jp_RoomName :: string
  jp_Token :: string
  jp_ExpiresIn :: int
  jp_State :: RoomStateResponse

definition JoinRoomResponse_json :: "gotext \<Rightarrow> JoinRoomResponse \<Rightarrow> json" where
  "JoinRoomResponse_json tx r = JObj
    [(''room_id'', JStr (jp_RoomID r)), (''room_name'', JStr (jp_RoomName r)),
     (''token'', JStr (jp_Token r)), (''expires_in'', JInt (jp_ExpiresIn r)),
     (''state'', RoomStateResponse_json tx (jp_State r))]"

record UpdateRoomStateRequest =
  uq_Mode :: string
  uq_MediaID :: "string option"

definition UpdateRoomStateRequest_fields :: "UpdateRoomStateRequest fields" where
  "UpdateRoomStateRequest_fields =
    [(''mode'', string_field (\<lambda>s. uq_Mode_update (\<lambda>_. s))),
     (''media_id'', pointer_field (\<lambda>s. uq_MediaID_update (\<lambda>_. s)))]"

definition validate_UpdateRoomState :: "UpdateRoomStateRequest \<Rightarrow> validation" where
  "validate_UpdateRoomState r =
    rule ''Mode'' [(''required'', uq_Mode r \<noteq> []), (''oneof'', uq_Mode r \<in> {''conference'', ''movie''})]"

definition UpdateRoomStateResponse_json :: "gotext \<Rightarrow> string \<Rightarrow> string \<Rightarrow> RoomStateResponse \<Rightarrow> json" where
  "UpdateRoomStateResponse_json tx roomID roomName state = JObj
    [(''room_id'', JStr roomID), (''room_name'', JStr roomName),
     (''state'', RoomStateResponse_json tx state)]"

definition RoomPlaybackStateResponse_json :: "RoomPlaybackState \<Rightarrow> json" where
  "RoomPlaybackStateResponse_json st = JObj
    [(''roomId'', JStr (rps_RoomID st)), (''mediaId'', JStr (rps_MediaID st)),
     (''status'', JStr (rps_Status st)), (''positionMs'', JInt (rps_PositionMs st)),
     (''playbackRate'', JFloat (rps_PlaybackRate st)), (''updatedAt'', JInt (rps_UpdatedAt st)),
     (''version'', JInt (rps_Version st)), (''hostId'', JStr (rps_HostID st))]"

record UpdateRoomPlaybackRequest =
  pq_MediaID :: string
  pq_Status :: string
  pq_PositionMs :: int
  pq_PlaybackRate :: float64

definition UpdateRoomPlaybackRequest_fields :: "gotext \<Rightarrow> UpdateRoomPlaybackRequest fields" where
  "UpdateRoomPlaybackRequest_fields tx =
    [(''mediaId'', string_field (\<lambda>s. pq_MediaID_update (\<lambda>_. s))),
     (''status'', string_field (\<lambda>s. pq_Status_update (\<lambda>_. s))),
     (''positionMs'', int64_field (\<lambda>n. pq_PositionMs_update (\<lambda>_. n))),
     (''playbackRate'', float64_field tx (\<lambda>x. pq_PlaybackRate_update (\<lambda>_. x)))]"

definition validate_UpdateRoomPlayback :: "UpdateRoomPlaybackRequest \<Rightarrow> validation" where
  "validate_UpdateRoomPlayback r =
    rule ''MediaID'' [(''required'', pq_MediaID r \<noteq> [])] @
    rule ''Status'' [(''required'', pq_Status r \<noteq> []),
      (''oneof'', pq_Status r \<in> {PlaybackStatusPlaying, PlaybackStatusPaused, PlaybackStatusSeeking})] @
    rule ''PlaybackRate'' [(''gt'', float_gt_0 (pq_PlaybackRate r))]"

subsection \<open>What a valid request is\<close>

lemma rule_Nil [simp]: "rule f tags = [] \<longleftrightarrow> (\<forall>t \<in> set tags. snd t)"
  by (force simp: rule_def find_None_all split: option.splits dest: find_SomeD)

text \<open>The body of a request for a playback state that passes: a state \<open>SaveByHost\<close> can use.\<close>

lemma validate_UpdateRoomPlayback_ok:
  "validate_UpdateRoomPlayback r = [] \<Longrightarrow>
    pq_MediaID r \<noteq> [] \<and> pq_Status r \<in> {''playing'', ''paused'', ''seeking''} \<and> float_gt_0 (pq_PlaybackRate r)"
  by (simp add: validate_UpdateRoomPlayback_def PlaybackStatusPlaying_def PlaybackStatusPaused_def
      PlaybackStatusSeeking_def)

end
