(* ===== verification/Http_Auth.thy ===== *)
theory Http_Auth
  imports Http_Base Auth_Repository Authn
begin

text \<open>
  \<open>internal/http/authn/middleware.go\<close> and \<open>internal/http/middleware\<close>: authentication of a request by
  its access token, and the request log. A middleware takes the next handler and gives a handler.
\<close>

definition UserIDFromContext :: "'q request \<Rightarrow> string" where
  "UserIDFromContext r = (case rq_UserID r of None \<Rightarrow> [] | Some s \<Rightarrow> s)"

definition ContextWithUserID :: "'q request \<Rightarrow> string \<Rightarrow> 'q request" where
  "ContextWithUserID r userID = r\<lparr>rq_UserID := Some userID\<rparr>"

text \<open>The token of the header: the part after the blank that follows the word \<open>Bearer\<close>.\<close>

definition bearer_token :: "string \<Rightarrow> string option" where
  "bearer_token auth =
    (let parts = SplitN2 auth CHR '' ''
     in if length parts \<noteq> 2 \<or> \<not> EqualFold (parts ! 0) ''Bearer'' then None else Some (parts ! 1))"

text \<open>The variant of the package \<open>authn\<close>, which knows no sessions.\<close>

definition authn_AuthMiddleware :: "'w crypto \<Rightarrow> JWTService \<Rightarrow> ('w, 'q) handler \<Rightarrow> ('w, 'q) handler" where
  "authn_AuthMiddleware cr jwt next r =
    (let auth = rq_Header r ''Authorization''
     in if auth = [] then answer (RespondError 401 ''missing_auth'')
        else (case bearer_token auth of
          None \<Rightarrow> answer (RespondError 401 ''invalid_auth'')
        | Some token \<Rightarrow> callH (ParseToken cr jwt token) (\<lambda>_. answer (RespondError 401 ''invalid_token''))
            (\<lambda>claims. next (ContextWithUserID r (claim_Subject claims)))))"

definition AuthMiddleware ::
    "'w crypto \<Rightarrow> JWTService \<Rightarrow> 'w SessionRepository option \<Rightarrow> ('w, 'q) handler \<Rightarrow> ('w, 'q) handler" where
  "AuthMiddleware cr jwt sessions next r =
    (let auth = rq_Header r ''Authorization''
     in if auth = [] then answer (RespondError 401 ''missing_auth'')
        else (case bearer_token auth of
          None \<Rightarrow> answer (RespondError 401 ''invalid_auth'')
        | Some token \<Rightarrow> callH (ParseToken cr jwt token) (\<lambda>_. answer (RespondError 401 ''invalid_token''))
            (\<lambda>claims.
              let proceed = next (ContextWithUserID r (claim_Subject claims))
              in case sessions of
                   None \<Rightarrow> proceed
                 | Some ss \<Rightarrow>
                     if claim_ID claims = [] then proceed
                     else callH (sr_IsAccessRevoked ss (claim_ID claims))
                       (\<lambda>_. answer (RespondError 500 ''token_check_failed''))
                       (\<lambda>revoked. if revoked then answer (RespondError 401 ''token_revoked'') else proceed))))"

text \<open>The log line of a request; it is written after the handler has answered.\<close>

record log_line =
  ll_method :: string
  ll_path :: string
  ll_status :: int
  ll_duration :: duration

definition LoggingMiddleware ::
    "('w \<Rightarrow> time \<times> 'w) \<Rightarrow> ('w, 'q) handler \<Rightarrow> 'q request \<Rightarrow> 'w \<Rightarrow> (response \<times> log_line) \<times> 'w" where
  "LoggingMiddleware now next r w =
    (let (start, w1) = now w;
         (resp, w2) = next r w1;
         (done, w3) = now w2
     in ((resp, \<lparr>ll_method = rq_Method r, ll_path = rq_Path r, ll_status = rs_Status resp,
           ll_duration = time_Sub done start\<rparr>), w3))"

subsection \<open>What gets past the authentication\<close>

text \<open>
  The token of the request names these claims, and their session is not known to be revoked.
  \<open>admitted\<close> gives the state in which the next handler starts.
\<close>

definition admitted ::
    "'w crypto \<Rightarrow> JWTService \<Rightarrow> 'w SessionRepository \<Rightarrow> 'q request \<Rightarrow> 'w \<Rightarrow> Claims \<Rightarrow> 'w \<Rightarrow> bool" where
  "admitted cr jwt ss r w claims w' \<longleftrightarrow>
    (\<exists>token w1. bearer_token (rq_Header r ''Authorization'') = Some token \<and>
      ParseToken cr jwt token w = (Inr claims, w1) \<and>
      (if claim_ID claims = [] then w' = w1
       else sr_IsAccessRevoked ss (claim_ID claims) w1 = (Inr False, w')))"

lemma SplitN2_length: "length (SplitN2 s c) = 2 \<longleftrightarrow> (\<exists>a b. SplitN2 s c = [a, b])"
  by (auto simp: length_Suc_conv numeral_2_eq_2)

lemma bearer_token_Some:
  "bearer_token auth = Some token \<longleftrightarrow>
    (\<exists>scheme. auth = scheme @ '' '' @ token \<and> CHR '' '' \<notin> set scheme \<and> EqualFold scheme ''Bearer'')"
proof
  assume "bearer_token auth = Some token"
  then have "length (SplitN2 auth CHR '' '') = 2" "EqualFold (SplitN2 auth CHR '' '' ! 0) ''Bearer''"
    "token = SplitN2 auth CHR '' '' ! 1"
    by (auto simp: bearer_token_def Let_def split: if_splits)
  then obtain a where parts: "SplitN2 auth CHR '' '' = [a, token]" "EqualFold a ''Bearer''"
    by (auto simp: SplitN2_length)
  then show "\<exists>scheme. auth = scheme @ '' '' @ token \<and> CHR '' '' \<notin> set scheme \<and> EqualFold scheme ''Bearer''"
    using SplitN2_two [of auth "CHR '' ''" a token] by auto
next
  assume "\<exists>scheme. auth = scheme @ '' '' @ token \<and> CHR '' '' \<notin> set scheme \<and> EqualFold scheme ''Bearer''"
  then obtain scheme where s: "auth = scheme @ CHR '' '' # token" "CHR '' '' \<notin> set scheme" "EqualFold scheme ''Bearer''"
    by auto
  with SplitN2_append [OF s(2), of token] show "bearer_token auth = Some token"
    by (simp add: bearer_token_def Let_def)
qed

text \<open>What has been called when a request is refused.\<close>

definition looked_up :: "'w crypto \<Rightarrow> JWTService \<Rightarrow> 'w SessionRepository \<Rightarrow> 'w \<Rightarrow> 'w \<Rightarrow> bool" where
  "looked_up cr jwt ss w w' \<longleftrightarrow> w' = w \<or>
    (\<exists>token q w1. ParseToken cr jwt token w = (q, w1) \<and>
      (w' = w1 \<or> (\<exists>i b. sr_IsAccessRevoked ss i w1 = (b, w'))))"

context world_order
begin

lemma looked_up_R:
  assumes "\<And>token. stays R (ParseToken cr jwt token)" "\<And>i. stays R (sr_IsAccessRevoked ss i)"
    and "looked_up cr jwt ss w w'"
  shows "R w w'"
  using assms(3) unfolding looked_up_def
  by (metis R_refl R_trans staysD [OF assms(1)] staysD [OF assms(2)])

end

definition refusals :: "(int \<times> string) set" where
  "refusals = {(401, ''missing_auth''), (401, ''invalid_auth''), (401, ''invalid_token''),
    (401, ''token_revoked''), (500, ''token_check_failed'')}"

lemma AuthMiddleware_cases:
  assumes "AuthMiddleware cr jwt (Some ss) next r w = (resp, w')"
  shows "(\<exists>claims w1. admitted cr jwt ss r w claims w1 \<and>
      next (ContextWithUserID r (claim_Subject claims)) w1 = (resp, w')) \<or>
    (\<exists>status code. resp = RespondError status code \<and> (status, code) \<in> refusals \<and> looked_up cr jwt ss w w')"
proof (cases "rq_Header r ''Authorization'' = [] \<or> bearer_token (rq_Header r ''Authorization'') = None")
  case True
  with assms show ?thesis
    by (auto simp: AuthMiddleware_def Let_def answer_def refusals_def looked_up_def split: if_splits)
next
  case False
  then obtain token where token: "rq_Header r ''Authorization'' \<noteq> []"
    "bearer_token (rq_Header r ''Authorization'') = Some token" by blast
  obtain q w1 where q: "ParseToken cr jwt token w = (q, w1)" by (cases "ParseToken cr jwt token w")
  show ?thesis
  proof (cases q)
    case (Inl e)
    with assms token q have "resp = RespondError 401 ''invalid_token''" "w' = w1"
      by (simp_all add: AuthMiddleware_def Let_def callH_def answer_def)
    moreover have "looked_up cr jwt ss w w1" using q by (auto simp: looked_up_def)
    moreover have "(401, ''invalid_token'') \<in> refusals" by (simp add: refusals_def)
    ultimately show ?thesis by blast
  next
    case (Inr claims)
    show ?thesis
    proof (cases "claim_ID claims = []")
      case True
      with assms token q Inr show ?thesis
        by (auto simp: AuthMiddleware_def Let_def callH_def admitted_def)
    next
      case jti: False
      obtain b w2 where b: "sr_IsAccessRevoked ss (claim_ID claims) w1 = (b, w2)"
        by (cases "sr_IsAccessRevoked ss (claim_ID claims) w1")
      then have lu: "looked_up cr jwt ss w w2" using q by (auto simp: looked_up_def)
      have run: "(case b of Inl _ \<Rightarrow> (RespondError 500 ''token_check_failed'', w2)
          | Inr True \<Rightarrow> (RespondError 401 ''token_revoked'', w2)
          | Inr False \<Rightarrow> next (ContextWithUserID r (claim_Subject claims)) w2) = (resp, w')"
        using assms token q Inr jti b
        by (cases b) (auto simp: AuthMiddleware_def Let_def callH_def answer_def split: if_splits)
      consider "b = Inr False" | "b = Inr True" | e where "b = Inl e" by (cases b) auto
      then show ?thesis
      proof cases
        case 1
        with token q Inr jti b run show ?thesis by (auto simp: admitted_def)
      next
        case 2
        moreover have "(401, ''token_revoked'') \<in> refusals" by (simp add: refusals_def)
        ultimately show ?thesis using run lu by auto
      next
        case 3
        moreover have "(500, ''token_check_failed'') \<in> refusals" by (simp add: refusals_def)
        ultimately show ?thesis using run lu by auto
      qed
    qed
  qed
qed

end
