(* ===== verification/Auth_Handler.thy ===== *)
theory Auth_Handler
  imports Dto Http_Auth Auth_Service
begin

text \<open>\<open>internal/http/handlers/auth/handler.go\<close>: login, registration and the refresh of a session.\<close>

record 'w AuthHandler =
  ah_auth :: "'w AuthService"
  ah_jwt :: JWTService
  ah_now :: "'w \<Rightarrow> time \<times> 'w"

definition NewAuthHandler :: "('w \<Rightarrow> time \<times> 'w) \<Rightarrow> 'w AuthService \<Rightarrow> JWTService \<Rightarrow> 'w AuthHandler" where
  "NewAuthHandler now auth jwt = \<lparr>ah_auth = auth, ah_jwt = jwt, ah_now = now\<rparr>"

definition refreshCookieName :: string where
  "refreshCookieName = ''refresh_token''"

text \<open>The cookie \<open>setRefreshCookie\<close> sets at the time \<open>now\<close>.\<close>

definition setRefreshCookie :: "'q request \<Rightarrow> string \<Rightarrow> duration \<Rightarrow> time \<Rightarrow> cookie" where
  "setRefreshCookie r token ttl now =
    \<lparr>ck_Name = refreshCookieName, ck_Value = token, ck_HttpOnly = True, ck_Path = ''/'',
     ck_MaxAge = int_Seconds ttl, ck_Expires = now + ttl,
     ck_SameSite = (if rq_TLS r then SameSiteNone else SameSiteLax), ck_Secure = rq_TLS r\<rparr>"

definition Handler_Login :: "'q http_lib \<Rightarrow> 'w AuthHandler \<Rightarrow> ('w, 'q) handler" where
  "Handler_Login lib h r =
    decodeH (DecodeJSON LoginRequest_fields \<lparr>lq_Email = [], lq_Password = []\<rparr> (hl_Body lib (rq_Raw r)))
     (\<lambda>req. if validate_Login (hl_Email lib) req \<noteq> []
       then answer (RespondValidationError (validate_Login (hl_Email lib) req))
       else callH (Login (ah_auth h) \<lparr>li_Email = lq_Email req, li_Password = lq_Password req\<rparr>)
         (\<lambda>e. if Is e ErrInvalidCredentials then answer (RespondError 401 ''invalid_credentials'')
              else answer (RespondError 500 ''login_failed''))
         (\<lambda>result. readH (ah_now h) (\<lambda>now.
           answer ((RespondJSON 200 (LoginResponse_json
              \<lparr>lp_Name = lr_Name result, lp_AccessToken = lr_AccessToken result,
               lp_AccessTTL = int_Seconds (lr_AccessTTL result), lp_RefreshTTL = int_Seconds (lr_RefreshTTL result)\<rparr>))
             \<lparr>rs_Cookies := [setRefreshCookie r (lr_RefreshToken result) (lr_RefreshTTL result) now]\<rparr>))))"

definition Handler_Register :: "'q http_lib \<Rightarrow> 'w AuthHandler \<Rightarrow> ('w, 'q) handler" where
  "Handler_Register lib h r =
    decodeH (DecodeJSON RegisterRequest_fields \<lparr>gq_Name = [], gq_Email = [], gq_Password = []\<rparr>
        (hl_Body lib (rq_Raw r)))
     (\<lambda>req. if validate_Register (hl_Email lib) req \<noteq> []
       then answer (RespondValidationError (validate_Register (hl_Email lib) req))
       else callH (Register (ah_auth h)
           \<lparr>ri_Name = gq_Name req, ri_Email = gq_Email req, ri_Password = gq_Password req\<rparr>)
         (\<lambda>e. if Is e ErrAlreadyExists then answer (RespondError 409 ''email_exists'')
              else answer (RespondError 500 ''register_failed''))
         (\<lambda>userID. answer (RespondJSON 201 (RegisterResponse_json userID))))"

definition Handler_Refresh :: "'w AuthHandler \<Rightarrow> ('w, 'q) handler" where
  "Handler_Refresh h r =
    (case rq_Cookie r refreshCookieName of
       None \<Rightarrow> answer (RespondError 400 ''refresh_token_required'')
     | Some value \<Rightarrow>
         callH (Refresh (ah_auth h) value)
           (\<lambda>e. if Is e ErrSessionNotFound then answer (RespondError 401 ''invalid_refresh'')
                else answer (RespondError 500 ''refresh_failed''))
           (\<lambda>result. readH (ah_now h) (\<lambda>now.
             answer ((RespondJSON 200 (RefreshResponse_json
                \<lparr>fp_UserID = rr_UserID result, fp_AccessToken = rr_AccessToken result,
                 fp_AccessTTL = int_Seconds (rr_AccessTTL result), fp_RefreshTTL = int_Seconds (rr_RefreshTTL result),
                 fp_Version = rr_Version result\<rparr>))
               \<lparr>rs_Cookies := [setRefreshCookie r (rr_RefreshToken result) (rr_RefreshTTL result) now]\<rparr>))))"

text \<open>Whatever the services keep, the handlers keep.\<close>

context world_order
begin

lemma serves_auth_handlers:
  assumes "stays R (readP (ah_now h))"
  shows "(\<And>inp. stays R (Login (ah_auth h) inp)) \<Longrightarrow> serves R (Handler_Login lib h r)"
    and "(\<And>inp. stays R (Register (ah_auth h) inp)) \<Longrightarrow> serves R (Handler_Register lib h r)"
    and "(\<And>t. stays R (Refresh (ah_auth h) t)) \<Longrightarrow> serves R (Handler_Refresh h r)"
  unfolding Handler_Login_def Handler_Register_def Handler_Refresh_def
  by (intro frame_intros assms; simp)+

end

text \<open>
  The answer of \<open>Refresh\<close> to a token that \<open>Refresh\<close> does not know, and the tokens in the answer
  of a login: the cookie carries the refresh token, the body the access token only.
\<close>

lemma Handler_Login_200:
  assumes "Handler_Login lib h r w = (resp, w')" "rs_Status resp = 200"
  shows "\<exists>req result w1 now. hl_Email lib (lq_Email req) \<and> lq_Password req \<noteq> [] \<and>
    DecodeJSON LoginRequest_fields \<lparr>lq_Email = [], lq_Password = []\<rparr> (hl_Body lib (rq_Raw r)) = Decoded req \<and>
    Login (ah_auth h) \<lparr>li_Email = lq_Email req, li_Password = lq_Password req\<rparr> w = (Inr result, w1) \<and>
    ah_now h w1 = (now, w') \<and>
    rs_Cookies resp = [setRefreshCookie r (lr_RefreshToken result) (lr_RefreshTTL result) now]"
proof -
  let ?d = "DecodeJSON LoginRequest_fields \<lparr>lq_Email = [], lq_Password = []\<rparr> (hl_Body lib (rq_Raw r))"
  from assms obtain req where req: "?d = Decoded req"
    by (cases ?d) (auto simp: Handler_Login_def decodeH_def answer_def RespondError_def RespondJSON_def)
  have bad: "rs_Status (RespondValidationError v) = 400" for v
    by (auto simp: RespondValidationError_def RespondError_def RespondJSON_def split: list.splits)
  from assms req bad have ok: "validate_Login (hl_Email lib) req = []"
    by (auto simp: Handler_Login_def decodeH_def answer_def split: if_splits)
  obtain q w1 where q: "Login (ah_auth h) \<lparr>li_Email = lq_Email req, li_Password = lq_Password req\<rparr> w = (q, w1)"
    by (cases "Login (ah_auth h) \<lparr>li_Email = lq_Email req, li_Password = lq_Password req\<rparr> w")
  from assms req ok q obtain result where result: "q = Inr result"
    by (cases q) (auto simp: Handler_Login_def decodeH_def callH_def answer_def RespondError_def RespondJSON_def
        split: if_splits)
  obtain now w2 where now: "ah_now h w1 = (now, w2)" by (cases "ah_now h w1")
  from assms req ok q result now have "w' = w2"
    "rs_Cookies resp = [setRefreshCookie r (lr_RefreshToken result) (lr_RefreshTTL result) now]"
    by (auto simp: Handler_Login_def decodeH_def callH_def readH_def answer_def)
  with req ok q result now show ?thesis by (auto simp: validate_Login_def)
qed

end
