(* ===== verification/Files_Handler.thy ===== *)
theory Files_Handler
  imports Dto Http_Auth
begin

text \<open>\<open>internal/http/handlers/files/files.go\<close>: the media of a user, and the manifests behind playback tokens.\<close>

record 'e FilesHandler =
  fh_media :: "'e MediaUploadService"

definition NewFilesHandler :: "'e MediaUploadService \<Rightarrow> 'e FilesHandler" where
  "NewFilesHandler media = \<lparr>fh_media = media\<rparr>"

definition Handler_ListMedia :: "'q http_lib \<Rightarrow> 'e FilesHandler \<Rightarrow> ('e world, 'q) handler" where
  "Handler_ListMedia lib h r =
    (let userID = UserIDFromContext r
     in if userID = [] then answer (RespondError 401 ''unauthorized'')
        else callH (ListByOwner (fh_media h) userID)
          (\<lambda>e. if Is e ErrInvalidUploadInput then answer (RespondError 400 ''invalid_upload_input'')
               else answer (RespondError 500 ''media_list_failed''))
          (\<lambda>items. answer (RespondJSON 200 (JArr (map (MediaListItemResponse_json (hl_Local lib)) items)))))"

definition Handler_InitMediaUpload :: "'q http_lib \<Rightarrow> 'e FilesHandler \<Rightarrow> ('e world, 'q) handler" where
  "Handler_InitMediaUpload lib h r =
    (let userID = UserIDFromContext r
     in if userID = [] then answer (RespondError 401 ''unauthorized'')
        else decodeH (DecodeJSON InitMediaUploadRequest_fields
            \<lparr>mq_FileName = [], mq_ContentType = [], mq_SizeBytes = 0\<rparr> (hl_Body lib (rq_Raw r)))
          (\<lambda>req. if validate_InitUpload req \<noteq> [] then answer (RespondValidationError (validate_InitUpload req))
            else callH (InitUpload (fh_media h)
                \<lparr>iu_OwnerUserID = userID, iu_FileName = mq_FileName req, iu_ContentType = mq_ContentType req,
                 iu_SizeBytes = mq_SizeBytes req\<rparr>)
              (\<lambda>e. if Is e ErrInvalidUploadInput then answer (RespondError 400 ''invalid_upload_input'')
                   else answer (RespondError 500 ''media_upload_init_failed''))
              (\<lambda>out. answer (RespondJSON 201 (InitMediaUploadResponse_json out)))))"

definition Handler_CompleteMediaUpload :: "'q http_lib \<Rightarrow> 'e FilesHandler \<Rightarrow> ('e world, 'q) handler" where
  "Handler_CompleteMediaUpload lib h r =
    (let userID = UserIDFromContext r
     in if userID = [] then answer (RespondError 401 ''unauthorized'')
        else decodeH (DecodeJSON CompleteMediaUploadRequest_fields \<lparr>cq_MediaID = []\<rparr> (hl_Body lib (rq_Raw r)))
          (\<lambda>req. if validate_CompleteUpload req \<noteq> []
            then answer (RespondValidationError (validate_CompleteUpload req))
            else callH (CompleteUpload (fh_media h) \<lparr>cu_OwnerUserID = userID, cu_MediaID = cq_MediaID req\<rparr>)
              (\<lambda>e. if Is e ErrNotFound then answer (RespondError 404 ''media_not_found'')
                   else if Is e ErrForbiddenMedia then answer (RespondError 403 ''media_forbidden'')
                   else if Is e ErrUploadedObjectNotFound then answer (RespondError 404 ''uploaded_object_not_found'')
                   else if Is e ErrInvalidUploadInput then answer (RespondError 400 ''invalid_uploaded_object'')
                   else answer (RespondError 500 ''media_upload_complete_failed''))
              (\<lambda>out. answer (RespondJSON 200 (CompleteMediaUploadResponse_json (cuo_MediaID out)
                (MediaStatus_string (cuo_Status out)))))))"

definition Handler_GetPlayback :: "'q http_lib \<Rightarrow> 'e FilesHandler \<Rightarrow> ('e world, 'q) handler" where
  "Handler_GetPlayback lib h r =
    (let userID = UserIDFromContext r; mediaID = ChiParam r ''id''
     in if userID = [] then answer (RespondError 401 ''unauthorized'')
        else if mediaID = [] then answer (RespondError 400 ''media_id_required'')
        else callH (GetPlayback (fh_media h) userID mediaID)
          (\<lambda>e. if Is e ErrNotFound then answer (RespondError 404 ''media_not_found'')
               else if Is e ErrForbiddenMedia then answer (RespondError 403 ''media_forbidden'')
               else if Is e ErrMediaNotReady then answer (RespondError 409 ''media_not_ready'')
               else if Is e ErrInvalidUploadInput then answer (RespondError 400 ''invalid_playback_request'')
               else answer (RespondError 500 ''media_playback_failed''))
          (\<lambda>out. answer (RespondJSON 200 (PlaybackMediaResponse_json (hl_text lib) out))))"

definition Handler_GetPlaybackManifest :: "'e FilesHandler \<Rightarrow> ('e world, 'q) handler" where
  "Handler_GetPlaybackManifest h r =
    (let token = ChiParam r ''token''
     in if token = [] then answer (RespondError 400 ''playback_token_required'')
        else callH (ResolvePlaybackManifest (fh_media h) token)
          (\<lambda>e. if Is e ErrInvalidManifestKey \<or> Is e ErrNotFound \<or> Is e ErrMediaNotReady
               then answer (RespondError 404 ''media_playback_not_found'')
               else answer (RespondError 500 ''media_playback_failed''))
          (\<lambda>manifest. answer
            \<lparr>rs_Status = 200,
             rs_Header = [(''Content-Type'', ''application/vnd.apple.mpegurl''), (''Cache-Control'', ''private, no-store'')],
             rs_Cookies = [], rs_Body = TextBody manifest\<rparr>))"

definition Handler_DeleteMedia :: "nat \<Rightarrow> 'e FilesHandler \<Rightarrow> ('e world, 'q) handler" where
  "Handler_DeleteMedia fuel h r =
    (let userID = UserIDFromContext r; mediaID = ChiParam r ''id''
     in if userID = [] then answer (RespondError 401 ''unauthorized'')
        else if mediaID = [] then answer (RespondError 400 ''media_id_required'')
        else callH (DeleteMedia fuel (fh_media h) userID mediaID)
          (\<lambda>e. if Is e ErrNotFound then answer (RespondError 404 ''media_not_found'')
               else if Is e ErrForbiddenMedia then answer (RespondError 403 ''media_forbidden'')
               else if Is e ErrInvalidUploadInput then answer (RespondError 400 ''invalid_media_delete_request'')
               else answer (RespondError 500 ''media_delete_failed''))
          (\<lambda>_. answer (RespondJSON 200 (DeleteMediaResponse_json mediaID ''deleted''))))"

context world_frame
begin

lemma serves_files_handlers:
  shows "(\<And>u. stays R (ListByOwner (fh_media h) u)) \<Longrightarrow> serves R (Handler_ListMedia lib h r)"
    and "(\<And>inp. stays R (InitUpload (fh_media h) inp)) \<Longrightarrow> serves R (Handler_InitMediaUpload lib h r)"
    and "(\<And>i. UserIDFromContext r \<noteq> [] \<Longrightarrow>
        stays R (CompleteUpload (fh_media h) \<lparr>cu_OwnerUserID = UserIDFromContext r, cu_MediaID = i\<rparr>)) \<Longrightarrow>
      serves R (Handler_CompleteMediaUpload lib h r)"
    and "(\<And>u i. stays R (GetPlayback (fh_media h) u i)) \<Longrightarrow> serves R (Handler_GetPlayback lib h r)"
    and "(\<And>t. stays R (ResolvePlaybackManifest (fh_media h) t)) \<Longrightarrow> serves R (Handler_GetPlaybackManifest h r)"
    and "(\<And>i. UserIDFromContext r \<noteq> [] \<Longrightarrow> stays R (DeleteMedia fuel (fh_media h) (UserIDFromContext r) i)) \<Longrightarrow>
      serves R (Handler_DeleteMedia fuel h r)"
  unfolding Handler_ListMedia_def Handler_InitMediaUpload_def Handler_CompleteMediaUpload_def
    Handler_GetPlayback_def Handler_GetPlaybackManifest_def Handler_DeleteMedia_def Let_def
  by (intro frame_intros; simp)+

end

end
