(* ===== verification/Webhook.thy ===== *)
theory Webhook
  imports Externals
begin

text \<open>
  \<open>internal/service/webhook.go\<close>: LiveKit reports who joins and leaves a room, and the service keeps
  the participants of each room as a set in Redis.
\<close>

record 'w WebhookService =
  wh_redis :: "'w redis_client"

definition NewWebhookService :: "'w redis_client \<Rightarrow> 'w WebhookService" where
  "NewWebhookService r = \<lparr>wh_redis = r\<rparr>"

definition participants_key :: "string \<Rightarrow> string" where
  "participants_key roomName = ''room:'' @ roomName @ '':participants''"

definition trackParticipant :: "'w WebhookService \<Rightarrow> string \<Rightarrow> string \<Rightarrow> bool \<Rightarrow> ('w, unit) prog" where
  "trackParticipant s roomName identity join =
    (if roomName = [] \<or> identity = [] then retP ()
     else if join then redis_SAdd (wh_redis s) (participants_key roomName) identity
     else redis_SRem (wh_redis s) (participants_key roomName) identity)"

text \<open>An event without a room or participant has the empty name: \<open>GetName\<close> of a nil pointer.\<close>

definition HandleEvent :: "'w WebhookService \<Rightarrow> WebhookEvent option \<Rightarrow> ('w, unit) prog" where
  "HandleEvent s event =
    (case event of
       None \<Rightarrow> retP ()
     | Some ev \<Rightarrow>
         if ev_Event ev = ''participant_joined''
         then trackParticipant s (ev_RoomName ev) (ev_Identity ev) True
         else if ev_Event ev = ''participant_left''
         then trackParticipant s (ev_RoomName ev) (ev_Identity ev) False
         else retP ())"

subsection \<open>Presence\<close>

text \<open>What Redis promises of its sets: \<open>members\<close> shows the set of a key.\<close>

definition redis_sets :: "'w redis_client \<Rightarrow> ('w \<Rightarrow> string \<Rightarrow> string set) \<Rightarrow> bool" where
  "redis_sets r members \<longleftrightarrow>
    (\<forall>k m w w'. redis_SAdd r k m w = (Inr (), w') \<longrightarrow> members w' = (members w)(k := insert m (members w k))) \<and>
    (\<forall>k m w w'. redis_SRem r k m w = (Inr (), w') \<longrightarrow> members w' = (members w)(k := members w k - {m}))"

lemma redis_sets_SAdd:
  "redis_sets r members \<Longrightarrow> redis_SAdd r k m w = (Inr (), w') \<Longrightarrow>
    members w' = (members w)(k := insert m (members w k))"
  unfolding redis_sets_def by blast

lemma redis_sets_SRem:
  "redis_sets r members \<Longrightarrow> redis_SRem r k m w = (Inr (), w') \<Longrightarrow>
    members w' = (members w)(k := members w k - {m})"
  unfolding redis_sets_def by blast

text \<open>What the events say: who is present in which room.\<close>

fun present :: "(string \<times> string) set \<Rightarrow> WebhookEvent list \<Rightarrow> (string \<times> string) set" where
  "present P [] = P"
| "present P (ev # evs) =
    (let who = (ev_RoomName ev, ev_Identity ev)
     in if ev_RoomName ev = [] \<or> ev_Identity ev = [] then present P evs
        else if ev_Event ev = ''participant_joined'' then present (insert who P) evs
        else if ev_Event ev = ''participant_left'' then present (P - {who}) evs
        else present P evs)"

text \<open>Handling events one after the other, up to the first that fails.\<close>

fun handle_all :: "'w WebhookService \<Rightarrow> WebhookEvent list \<Rightarrow> ('w, unit) prog" where
  "handle_all s [] = retP ()"
| "handle_all s (ev # evs) = bindP (HandleEvent s (Some ev)) (\<lambda>_. handle_all s evs)"

lemma participants_key_inj [simp]: "participants_key a = participants_key b \<longleftrightarrow> a = b"
  by (simp add: participants_key_def)

definition shows_presence :: "('w \<Rightarrow> string \<Rightarrow> string set) \<Rightarrow> 'w \<Rightarrow> (string \<times> string) set \<Rightarrow> bool" where
  "shows_presence members w P \<longleftrightarrow> (\<forall>room. members w (participants_key room) = {i. (room, i) \<in> P})"

lemma HandleEvent_presence:
  assumes law: "redis_sets (wh_redis s) members" and "shows_presence members w P"
    and "HandleEvent s (Some ev) w = (Inr (), w')"
  shows "shows_presence members w' (present P [ev])"
  using assms(2,3)
  by (auto simp: HandleEvent_def trackParticipant_def shows_presence_def Let_def
      prog_simps split: if_splits dest!: redis_sets_SAdd [OF law] redis_sets_SRem [OF law])

lemma present_Cons: "present P (ev # evs) = present (present P [ev]) evs"
  by (simp add: Let_def)

lemma handle_all_present:
  assumes law: "redis_sets (wh_redis s) members"
  shows "shows_presence members w P \<Longrightarrow> handle_all s evs w = (Inr (), w') \<Longrightarrow>
    shows_presence members w' (present P evs)"
proof (induction evs arbitrary: w P)
  case Nil
  then show ?case by (simp add: prog_simps)
next
  case (Cons ev evs)
  then obtain w1 where "HandleEvent s (Some ev) w = (Inr (), w1)"
    and rest: "handle_all s evs w1 = (Inr (), w')" by (auto simp: prog_simps)
  from Cons.IH [OF HandleEvent_presence [OF law Cons.prems(1) this(1)] rest]
  show ?case by (simp only: present_Cons [of P ev evs])
qed

text \<open>Somebody is present when the last event about them says so.\<close>

definition about :: "string \<Rightarrow> string \<Rightarrow> WebhookEvent \<Rightarrow> bool" where
  "about room i ev \<longleftrightarrow> ev_RoomName ev = room \<and> ev_Identity ev = i \<and>
    ev_Event ev \<in> {''participant_joined'', ''participant_left''}"

lemma present_last:
  "(room, i) \<in> present P evs \<longleftrightarrow>
    (case find (about room i) (rev evs) of
       Some ev \<Rightarrow> if room = [] \<or> i = [] then (room, i) \<in> P else ev_Event ev = ''participant_joined''
     | None \<Rightarrow> (room, i) \<in> P)"
  by (induction evs arbitrary: P) (auto simp: find_append about_def Let_def split: option.splits)

text \<open>The service changes nothing of the database and no queue.\<close>

lemma HandleEvent_quiet:
  assumes "\<And>k m. stays (quiet invar view) (redis_SAdd (wh_redis s) k m)"
    and "\<And>k m. stays (quiet invar view) (redis_SRem (wh_redis s) k m)"
  shows "stays (quiet invar view) (HandleEvent s ev)"
  unfolding HandleEvent_def trackParticipant_def by (intro frame_intros assms)

definition pg_webhook_service :: "('e, 'q) platform \<Rightarrow> 'e world WebhookService" where
  "pg_webhook_service pf = NewWebhookService (ext_redis (pf_redis pf))"

lemma redis_sets_pg:
  assumes "redis_sets (pf_redis pf) members"
  shows "redis_sets (wh_redis (pg_webhook_service pf)) (\<lambda>w. members (env w))"
  using assms by (auto simp: redis_sets_def pg_webhook_service_def NewWebhookService_def ext_def split: prod.splits)

end
