(* ===== verification/Rooms_Handler.thy ===== *)
theory Rooms_Handler
  imports Dto Http_Auth Room_Service Webhook
begin

text \<open>
  \<open>internal/http/handlers/rooms/handler.go\<close> and \<open>internal/http/handlers/webhook/handler.go\<close>: the rooms,
  their shared playback state, and the events of LiveKit.
\<close>

record ('e, 'q) RoomsHandler =
  rh_rooms :: "('e world, 'q) RoomService"
  rh_media :: "'e MediaUploadService"
  rh_playback :: "'e world RoomPlaybackService"
  rh_jwt :: JWTService
  rh_rand :: "nat \<Rightarrow> ('e world, byte list) prog"

definition NewRoomsHandler ::
    "(nat \<Rightarrow> ('e world, byte list) prog) \<Rightarrow> ('e world, 'q) RoomService \<Rightarrow> 'e MediaUploadService \<Rightarrow>
      'e world RoomPlaybackService \<Rightarrow> JWTService \<Rightarrow> ('e, 'q) RoomsHandler" where
  "NewRoomsHandler rnd rooms media playback jwt =
    \<lparr>rh_rooms = rooms, rh_media = media, rh_playback = playback, rh_jwt = jwt, rh_rand = rnd\<rparr>"

definition Handler_ListRooms :: "'q http_lib \<Rightarrow> ('e, 'q) RoomsHandler \<Rightarrow> ('e world, 'q) handler" where
  "Handler_ListRooms lib h r =
    (let userID = UserIDFromContext r
     in if userID = [] then answer (RespondError 401 ''unauthorized'')
        else callH (ListRoomsByOwner (rh_rooms h) userID)
          (\<lambda>_. answer (RespondError 500 ''room_list_failed''))
          (\<lambda>rooms. answer (RespondJSON 200 (JArr (map (RoomResponse_json (hl_Local lib)) rooms)))))"

definition Handler_CreateRoom :: "'q http_lib \<Rightarrow> ('e, 'q) RoomsHandler \<Rightarrow> ('e world, 'q) handler" where
  "Handler_CreateRoom lib h r =
    decodeH (DecodeJSON CreateRoomRequest_fields \<lparr>cb_Name = []\<rparr> (hl_Body lib (rq_Raw r)))
      (\<lambda>req. if validate_CreateRoom req \<noteq> [] then answer (RespondError 400 ''validation_failed'')
        else if UserIDFromContext r = [] then answer (RespondError 401 ''unauthorized'')
        else callH (CreateRoom (rh_rooms h) \<lparr>cri_Name = cb_Name req, cri_OwnerUserID = UserIDFromContext r,
            cri_MediaID = None\<rparr>)
          (\<lambda>_. answer (RespondError 500 ''room_create_failed''))
          (\<lambda>room. answer (RespondJSON 201 (RoomResponse_json (hl_Local lib) room))))"

text \<open>The state of a room as it is answered; without a playback when there is none to be had.\<close>

definition buildRoomStateResponse ::
    "'e MediaUploadService \<Rightarrow> Room \<Rightarrow> (RoomStateResponse \<Rightarrow> 'e world \<Rightarrow> response \<times> 'e world) \<Rightarrow>
      'e world \<Rightarrow> response \<times> 'e world" where
  "buildRoomStateResponse media room k =
    (case room_MediaID room of
       None \<Rightarrow> k \<lparr>sp_Mode = ''conference'', sp_MediaID = None, sp_Playback = None\<rparr>
     | Some mediaID \<Rightarrow>
         if TrimSpace mediaID = [] then k \<lparr>sp_Mode = ''conference'', sp_MediaID = None, sp_Playback = None\<rparr>
         else callH (GetPlaybackByMediaID media mediaID)
           (\<lambda>_. k \<lparr>sp_Mode = ''movie'', sp_MediaID = Some mediaID, sp_Playback = None\<rparr>)
           (\<lambda>playback. k \<lparr>sp_Mode = ''movie'', sp_MediaID = Some mediaID, sp_Playback = Some playback\<rparr>))"

definition newGuestID :: "(nat \<Rightarrow> ('w, byte list) prog) \<Rightarrow> ('w, string) prog" where
  "newGuestID rnd = bindP (rnd 16) (\<lambda>b. retP (''guest-'' @ EncodeToString b))"

text \<open>The name of a guest without one: the Russian word for guest, in UTF-8.\<close>

definition guest_name :: string where
  "guest_name = [CHR 0xD0, CHR 0x93, CHR 0xD0, CHR 0xBE, CHR 0xD1, CHR 0x81, CHR 0xD1, CHR 0x82, CHR 0xD1, CHR 0x8C]"

text \<open>The identity of a caller: the user of the context, or else a new guest.\<close>

definition join_identity :: "('e, 'q) RoomsHandler \<Rightarrow> 'q request \<Rightarrow> ('e world, string) prog" where
  "join_identity h r = (if UserIDFromContext r = [] then newGuestID (rh_rand h) else retP (UserIDFromContext r))"

definition join_admitted ::
    "'q http_lib \<Rightarrow> ('e, 'q) RoomsHandler \<Rightarrow> 'q request \<Rightarrow> JoinRoomRequest \<Rightarrow> 'e world \<Rightarrow> response \<times> 'e world" where
  "join_admitted lib h r req =
    (if validate_JoinRoom req \<noteq> [] then answer (RespondError 400 ''validation_failed'')
     else callH (join_identity h r) (\<lambda>_. answer (RespondError 500 ''guest_identity_failed''))
       (\<lambda>userID.
         let displayName = (if TrimSpace (jq_UserName req) = [] then guest_name else TrimSpace (jq_UserName req));
             roomID = ChiParam r ''id''
         in if roomID = [] then answer (RespondError 400 ''room_id_required'')
            else callH (JoinRoom (rh_rooms h) roomID userID displayName)
              (\<lambda>e. if Is e ErrNotFound then answer (RespondError 404 ''room_not_found'')
                   else if Is e ErrRoomEnded then answer (RespondError 409 ''room_ended'')
                   else answer (RespondError 500 ''room_join_failed''))
              (\<lambda>(jwt, room). buildRoomStateResponse (rh_media h) room (\<lambda>state.
                answer (RespondJSON 200 (JoinRoomResponse_json (hl_text lib)
                  \<lparr>jp_RoomID = room_ID room, jp_RoomName = room_Name room, jp_Token = jwt,
                   jp_ExpiresIn = AccessTTLSeconds (rh_jwt h), jp_State = state\<rparr>))))))"

text \<open>A request to join may come without a body.\<close>

definition Handler_JoinRoom :: "'q http_lib \<Rightarrow> ('e, 'q) RoomsHandler \<Rightarrow> ('e world, 'q) handler" where
  "Handler_JoinRoom lib h r =
    (case DecodeJSON JoinRoomRequest_fields \<lparr>jq_UserName = []\<rparr> (hl_Body lib (rq_Raw r)) of
       BadJSON \<Rightarrow> answer (RespondError 400 ''invalid_json'')
     | NoInput \<Rightarrow> join_admitted lib h r \<lparr>jq_UserName = []\<rparr>
     | Decoded req \<Rightarrow> join_admitted lib h r req)"

definition Handler_UpdateRoomState :: "'q http_lib \<Rightarrow> ('e, 'q) RoomsHandler \<Rightarrow> ('e world, 'q) handler" where
  "Handler_UpdateRoomState lib h r =
    (let userID = UserIDFromContext r; roomID = ChiParam r ''id''
     in if userID = [] then answer (RespondError 401 ''unauthorized'')
        else if roomID = [] then answer (RespondError 400 ''room_id_required'')
        else decodeH (DecodeJSON UpdateRoomStateRequest_fields \<lparr>uq_Mode = [], uq_MediaID = None\<rparr>
            (hl_Body lib (rq_Raw r)))
          (\<lambda>req. if validate_UpdateRoomState req \<noteq> [] then answer (RespondError 400 ''validation_failed'')
            else if uq_Mode req = ''movie'' \<and>
              (case uq_MediaID req of None \<Rightarrow> True | Some m \<Rightarrow> TrimSpace m = [])
            then answer (RespondError 400 ''media_id_required'')
            else callH (UpdateRoomState (rh_rooms h) roomID userID (uq_Mode req) (uq_MediaID req))
              (\<lambda>e. if Is e ErrNotFound then answer (RespondError 404 ''room_not_found'')
                   else if Is e ErrRoomForbidden then answer (RespondError 403 ''room_forbidden'')
                   else if Is e ErrRoomEnded then answer (RespondError 409 ''room_ended'')
                   else if Is e ErrMediaRequiredForMovieMode then answer (RespondError 400 ''media_id_required'')
                   else if Is e ErrMediaForbiddenForRoom then answer (RespondError 403 ''media_forbidden'')
                   else if Is e ErrMediaNotReady then answer (RespondError 409 ''media_not_ready'')
                   else answer (RespondError 500 ''room_state_update_failed''))
              (\<lambda>room. buildRoomStateResponse (rh_media h) room (\<lambda>state.
                answer (RespondJSON 200 (UpdateRoomStateResponse_json (hl_text lib)
                  (room_ID room) (room_Name room) state))))))"

definition Handler_GetRoomPlaybackState :: "('e, 'q) RoomsHandler \<Rightarrow> ('e world, 'q) handler" where
  "Handler_GetRoomPlaybackState h r =
    (let roomID = ChiParam r ''id''
     in if roomID = [] then answer (RespondError 400 ''room_id_required'')
        else callH (GetState (rh_playback h) roomID)
          (\<lambda>e. if Is e ErrPlaybackStateNotFound then answer (RespondError 404 ''playback_state_not_found'')
               else if Is e ErrNotFound then answer (RespondError 404 ''room_not_found'')
               else answer (RespondError 500 ''playback_state_failed''))
          (\<lambda>state. answer (RespondJSON 200 (RoomPlaybackStateResponse_json state))))"

definition Handler_UpdateRoomPlaybackState ::
    "'q http_lib \<Rightarrow> ('e, 'q) RoomsHandler \<Rightarrow> ('e world, 'q) handler" where
  "Handler_UpdateRoomPlaybackState lib h r =
    (let userID = UserIDFromContext r; roomID = ChiParam r ''id''
     in if userID = [] then answer (RespondError 401 ''unauthorized'')
        else if roomID = [] then answer (RespondError 400 ''room_id_required'')
        else decodeH (DecodeJSON (UpdateRoomPlaybackRequest_fields (hl_text lib))
            \<lparr>pq_MediaID = [], pq_Status = [], pq_PositionMs = 0, pq_PlaybackRate = Fin 0\<rparr>
            (hl_Body lib (rq_Raw r)))
          (\<lambda>req. if validate_UpdateRoomPlayback req \<noteq> [] then answer (RespondError 400 ''validation_failed'')
            else callH (SaveByHost (rh_playback h) roomID userID
                \<lparr>up_MediaID = pq_MediaID req, up_Status = pq_Status req, up_PositionMs = pq_PositionMs req,
                 up_PlaybackRate = pq_PlaybackRate req\<rparr>)
              (\<lambda>e. if Is e ErrNotFound then answer (RespondError 404 ''room_not_found'')
                   else if Is e ErrRoomForbidden then answer (RespondError 403 ''room_forbidden'')
                   else if Is e ErrRoomEnded then answer (RespondError 409 ''room_ended'')
                   else answer (RespondError 500 ''playback_state_update_failed''))
              (\<lambda>state. answer (RespondJSON 200 (RoomPlaybackStateResponse_json state)))))"

definition Handler_EndRoom :: "'q http_lib \<Rightarrow> ('e, 'q) RoomsHandler \<Rightarrow> ('e world, 'q) handler" where
  "Handler_EndRoom lib h r =
    (let userID = UserIDFromContext r; roomID = ChiParam r ''id''
     in if userID = [] then answer (RespondError 401 ''unauthorized'')
        else if roomID = [] then answer (RespondError 400 ''room_id_required'')
        else callH (EndRoomByOwner (rh_rooms h) roomID userID)
          (\<lambda>e. if Is e ErrNotFound then answer (RespondError 404 ''room_not_found'')
               else if Is e ErrRoomForbidden then answer (RespondError 403 ''room_forbidden'')
               else answer (RespondError 500 ''room_end_failed''))
          (\<lambda>room. answer (RespondJSON 200 (RoomResponse_json (hl_Local lib) room))))"

subsection \<open>Events\<close>

record ('w, 'q) WebhookHandler =
  wk_webhook :: "'w WebhookService"
  wk_lk :: "('w, 'q) Client"

definition NewWebhookHandler :: "'w WebhookService \<Rightarrow> ('w, 'q) Client \<Rightarrow> ('w, 'q) WebhookHandler" where
  "NewWebhookHandler webhook lk = \<lparr>wk_webhook = webhook, wk_lk = lk\<rparr>"

definition Handler_LiveKitWebhook :: "('w, 'q) WebhookHandler \<Rightarrow> ('w, 'q) handler" where
  "Handler_LiveKitWebhook h r =
    callH (Client_ReceiveWebhook (wk_lk h) (rq_Raw r)) (\<lambda>_. answer (RespondError 401 ''invalid_webhook''))
      (\<lambda>payload. callH (HandleEvent (wk_webhook h) payload)
        (\<lambda>_. answer (RespondError 500 ''webhook_handle_failed''))
        (\<lambda>_. answer (RespondJSON 200 (JObj [(''status'', JStr ''ok'')]))))"

subsection \<open>What the handlers keep\<close>

context world_frame
begin

lemma serves_buildRoomStateResponse [frame_intros]:
  "(\<And>i. stays R (GetPlaybackByMediaID media i)) \<Longrightarrow> (\<And>st. serves R (k st)) \<Longrightarrow>
    serves R (buildRoomStateResponse media room k)"
  unfolding buildRoomStateResponse_def by (intro frame_intros; simp)

lemma serves_join_admitted:
  assumes "\<And>n. stays R (rh_rand h n)" "\<And>i u n. stays R (JoinRoom (rh_rooms h) i u n)"
    "\<And>i. stays R (GetPlaybackByMediaID (rh_media h) i)"
  shows "serves R (join_admitted lib h r req)"
  unfolding join_admitted_def join_identity_def newGuestID_def Let_def split_def
  by (intro frame_intros assms)

lemma serves_rooms_handlers:
  assumes playback: "\<And>i. stays R (GetPlaybackByMediaID (rh_media h) i)"
  shows "(\<And>u. stays R (ListRoomsByOwner (rh_rooms h) u)) \<Longrightarrow> serves R (Handler_ListRooms lib h r)"
    and "(\<And>inp. stays R (CreateRoom (rh_rooms h) inp)) \<Longrightarrow> serves R (Handler_CreateRoom lib h r)"
    and "(\<And>n. stays R (rh_rand h n)) \<Longrightarrow> (\<And>i u n. stays R (JoinRoom (rh_rooms h) i u n)) \<Longrightarrow>
      serves R (Handler_JoinRoom lib h r)"
    and "(\<And>i m j. UserIDFromContext r \<noteq> [] \<Longrightarrow>
        stays R (UpdateRoomState (rh_rooms h) i (UserIDFromContext r) m j)) \<Longrightarrow>
      serves R (Handler_UpdateRoomState lib h r)"
    and "(\<And>i. stays R (GetState (rh_playback h) i)) \<Longrightarrow> serves R (Handler_GetRoomPlaybackState h r)"
    and "(\<And>i u inp. stays R (SaveByHost (rh_playback h) i u inp)) \<Longrightarrow>
      serves R (Handler_UpdateRoomPlaybackState lib h r)"
    and "(\<And>i. UserIDFromContext r \<noteq> [] \<Longrightarrow> stays R (EndRoomByOwner (rh_rooms h) i (UserIDFromContext r))) \<Longrightarrow>
      serves R (Handler_EndRoom lib h r)"
proof -
  show "serves R (Handler_JoinRoom lib h r)" if "\<And>n. stays R (rh_rand h n)"
    "\<And>i u n. stays R (JoinRoom (rh_rooms h) i u n)"
    using serves_join_admitted [OF that playback]
    by (auto simp: Handler_JoinRoom_def serves_answer split: decoded.splits)
qed (unfold Handler_ListRooms_def Handler_CreateRoom_def Handler_UpdateRoomState_def
      Handler_GetRoomPlaybackState_def Handler_UpdateRoomPlaybackState_def Handler_EndRoom_def Let_def,
     (intro frame_intros playback; simp)+)

lemma serves_webhook_handler:
  assumes "\<And>q. stays R (Client_ReceiveWebhook (wk_lk h) q)" "\<And>ev. stays R (HandleEvent (wk_webhook h) ev)"
  shows "serves R (Handler_LiveKitWebhook h r)"
  unfolding Handler_LiveKitWebhook_def by (intro frame_intros assms)

end

end
