(* ===== verification/Router.thy ===== *)
theory Router
  imports Auth_Handler Files_Handler Rooms_Handler
begin

text \<open>
  \<open>internal/http/router.go\<close>: the routes, which of them need a token, and what stands before every
  handler. Matching a path against the patterns is chi's, answering a preflight request the
  package \<open>cors\<close>'s; both are parameters. Request identifiers, real addresses, the recovery from
  panics and the deadline of 30 seconds concern the context and the connection only; a call
  whose deadline has passed is a call that fails.
\<close>

record ('e, 'q) Router =
  ro_auth :: "'e world AuthHandler"
  ro_rooms :: "('e, 'q) RoomsHandler"
  ro_files :: "'e FilesHandler"
  ro_webhook :: "('e world, 'q) WebhookHandler"
  ro_jwt :: JWTService
  ro_tokens :: "'e world SessionRepository"
  ro_corsOrigins :: "string list"
  ro_crypto :: "'e world crypto"
  ro_now :: "'e world \<Rightarrow> time \<times> 'e world"
  ro_lib :: "'q http_lib"
  ro_fuel :: nat

datatype endpoint =
    Ep_Login | Ep_Register | Ep_Refresh | Ep_GetPlaybackManifest
  | Ep_JoinRoom | Ep_GetRoomPlaybackState
  | Ep_ListRooms | Ep_CreateRoom | Ep_UpdateRoomState | Ep_UpdateRoomPlaybackState | Ep_EndRoom
  | Ep_ListMedia | Ep_GetPlayback | Ep_DeleteMedia | Ep_InitMediaUpload | Ep_CompleteMediaUpload
  | Ep_LiveKitWebhook

text \<open>The routes in the order of the code: method, pattern, whether a token is needed, handler.\<close>

definition routes :: "(string \<times> string \<times> bool \<times> endpoint) list" where
  "routes =
    [(''POST'', ''/auth/login'', False, Ep_Login),
     (''POST'', ''/auth/register'', False, Ep_Register),
     (''POST'', ''/auth/refresh'', False, Ep_Refresh),
     (''GET'', ''/media/playback/{token}/index.m3u8'', False, Ep_GetPlaybackManifest),
     (''POST'', ''/rooms/{id}/join'', False, Ep_JoinRoom),
     (''GET'', ''/rooms/{id}/playback'', False, Ep_GetRoomPlaybackState),
     (''GET'', ''/rooms/'', True, Ep_ListRooms),
     (''POST'', ''/rooms/'', True, Ep_CreateRoom),
     (''POST'', ''/rooms/{id}/state'', True, Ep_UpdateRoomState),
     (''POST'', ''/rooms/{id}/playback'', True, Ep_UpdateRoomPlaybackState),
     (''POST'', ''/rooms/{id}/end'', True, Ep_EndRoom),
     (''GET'', ''/media'', True, Ep_ListMedia),
     (''GET'', ''/media/{id}/playback'', True, Ep_GetPlayback),
     (''DELETE'', ''/media/{id}'', True, Ep_DeleteMedia),
     (''POST'', ''/media/upload/init'', True, Ep_InitMediaUpload),
     (''POST'', ''/media/upload/complete'', True, Ep_CompleteMediaUpload),
     (''POST'', ''/livekit/webhook'', False, Ep_LiveKitWebhook)]"

definition endpoint_handler :: "('e, 'q) Router \<Rightarrow> endpoint \<Rightarrow> ('e world, 'q) handler" where
  "endpoint_handler ro ep =
    (case ep of
       Ep_Login \<Rightarrow> Handler_Login (ro_lib ro) (ro_auth ro)
     | Ep_Register \<Rightarrow> Handler_Register (ro_lib ro) (ro_auth ro)
     | Ep_Refresh \<Rightarrow> Handler_Refresh (ro_auth ro)
     | Ep_GetPlaybackManifest \<Rightarrow> Handler_GetPlaybackManifest (ro_files ro)
     | Ep_JoinRoom \<Rightarrow> Handler_JoinRoom (ro_lib ro) (ro_rooms ro)
     | Ep_GetRoomPlaybackState \<Rightarrow> Handler_GetRoomPlaybackState (ro_rooms ro)
     | Ep_ListRooms \<Rightarrow> Handler_ListRooms (ro_lib ro) (ro_rooms ro)
     | Ep_CreateRoom \<Rightarrow> Handler_CreateRoom (ro_lib ro) (ro_rooms ro)
     | Ep_UpdateRoomState \<Rightarrow> Handler_UpdateRoomState (ro_lib ro) (ro_rooms ro)
     | Ep_UpdateRoomPlaybackState \<Rightarrow> Handler_UpdateRoomPlaybackState (ro_lib ro) (ro_rooms ro)
     | Ep_EndRoom \<Rightarrow> Handler_EndRoom (ro_lib ro) (ro_rooms ro)
     | Ep_ListMedia \<Rightarrow> Handler_ListMedia (ro_lib ro) (ro_files ro)
     | Ep_GetPlayback \<Rightarrow> Handler_GetPlayback (ro_lib ro) (ro_files ro)
     | Ep_DeleteMedia \<Rightarrow> Handler_DeleteMedia (ro_fuel ro) (ro_files ro)
     | Ep_InitMediaUpload \<Rightarrow> Handler_InitMediaUpload (ro_lib ro) (ro_files ro)
     | Ep_CompleteMediaUpload \<Rightarrow> Handler_CompleteMediaUpload (ro_lib ro) (ro_files ro)
     | Ep_LiveKitWebhook \<Rightarrow> Handler_LiveKitWebhook (ro_webhook ro))"

definition guarded :: "('e, 'q) Router \<Rightarrow> bool \<Rightarrow> ('e world, 'q) handler \<Rightarrow> ('e world, 'q) handler" where
  "guarded ro auth h = (if auth then AuthMiddleware (ro_crypto ro) (ro_jwt ro) (Some (ro_tokens ro)) h else h)"

text \<open>The options of the package \<open>cors\<close>; \<open>co_AnyOrigin\<close> is the function that accepts every origin.\<close>

record cors_options =
  co_AllowedOrigins :: "string list"
  co_AnyOrigin :: bool
  co_AllowedMethods :: "string list"
  co_AllowedHeaders :: "string list"
  co_ExposedHeaders :: "string list"
  co_AllowCredentials :: bool
  co_MaxAge :: int

definition corsOptions :: "string list \<Rightarrow> cors_options" where
  "corsOptions corsOrigins =
    (let allowed = corsOrigins @ [''https://calixio.managetlg.com'']
     in \<lparr>co_AllowedOrigins = filter (\<lambda>o'. o' \<noteq> ''*'') allowed, co_AnyOrigin = (''*'' \<in> set allowed),
         co_AllowedMethods = [''GET'', ''POST'', ''PUT'', ''DELETE'', ''OPTIONS''],
         co_AllowedHeaders = [''Accept'', ''Authorization'', ''Content-Type'', ''X-Requested-With''],
         co_ExposedHeaders = [''Link'', ''Set-Cookie''], co_AllowCredentials = True, co_MaxAge = 300\<rparr>)"

text \<open>
  chi: from the methods and patterns, the number of the route a request matches and the values of
  its parameters, or the answer to a request that matches none.
\<close>

record 'q http_mux =
  mx_Cors :: "cors_options \<Rightarrow> 'q request \<Rightarrow> response option"
  mx_Match :: "(string \<times> string) list \<Rightarrow> 'q request \<Rightarrow> response + (nat \<times> (string \<Rightarrow> string))"

definition route_request :: "'q http_mux \<Rightarrow> ('e, 'q) Router \<Rightarrow> ('e world, 'q) handler" where
  "route_request mx ro r =
    (case mx_Match mx (map (\<lambda>(m, p, _). (m, p)) routes) r of
       Inl resp \<Rightarrow> answer resp
     | Inr (n, params) \<Rightarrow>
         (if n < length routes
          then (case routes ! n of (_, _, auth, ep) \<Rightarrow>
            guarded ro auth (endpoint_handler ro ep) (r\<lparr>rq_Param := params\<rparr>))
          else answer (RespondError 404 [])))"

text \<open>
  A request from the network: its context has no user. The answer, and the log line when the request
  gets past the package \<open>cors\<close>.
\<close>

definition ServeHTTP ::
    "'q http_mux \<Rightarrow> ('e, 'q) Router \<Rightarrow> 'q request \<Rightarrow> 'e world \<Rightarrow> (response \<times> log_line option) \<times> 'e world" where
  "ServeHTTP mx ro r0 w =
    (let r = r0\<lparr>rq_UserID := None\<rparr>
     in case mx_Cors mx (corsOptions (ro_corsOrigins ro)) r of
          Some resp \<Rightarrow> ((resp, None), w)
        | None \<Rightarrow> (case LoggingMiddleware (ro_now ro) (route_request mx ro) r w of
            ((resp, line), w') \<Rightarrow> ((resp, Some line), w')))"

subsection \<open>What a request can do\<close>

lemma ServeHTTP_run:
  assumes "ServeHTTP mx ro r w = (out, w')"
    and "mx_Cors mx (corsOptions (ro_corsOrigins ro)) (r\<lparr>rq_UserID := None\<rparr>) = None"
  shows "\<exists>resp w2 line. route_request mx ro (r\<lparr>rq_UserID := None\<rparr>) (snd (ro_now ro w)) = (resp, w2) \<and>
    w' = snd (ro_now ro w2) \<and> out = (resp, Some line) \<and> ll_status line = rs_Status resp"
  using assms by (auto simp: ServeHTTP_def LoggingMiddleware_def Let_def split: prod.splits)

text \<open>A relation that every handler keeps, whoever calls it, is kept by every request.\<close>

context world_frame
begin

lemma serves_guarded:
  assumes "\<And>q. serves R (h q)" "\<And>t. stays R (ParseToken (ro_crypto ro) (ro_jwt ro) t)"
    "\<And>i. stays R (sr_IsAccessRevoked (ro_tokens ro) i)"
  shows "serves R (guarded ro auth h r)"
  unfolding guarded_def AuthMiddleware_def Let_def
  by (auto intro!: frame_intros assms split: option.splits)

lemma serves_route_request:
  assumes "\<And>ep q. serves R (endpoint_handler ro ep q)" "\<And>t. stays R (ParseToken (ro_crypto ro) (ro_jwt ro) t)"
    "\<And>i. stays R (sr_IsAccessRevoked (ro_tokens ro) i)"
  shows "serves R (route_request mx ro r)"
  unfolding route_request_def
  by (auto intro!: serves_answer serves_guarded assms split: sum.splits prod.splits)

lemma ServeHTTP_R:
  assumes now: "stays R (readP (ro_now ro))"
    and route: "\<And>resp w2. route_request mx ro (r\<lparr>rq_UserID := None\<rparr>) (snd (ro_now ro w)) = (resp, w2) \<Longrightarrow>
      R (snd (ro_now ro w)) w2"
    and run: "ServeHTTP mx ro r w = (out, w')"
  shows "R w w'"
proof (cases "mx_Cors mx (corsOptions (ro_corsOrigins ro)) (r\<lparr>rq_UserID := None\<rparr>)")
  case None
  have clock: "R v (snd (ro_now ro v))" for v
    using staysD [OF now, of v "Inr (fst (ro_now ro v))"] by (simp add: readP_def split_def)
  from ServeHTTP_run [OF run None] route clock show ?thesis by (blast intro: R_trans)
next
  case (Some resp)
  with run R_refl show ?thesis by (auto simp: ServeHTTP_def Let_def)
qed

end

end
