(* ===== verification/Frames.thy ===== *)
theory Frames
  imports Router Media_Cleanup Media_Transcoder
begin

text \<open>
  What every operation of a service keeps, whoever calls it: a relation between worlds that looks at
  the tables only, and that the calls of the repositories the service uses keep, is kept by the
  service. Three kinds of such relations are used: a table the service has nothing to do with stays as
  it is, the rows of a table develop, and the rows of a user are spared.
\<close>

subsection \<open>Repositories inside a relation\<close>

definition media_in :: "('w \<Rightarrow> 'w \<Rightarrow> bool) \<Rightarrow> 'w MediaRepository \<Rightarrow> bool" where
  "media_in R M \<longleftrightarrow>
    (\<forall>m. stays R (mr_Create M m)) \<and> (\<forall>u. stays R (mr_ListByOwner M u)) \<and> (\<forall>i. stays R (mr_GetByID M i)) \<and>
    (\<forall>ids. stays R (mr_ListExistingIDs M ids)) \<and>
    (\<forall>i st sz mime. stays R (mr_UpdateUploadState M i st sz mime)) \<and>
    (\<forall>i st. stays R (mr_UpdateStatus M i st)) \<and>
    (\<forall>i url p d st. stays R (mr_UpdateTranscodeResult M i url p d st)) \<and>
    (\<forall>i t. stays R (mr_SoftDelete M i t))"

definition rooms_in :: "('w \<Rightarrow> 'w \<Rightarrow> bool) \<Rightarrow> 'w RoomRepository \<Rightarrow> bool" where
  "rooms_in R M \<longleftrightarrow>
    (\<forall>r. stays R (rr_CreateRoom M r)) \<and> (\<forall>u. stays R (rr_ListRoomsByOwner M u)) \<and>
    stays R (rr_ListActiveRooms M) \<and> (\<forall>i. stays R (rr_GetRoomByID M i)) \<and>
    (\<forall>i m. stays R (rr_UpdateRoomMedia M i m)) \<and> (\<forall>i t. stays R (rr_EndRoom M i t))"

text \<open>All calls of the media repository but the one that inserts a row, and those of them that a request reads with.\<close>

definition media_kept :: "('w \<Rightarrow> 'w \<Rightarrow> bool) \<Rightarrow> 'w MediaRepository \<Rightarrow> bool" where
  "media_kept R M \<longleftrightarrow>
    (\<forall>u. stays R (mr_ListByOwner M u)) \<and> (\<forall>i. stays R (mr_GetByID M i)) \<and>
    (\<forall>ids. stays R (mr_ListExistingIDs M ids)) \<and>
    (\<forall>i st sz mime. stays R (mr_UpdateUploadState M i st sz mime)) \<and>
    (\<forall>i st. stays R (mr_UpdateStatus M i st)) \<and>
    (\<forall>i url p d st. stays R (mr_UpdateTranscodeResult M i url p d st)) \<and>
    (\<forall>i t. stays R (mr_SoftDelete M i t))"

definition media_reads :: "('w \<Rightarrow> 'w \<Rightarrow> bool) \<Rightarrow> 'w MediaRepository \<Rightarrow> bool" where
  "media_reads R M \<longleftrightarrow> (\<forall>u. stays R (mr_ListByOwner M u)) \<and> (\<forall>i. stays R (mr_GetByID M i))"

text \<open>The calls that insert or read, and change no row that is there.\<close>

definition media_open :: "('w \<Rightarrow> 'w \<Rightarrow> bool) \<Rightarrow> 'w MediaRepository \<Rightarrow> bool" where
  "media_open R M \<longleftrightarrow>
    (\<forall>m. stays R (mr_Create M m)) \<and> (\<forall>u. stays R (mr_ListByOwner M u)) \<and> (\<forall>i. stays R (mr_GetByID M i))"

definition rooms_open :: "('w \<Rightarrow> 'w \<Rightarrow> bool) \<Rightarrow> 'w RoomRepository \<Rightarrow> bool" where
  "rooms_open R M \<longleftrightarrow>
    (\<forall>r. stays R (rr_CreateRoom M r)) \<and> (\<forall>u. stays R (rr_ListRoomsByOwner M u)) \<and>
    (\<forall>i. stays R (rr_GetRoomByID M i))"

definition users_in :: "('w \<Rightarrow> 'w \<Rightarrow> bool) \<Rightarrow> 'w UserRepository \<Rightarrow> bool" where
  "users_in R M \<longleftrightarrow> (\<forall>u. stays R (ur_CreateUser M u)) \<and> (\<forall>e. stays R (ur_GetByEmail M e))"

definition sessions_in :: "('w \<Rightarrow> 'w \<Rightarrow> bool) \<Rightarrow> 'w SessionRepository \<Rightarrow> bool" where
  "sessions_in R M \<longleftrightarrow>
    (\<forall>s. stays R (sr_Store M s)) \<and> (\<forall>h. stays R (sr_GetByRefreshTokenHash M h)) \<and>
    (\<forall>i j h t u. stays R (sr_Rotate M i j h t u)) \<and> (\<forall>j. stays R (sr_IsAccessRevoked M j)) \<and>
    (\<forall>j t. stays R (sr_RevokeByAccessJTI M j t))"

lemma media_inD:
  assumes "media_in R M"
  shows "stays R (mr_Create M m)" "stays R (mr_ListByOwner M u)" "stays R (mr_GetByID M i)"
    "stays R (mr_ListExistingIDs M ids)" "stays R (mr_UpdateUploadState M i st sz mime)"
    "stays R (mr_UpdateStatus M i st)" "stays R (mr_UpdateTranscodeResult M i url p d st)"
    "stays R (mr_SoftDelete M i t)"
  using assms unfolding media_in_def by blast+

lemma rooms_inD:
  assumes "rooms_in R M"
  shows "stays R (rr_CreateRoom M r)" "stays R (rr_ListRoomsByOwner M u)" "stays R (rr_ListActiveRooms M)"
    "stays R (rr_GetRoomByID M i)" "stays R (rr_UpdateRoomMedia M i m)" "stays R (rr_EndRoom M i t)"
  using assms unfolding rooms_in_def by blast+

lemma media_keptD:
  assumes "media_kept R M"
  shows "stays R (mr_ListByOwner M u)" "stays R (mr_GetByID M i)"
    "stays R (mr_ListExistingIDs M ids)" "stays R (mr_UpdateUploadState M i st sz mime)"
    "stays R (mr_UpdateStatus M i st)" "stays R (mr_UpdateTranscodeResult M i url p d st)"
    "stays R (mr_SoftDelete M i t)"
  using assms unfolding media_kept_def by blast+

lemma media_readsD:
  assumes "media_reads R M"
  shows "stays R (mr_ListByOwner M u)" "stays R (mr_GetByID M i)"
  using assms unfolding media_reads_def by blast+

lemma media_openD:
  assumes "media_open R M"
  shows "stays R (mr_Create M m)" "stays R (mr_ListByOwner M u)" "stays R (mr_GetByID M i)"
  using assms unfolding media_open_def by blast+

lemma rooms_openD:
  assumes "rooms_open R M"
  shows "stays R (rr_CreateRoom M r)" "stays R (rr_ListRoomsByOwner M u)" "stays R (rr_GetRoomByID M i)"
  using assms unfolding rooms_open_def by blast+

lemma in_open: "media_in R M \<Longrightarrow> media_open R M" "rooms_in R Q \<Longrightarrow> rooms_open R Q"
  unfolding media_in_def media_open_def rooms_in_def rooms_open_def by blast+

lemma in_kept: "media_in R M \<Longrightarrow> media_kept R M"
  and in_reads: "media_kept R M \<Longrightarrow> media_reads R M" "media_open R M \<Longrightarrow> media_reads R M"
  unfolding media_in_def media_kept_def media_open_def media_reads_def by blast+

lemma users_inD:
  assumes "users_in R M"
  shows "stays R (ur_CreateUser M u)" "stays R (ur_GetByEmail M e)"
  using assms unfolding users_in_def by blast+

lemma sessions_inD:
  assumes "sessions_in R M"
  shows "stays R (sr_Store M s)" "stays R (sr_GetByRefreshTokenHash M h)" "stays R (sr_Rotate M i j h t u)"
    "stays R (sr_IsAccessRevoked M j)" "stays R (sr_RevokeByAccessJTI M j t)"
  using assms unfolding sessions_in_def by blast+

subsection \<open>Services inside a relation\<close>

text \<open>A relation that holds whenever tables and queue stay; the two operations that use the queue come last.\<close>

locale outer_frame = world_frame R for R :: "'e world \<Rightarrow> 'e world \<Rightarrow> bool" +
  assumes same_outer: "same_data w w' \<Longrightarrow> R w w'"
begin

lemma in_same: "stays same_data m \<Longrightarrow> stays R m"
  by (auto simp: stays_def intro: same_outer)

lemmas in_calls = same_data_ext [THEN in_same] data_storage [THEN in_same]
  data_DeleteObjectsByPrefix [THEN in_same]

subsubsection \<open>Media\<close>

lemma in_cache:
  assumes "mu_cache (pg_upload_service pf c js t b u) = Some r"
  shows "stays R (redis_Get r k)" "stays R (redis_Set r k v d)" "stays R (redis_Del r k)"
  using assms by (auto simp: in_same [OF same_data_ext(1)] split: if_splits)

lemma in_sign_previews: "stays R (sign_previews (pg_upload_service pf c js t b u) ms)"
proof (induction ms)
  case Nil
  show ?case unfolding sign_previews.simps by (intro frame_intros)
next
  case (Cons m ms)
  show ?case unfolding sign_previews.simps pg_upload_service_simps by (intro frame_intros in_calls Cons.IH)
qed

lemma in_sign_lines: "stays R (sign_lines (pg_storage pf c) b d ls)"
proof (induction ls)
  case Nil
  show ?case unfolding sign_lines.simps by (intro frame_intros)
next
  case (Cons l ls)
  show ?case unfolding sign_lines.simps sign_line_def Let_def by (intro frame_intros in_calls Cons.IH)
qed

lemma in_buildPlayback: "stays R (buildPlayback (pg_upload_service pf c js t b u) m)"
  unfolding buildPlayback_def signManifest_def Let_def pg_upload_service_simps
  by (intro frame_intros in_calls in_sign_lines)

lemma in_manifest_url: "stays R (buildManifestProxyURL (pg_upload_service pf c js t b u) i)"
  unfolding buildManifestProxyURL_def Let_def pg_upload_service_simps ext_crypto_simps
  by (auto intro!: frame_intros in_calls split: option.splits)

lemma in_cached:
  "stays R (cached_playback (pg_upload_service pf c js t b u) i)"
  "stays R (store_playback (pg_upload_service pf c js t b u) i out)"
  unfolding cached_playback_def store_playback_def
  by (intro frame_intros in_cache [of pf c js t b u] in_manifest_url; assumption)+

lemma in_read_upload:
  assumes M: "media_reads R (NewPostgresMediaRepository (pf_pool pf))"
    and s_def: "s = pg_upload_service pf c js t b u"
  shows "stays R (ListByOwner s o')" "stays R (GetPlayback s o' i)"
    "stays R (GetPlaybackByMediaID s i)" "stays R (ResolvePlaybackManifest s tok)"
proof -
  note [frame_intros] = media_readsD [OF M] in_calls in_cached in_manifest_url in_buildPlayback in_sign_previews
  show "stays R (ListByOwner s o')" "stays R (GetPlayback s o' i)" "stays R (GetPlaybackByMediaID s i)"
    unfolding s_def ListByOwner_def GetPlayback_def GetPlaybackByMediaID_def pg_upload_service_simps
    by (intro frame_intros)+
  show "stays R (ResolvePlaybackManifest s tok)"
    unfolding s_def ResolvePlaybackManifest_def Let_def pg_upload_service_simps
    by (auto intro!: frame_intros media_readsD [OF M, simplified] split: option.splits)
qed

lemma in_InitUpload:
  assumes M: "media_open R (NewPostgresMediaRepository (pf_pool pf))"
    and s_def: "s = pg_upload_service pf c js t b u"
  shows "stays R (InitUpload s ii)"
  unfolding s_def InitUpload_def newMediaID_def Let_def pg_upload_service_simps ext_crypto_simps
  by (intro frame_intros media_openD [OF M] in_calls)

lemma in_process_in:
  assumes M: "media_kept R (NewPostgresMediaRepository (pf_pool pf))" and on: "transcoder_on pf c s"
  shows "stays R (process_in s (ext_context k) media dirs l)"
proof (induction dirs arbitrary: l)
  case Nil
  show ?case unfolding process_in.simps by (intro frame_intros)
next
  case (Cons d dirs)
  have "stays R (processMediaInWorkspace s (ext_context k) media tmp)" for tmp
    unfolding processMediaInWorkspace_split transcoder_onD(1) [OF on]
    by (intro frame_intros media_keptD [OF M] in_same [OF data_produce_media [OF on]])
  then show ?case
    unfolding process_in.simps transcoder_onD(2) [OF on] ext_fs_simps
    by (intro frame_intros in_calls in_same [OF data_makeTempWorkspace [OF on]] Cons.IH)
qed

lemma in_run_job:
  assumes M: "media_kept R (NewPostgresMediaRepository (pf_pool pf))" and on: "transcoder_on pf c s"
  shows "stays R (run_job s (ext_context k) i)"
  unfolding run_job_def processMedia_def transcoder_onD(1,2) [OF on] ext_fs_simps
  by (intro frame_intros media_keptD [OF M] in_calls in_process_in [OF M on])

lemma in_RunOnce:
  assumes M: "\<And>ids. stays R (mr_ListExistingIDs (NewPostgresMediaRepository (pf_pool pf)) ids)"
  shows "stays R (RunOnce fuel order (pg_cleanup_service pf c n t))"
proof -
  let ?s = "pg_cleanup_service pf c n t"
  have "stays R (existing_ids ?s batches acc)" for batches acc
    by (induction batches arbitrary: acc)
      (auto intro!: stays_ret stays_bind M [simplified])
  moreover have "stays R (delete_orphans fuel ?s p e ids m f)" for p e ids m f
    by (induction ids arbitrary: m f)
      (auto simp: Let_def intro!: stays_ret stays_bind stays_attempt in_calls split: sum.splits)
  moreover have "stays R (ListMediaPrefixes fuel (pg_storage pf c))"
    by (intro stays_ListMediaPrefixes) (simp add: in_calls)
  ultimately show ?thesis
    unfolding RunOnce_def Let_def pg_cleanup_service_simps by (intro frame_intros)
qed

subsubsection \<open>Rooms\<close>

lemma in_playback:
  assumes "rooms_open R (NewPostgresRoomRepository (pf_pool pf))"
  shows "stays R (GetState (pg_playback_service pf js) i)" "stays R (SaveByHost (pg_playback_service pf js) i u inp)"
  unfolding GetState_def SaveByHost_def current_state_def Let_def pg_playback_service_simps ext_redis_simps
  by (intro frame_intros in_calls rooms_openD [OF assms])+

lemma in_livekit:
  "stays R (Client_CreateRoom (NewClient (ext_sdk l) k sec whs timeout ttl) name)"
  "stays R (Client_DeleteRoom (NewClient (ext_sdk l) k sec whs timeout ttl) name)"
  "stays R (Client_GenerateToken (NewClient (ext_sdk l) k sec whs timeout ttl) u name p)"
  by (simp_all add: Client_CreateRoom_def Client_DeleteRoom_def Client_GenerateToken_def in_calls)

lemma in_open_rooms:
  assumes Q: "rooms_open R (NewPostgresRoomRepository (pf_pool pf))"
    and s_def: "s = pg_room_service pf k sec whs timeout ttl"
  shows "stays R (CreateRoom s inp)" "stays R (ListRoomsByOwner s o')" "stays R (JoinRoom s i u n)"
  unfolding s_def CreateRoom_def newID_def ListRoomsByOwner_def JoinRoom_def Let_def pg_room_service_simps
  by (intro frame_intros in_calls in_livekit rooms_openD [OF Q])+

lemma in_endRoom:
  assumes Q: "rooms_in R (NewPostgresRoomRepository (pf_pool pf))"
    and s_def: "s = pg_room_service pf k sec whs timeout ttl"
  shows "stays R (endRoom s room)"
  unfolding s_def endRoom_def pg_room_service_simps
  by (intro frame_intros rooms_inD [OF Q] in_calls in_livekit)

lemma in_stale:
  assumes Q: "rooms_in R (NewPostgresRoomRepository (pf_pool pf))"
    and s_def: "s = pg_room_service pf k sec whs timeout ttl"
  shows "stays R (EndStaleActiveRooms s d)"
proof -
  have stale: "stays R (close_stale s now d rooms m f)" for now d rooms m f
  proof (induction rooms arbitrary: m f)
    case Nil
    show ?case unfolding close_stale.simps by (intro frame_intros)
  next
    case (Cons room rooms)
    show ?case
      unfolding close_stale.simps EndRoom_def
      by (intro frame_intros Cons.IH in_endRoom [OF Q s_def]) (simp add: s_def rooms_inD [OF Q, simplified])
  qed
  show ?thesis
    unfolding s_def EndStaleActiveRooms_def Let_def pg_room_service_simps
    by (intro frame_intros rooms_inD [OF Q] in_calls stale [unfolded s_def])
qed

lemma in_rooms:
  assumes M: "media_reads R (NewPostgresMediaRepository (pf_pool pf))"
    and Q: "rooms_in R (NewPostgresRoomRepository (pf_pool pf))"
    and s_def: "s = pg_room_service pf k sec whs timeout ttl"
  shows "stays R (UpdateRoomState s i u m j)" "stays R (EndRoomByOwner s i u)"
  unfolding s_def UpdateRoomState_def EndRoomByOwner_def next_media_def Let_def pg_room_service_simps
  by (intro frame_intros media_readsD [OF M] rooms_inD [OF Q] in_calls in_livekit in_endRoom [OF Q refl])+

subsubsection \<open>Accounts\<close>

lemma in_auth:
  assumes U: "users_in R (NewPostgresUserRepository (pf_pool pf))"
    and S: "sessions_in R (NewPostgresSessionRepository (pf_pool pf))"
    and s_def: "s = pg_auth_service pf secret a r"
  shows "stays R (Register s ri)" "stays R (Login s li)" "stays R (Refresh s t)"
proof -
  note [frame_intros] = users_inD [OF U] sessions_inD [OF S] in_calls
  show "stays R (Register s ri)" "stays R (Login s li)" "stays R (Refresh s t)"
    unfolding s_def Register_def Login_def Refresh_def session_over_def generateRefreshToken_def Let_def
      pg_auth_service_simps ext_crypto_simps
    by (intro frame_intros; simp add: in_calls)+
qed

lemma in_Register:
  assumes U: "users_in R (NewPostgresUserRepository (pf_pool pf))"
    and s_def: "s = pg_auth_service pf secret a r"
  shows "stays R (Register s ri)"
  unfolding s_def Register_def Let_def pg_auth_service_simps ext_crypto_simps
  by (intro frame_intros users_inD [OF U] in_calls; simp add: in_calls)

lemma in_ParseToken: "stays R (ParseToken (ext_crypto cr) jwt token)"
  unfolding ParseToken_def ext_crypto_simps by (intro frame_intros in_calls)

end

subsection \<open>Operations that use the queue\<close>

locale data_frame = outer_frame R for R :: "'e world \<Rightarrow> 'e world \<Rightarrow> bool" +
  assumes same_db: "db w' = db w \<Longrightarrow> R w w'"
begin

lemma in_Enqueue: "stays R (Enqueue tr i)"
  by (auto simp: stays_def Enqueue_def Let_def intro: same_db)

lemma in_upload:
  assumes M: "media_kept R (NewPostgresMediaRepository (pf_pool pf))"
    and s_def: "s = pg_upload_service pf c js t b u"
  shows "stays R (CompleteUpload s ci)" "stays R (DeleteMedia fuel s o' i)"
proof -
  note [frame_intros] = media_keptD [OF M] in_calls in_Enqueue
  show "stays R (CompleteUpload s ci)"
    unfolding s_def CompleteUpload_def complete_found_def Let_def pg_upload_service_simps
    by (intro frame_intros)
  show "stays R (DeleteMedia fuel s o' i)"
    unfolding s_def DeleteMedia_def delete_found_def Let_def pg_upload_service_simps
    by (auto intro!: frame_intros media_keptD [OF M, simplified] split: option.splits)
qed

lemma in_worker_step:
  assumes M: "media_kept R (NewPostgresMediaRepository (pf_pool pf))" and on: "transcoder_on pf c s"
  shows "stays R (worker_step s (ext_context k))"
  unfolding stays_def
proof
  fix w
  have "R w (w\<lparr>jobQueue := jobs\<rparr>)" for jobs by (rule same_db) simp
  moreover have "R v (snd (run_job s (ext_context k) i v))" for v i
    using in_run_job [OF M on] by (simp add: stays_def)
  ultimately show "R w (snd (worker_step s (ext_context k) w))"
    by (auto simp: worker_step_def R_refl split: list.splits intro: R_trans)
qed

end

lemma outer_frameI:
  assumes "world_order R" "\<And>w w'. same_data w w' \<Longrightarrow> R w w'"
  shows "outer_frame R"
  using assms by (intro outer_frame.intro world_frame.intro outer_frame_axioms.intro)

lemma data_frameI:
  assumes "world_order R" "\<And>w w'. db w' = db w \<Longrightarrow> R w w'"
  shows "data_frame R"
  using assms by (intro data_frame.intro outer_frameI data_frame_axioms.intro) (auto simp: same_data_def)

end
