(* ===== verification/App.thy ===== *)
theory App
  imports Frames Config
begin

text \<open>
  \<open>cmd/api/main.go\<close>: from the configuration to the services, the router and the jobs that run beside
  it, and how the process ends. What the loggers write is left out, but for the lines that tell how a
  job or the server has ended.
\<close>

text \<open>
  What the start asks of the world: the logger for production or development, \<open>pgxpool.New\<close>, a ping of
  Postgres and of Redis, and loading the SDK's configuration.
\<close>

record 'e startup =
  su_Logger :: "bool \<Rightarrow> ('e, unit) prog"
  su_Pool :: "string \<Rightarrow> ('e, unit) prog"
  su_PgPing :: "('e, unit) prog"
  su_RedisPing :: "string \<Rightarrow> int \<Rightarrow> ('e, unit) prog"
  su_LoadDefaultConfig :: "'e aws_load"

record 'q app_libs =
  al_http :: "'q http_lib"
  al_playback :: playback_json
  al_state :: state_json
  al_fuel :: nat

record http_server =
  hs_Addr :: string
  hs_ReadTimeout :: duration
  hs_WriteTimeout :: duration
  hs_IdleTimeout :: duration

record ('e, 'q) App =
  app_router :: "('e, 'q) Router"
  app_server :: http_server
  app_rooms :: "('e world, 'q) RoomService"
  app_transcoder :: "'e world MediaTranscoderService option"
  app_cleanup :: "'e world MediaCleanupService"

definition storage_of :: "Config \<Rightarrow> storage_config" where
  "storage_of cfg =
    (let aws = cf_AWS cfg
     in \<lparr>sc_bucket = ac_Bucket aws, sc_region = ac_Region aws, sc_accessKeyID = ac_AccessKeyID aws,
         sc_secretAccessKey = ac_SecretAccessKey aws, sc_endpoint = ac_Endpoint aws,
         sc_pathStyle = ac_PathStyle aws, sc_publicURL = ac_PublicURL aws\<rparr>)"

definition room_service_of :: "('e, 'q) platform \<Rightarrow> Config \<Rightarrow> ('e world, 'q) RoomService" where
  "room_service_of pf cfg =
    (let lk = cf_LiveKit cfg
     in pg_room_service pf (lc_APIKey lk) (lc_APISecret lk) (lc_WebhookSecret lk) (lc_RoomAutoTimeout lk) (lc_TokenTTL lk))"

definition upload_service_of ::
    "('e, 'q) platform \<Rightarrow> playback_json \<Rightarrow> Config \<Rightarrow> 'e world MediaTranscoderService option \<Rightarrow> 'e MediaUploadService" where
  "upload_service_of pf js cfg tr =
    pg_upload_service pf (storage_of cfg) js tr True
      \<lparr>uc_maxSizeBytes = ac_MaxUploadBytes (cf_AWS cfg), uc_allowedMimeTypes = ac_AllowedMIMEs (cf_AWS cfg),
       uc_presignURLTTL = ac_PresignTTL (cf_AWS cfg), uc_playbackSignedTTL = cf_SignedTTL cfg\<rparr>"

definition auth_service_of :: "('e, 'q) platform \<Rightarrow> Config \<Rightarrow> 'e world AuthService" where
  "auth_service_of pf cfg = pg_auth_service pf (cf_JWTSecret cfg) (cf_AccessTTL cfg) (cf_RefreshTTL cfg)"

definition transcoder_of ::
    "('e, 'q) platform \<Rightarrow> Config \<Rightarrow> ('e world, 'e world MediaTranscoderService option) prog" where
  "transcoder_of pf cfg =
    (let tc = cf_Transcoding cfg
     in if xc_Enabled tc
        then bindP (NewMediaTranscoderService (ext_processes (pf_exec pf)) (pf_text pf)
            \<lparr>nt_mediaRepo = NewPostgresMediaRepository (pf_pool pf), nt_storage = pg_storage pf (storage_of cfg),
             nt_ffmpegPath = xc_FFmpegPath tc, nt_ffprobePath = xc_FFprobePath tc, nt_workDir = xc_WorkDir tc,
             nt_segmentDuration = xc_HLSSegmentSec tc, nt_queueSize = xc_QueueSize tc, nt_jobTimeout = xc_JobTimeout tc\<rparr>)
          (\<lambda>t. retP (Some t))
        else retP None)"

definition router_of ::
    "('e, 'q) platform \<Rightarrow> 'q app_libs \<Rightarrow> Config \<Rightarrow> 'e world MediaTranscoderService option \<Rightarrow> ('e, 'q) Router" where
  "router_of pf libs cfg tr =
    (let jwtSvc = NewJWTService (cf_JWTSecret cfg) (cf_AccessTTL cfg);
         lk = cf_LiveKit cfg;
         authSvc = auth_service_of pf cfg;
         media = upload_service_of pf (al_playback libs) cfg tr
     in \<lparr>ro_auth = NewAuthHandler (ext_read (pf_clock pf)) authSvc jwtSvc,
         ro_rooms = NewRoomsHandler (rand_Read (ext_crypto (pf_crypto pf))) (room_service_of pf cfg) media
           (pg_playback_service pf (al_state libs)) jwtSvc,
         ro_files = NewFilesHandler media,
         ro_webhook = NewWebhookHandler (pg_webhook_service pf)
           (NewClient (ext_sdk (pf_livekit pf)) (lc_APIKey lk) (lc_APISecret lk) (lc_WebhookSecret lk)
              (lc_RoomAutoTimeout lk) (lc_TokenTTL lk)),
         ro_jwt = jwtSvc, ro_tokens = NewPostgresSessionRepository (pf_pool pf),
         ro_corsOrigins = cf_CORSOrigins cfg, ro_crypto = ext_crypto (pf_crypto pf),
         ro_now = ext_read (pf_clock pf), ro_lib = al_http libs, ro_fuel = al_fuel libs\<rparr>)"

text \<open>
  The wiring of the services, once the dependencies have answered. The platform's S3 client is the one
  made from the configuration; every other part of it is the library as it is.
\<close>

definition new_app ::
    "('e, 'q) platform \<Rightarrow> 'q app_libs \<Rightarrow> Config \<Rightarrow> 'e world MediaTranscoderService option \<Rightarrow> ('e, 'q) App" where
  "new_app pf libs cfg tr =
    \<lparr>app_router = router_of pf libs cfg tr,
     app_server = \<lparr>hs_Addr = cf_HTTPAddr cfg, hs_ReadTimeout = 10 * Second, hs_WriteTimeout = 15 * Second,
       hs_IdleTimeout = 60 * Second\<rparr>,
     app_rooms = room_service_of pf cfg, app_transcoder = tr,
     app_cleanup = pg_cleanup_service pf (storage_of cfg) 0 0\<rparr>"

lemma new_app_Addr: "hs_Addr (app_server (new_app pf libs cfg tr)) = cf_HTTPAddr cfg"
  by (simp add: new_app_def)

definition with_s3 :: "'e s3_client \<Rightarrow> ('e, 'q) platform \<Rightarrow> ('e, 'q) platform" where
  "with_s3 client pf = pf\<lparr>pf_s3 := client\<rparr>"

text \<open>
  \<open>main\<close> from the logger to the point where the server listens: \<open>logger.Fatal(msg, zap.Error(err))\<close> is an
  error with the message \<open>msg\<close> around \<open>err\<close>.
\<close>

definition fatal :: "string \<Rightarrow> ('w, 'a) prog \<Rightarrow> ('w, 'a) prog" where
  "fatal msg m = mapErrP (Wrap msg) m"

definition main_setup ::
    "('e, 'q) platform \<Rightarrow> 'e startup \<Rightarrow> 'q app_libs \<Rightarrow> Config \<Rightarrow> ('e world, ('e, 'q) App) prog" where
  "main_setup pf su libs cfg =
    bindP (fatal ''postgres connect'' (ext (su_Pool su (cf_DatabaseURL cfg)))) (\<lambda>_.
    bindP (fatal ''postgres ping'' (ext (su_PgPing su))) (\<lambda>_.
    bindP (fatal ''redis ping'' (ext (su_RedisPing su (cf_RedisAddr cfg) (cf_RedisDB cfg)))) (\<lambda>_.
    bindP (fatal ''storage init'' (NewS3Client (su_LoadDefaultConfig su) (storage_of cfg))) (\<lambda>client.
    bindP (fatal ''transcoder init'' (transcoder_of (with_s3 client pf) cfg)) (\<lambda>tr.
      retP (new_app (with_s3 client pf) libs cfg tr))))))"

text \<open>
  How the process begins: it panics because of the configuration or because it gets no logger, it ends because
  a dependency does not answer, or it serves. A new process has an empty queue.
\<close>

datatype ('x, 'a) started = Panicked "'x load_error" | Panicked_logger err | Exited err | Serving 'a

definition main_start ::
    "('e, 'q) platform \<Rightarrow> 'e startup \<Rightarrow> 'q app_libs \<Rightarrow> (string \<Rightarrow> duration option) \<Rightarrow> 'x \<Rightarrow> 'x dotenv \<Rightarrow> environ \<Rightarrow>
      'e world \<Rightarrow> ('x, ('e, 'q) App) started \<times> 'e world" where
  "main_start pf su libs parse ErrTooLong file en w =
    (let w0 = w\<lparr>jobQueue := []\<rparr>
     in case fst (Load parse ErrTooLong file en) of
          Inl e \<Rightarrow> (Panicked e, w0)
        | Inr cfg \<Rightarrow>
            (case ext (su_Logger su (cf_Env cfg = ''prod'')) w0 of
               (Inl e, w1) \<Rightarrow> (Panicked_logger e, w1)
             | (Inr _, w1) \<Rightarrow>
                 (case main_setup pf su libs cfg w1 of
                    (Inl e, w2) \<Rightarrow> (Exited e, w2)
                  | (Inr app, w2) \<Rightarrow> (Serving app, w2))))"

subsection \<open>What runs beside the server, and the end\<close>

datatype log_entry = LogInfo string "(string \<times> int) list" | LogError string err

text \<open>
  One tick of \<open>RunDaily\<close>, which ticks every 24 hours and gives each run the time \<open>runTimeout\<close>: how it
  ended is only logged.
\<close>

definition daily_period :: duration where
  "daily_period = 24 * Hour"

definition RunDaily_tick ::
    "nat \<Rightarrow> (string list \<Rightarrow> string list) \<Rightarrow> 'w MediaCleanupService \<Rightarrow> ('w, log_entry) prog" where
  "RunDaily_tick fuel order s =
    bindP (attemptP (RunOnce fuel order s)) (\<lambda>r.
      retP (case r of
        Inl e \<Rightarrow> LogError ''orphaned media cleanup failed'' e
      | Inr (scanned, deleted, failed) \<Rightarrow> LogInfo ''orphaned media cleanup finished''
          [(''scanned_media'', scanned), (''deleted_media'', deleted), (''failed_media'', failed)]))"

text \<open>The job that ends stale rooms: its arguments with their defaults, and one tick.\<close>

definition stale_closer_args :: "duration \<Rightarrow> duration \<Rightarrow> duration \<times> duration" where
  "stale_closer_args minActiveAge runEvery =
    (if minActiveAge \<le> 0 then 24 * Hour else minActiveAge, if runEvery \<le> 0 then Hour else runEvery)"

definition stale_closer_tick :: "('w, 'q) RoomService \<Rightarrow> duration \<Rightarrow> ('w, log_entry) prog" where
  "stale_closer_tick roomSvc minActiveAge =
    bindP (attemptP (EndStaleActiveRooms roomSvc minActiveAge)) (\<lambda>r.
      retP (case r of
        Inl e \<Rightarrow> LogError ''stale room closer failed'' e
      | Inr (ended, failed) \<Rightarrow> LogInfo ''stale room closer finished''
          [(''closed_rooms'', ended), (''failed_rooms'', failed), (''min_active_age'', minActiveAge)]))"

text \<open>
  The goroutine of the server: \<open>ListenAndServe\<close> returns an error, which ends the process unless it says
  that the server has been shut down. After a signal the server has ten seconds to finish its requests;
  then \<open>main\<close> returns, and with it the process ends, with its jobs and its queue.
\<close>

definition server_ended :: "err \<Rightarrow> err option \<Rightarrow> err option" where
  "server_ended ErrServerClosed r =
    (case r of None \<Rightarrow> None
     | Some e \<Rightarrow> if e = ErrServerClosed then None else Some (Wrap ''http server error'' e))"

definition waitForShutdown :: "(duration \<Rightarrow> ('w, unit) prog) \<Rightarrow> ('w, log_entry list) prog" where
  "waitForShutdown shutdown =
    bindP (attemptP (shutdown (10 * Second))) (\<lambda>r.
      retP (LogInfo ''shutting down'' [] #
        (case r of Inl e \<Rightarrow> [LogError ''shutdown error'' e] | Inr _ \<Rightarrow> [])))"

subsection \<open>The parts of a started program\<close>

definition app_on :: "('e, 'q) platform \<Rightarrow> 'q app_libs \<Rightarrow> Config \<Rightarrow> ('e, 'q) App \<Rightarrow> bool" where
  "app_on pf libs cfg app \<longleftrightarrow>
    app_router app = router_of pf libs cfg (app_transcoder app) \<and> app_rooms app = room_service_of pf cfg \<and>
    app_cleanup app = pg_cleanup_service pf (storage_of cfg) 0 0 \<and>
    (\<forall>tr. app_transcoder app = Some tr \<longrightarrow> transcoder_on pf (storage_of cfg) tr)"

lemma transcoder_of_Inr:
  assumes "transcoder_of pf cfg w = (Inr (Some tr), w')"
  shows "transcoder_on pf (storage_of cfg) tr \<and> 0 < mt_queueSize tr"
  using assms NewMediaTranscoderService_on [of pf "pf_text pf" _ w tr w' "storage_of cfg"]
  by (auto simp: transcoder_of_def Let_def prog_simps split: if_splits)

lemma ext_Inr_iff: "ext c w = (Inr x, w') \<longleftrightarrow> c (env w) = (Inr x, env w') \<and> w' = w\<lparr>env := env w'\<rparr>"
  and ext_Inl_iff: "ext c w = (Inl e, w') \<longleftrightarrow> c (env w) = (Inl e, env w') \<and> w' = w\<lparr>env := env w'\<rparr>"
  by (auto simp: ext_def split: prod.splits)

text \<open>
  The dependencies the start calls, in turn: that all of them have answered, and that one of them has failed
  after those before it have answered.
\<close>

definition dependencies :: "'e startup \<Rightarrow> Config \<Rightarrow> (string \<times> ('e, unit) prog) list" where
  "dependencies su cfg =
    [(''postgres connect'', su_Pool su (cf_DatabaseURL cfg)), (''postgres ping'', su_PgPing su),
     (''redis ping'', su_RedisPing su (cf_RedisAddr cfg) (cf_RedisDB cfg))]"

fun answered :: "(string \<times> ('e, unit) prog) list \<Rightarrow> 'e \<Rightarrow> 'e \<Rightarrow> bool" where
  "answered [] e e' \<longleftrightarrow> e' = e"
| "answered ((msg, call) # calls) e e' \<longleftrightarrow> (case call e of (Inl _, _) \<Rightarrow> False | (Inr _, e1) \<Rightarrow> answered calls e1 e')"

fun stopped :: "(string \<times> ('e, unit) prog) list \<Rightarrow> err \<Rightarrow> 'e \<Rightarrow> 'e \<Rightarrow> bool" where
  "stopped [] err e e' \<longleftrightarrow> False"
| "stopped ((msg, call) # calls) err e e' \<longleftrightarrow>
    (case call e of (Inl x, e1) \<Rightarrow> err = Wrap msg x \<and> e' = e1 | (Inr _, e1) \<Rightarrow> stopped calls err e1 e')"

abbreviation client_call :: "'e startup \<Rightarrow> Config \<Rightarrow> ('e, client_opts \<Rightarrow> 'e s3_client) prog" where
  "client_call su cfg \<equiv> su_LoadDefaultConfig su (ac_Region (cf_AWS cfg)) (static_credentials (storage_of cfg))"

text \<open>The run of the setup: which calls have answered, and which one has ended it.\<close>

lemma main_setup_cases:
  assumes "main_setup pf su libs cfg w = (r, w')"
  obtains (dependency) e where "r = Inl e" "stopped (dependencies su cfg) e (env w) (env w')"
  | (storage) e1 x where "r = Inl (Wrap ''storage init'' x)" "answered (dependencies su cfg) (env w) e1"
      "client_call su cfg e1 = (Inl x, env w')"
  | (transcoder) e1 new e2 x where "r = Inl (Wrap ''transcoder init'' x)" "answered (dependencies su cfg) (env w) e1"
      "client_call su cfg e1 = (Inr new, e2)"
      "transcoder_of (with_s3 (new (clientOpts (storage_of cfg))) pf) cfg (w\<lparr>env := e2\<rparr>) = (Inl x, w')"
  | (ready) e1 new e2 tr where "r = Inr (new_app (with_s3 (new (clientOpts (storage_of cfg))) pf) libs cfg tr)"
      "answered (dependencies su cfg) (env w) e1" "client_call su cfg e1 = (Inr new, e2)"
      "transcoder_of (with_s3 (new (clientOpts (storage_of cfg))) pf) cfg (w\<lparr>env := e2\<rparr>) = (Inr tr, w')"
proof -
  have region: "sc_region (storage_of cfg) = ac_Region (cf_AWS cfg)" by (simp add: storage_of_def Let_def)
  obtain a e1 where a: "su_Pool su (cf_DatabaseURL cfg) (env w) = (a, e1)" by fastforce
  obtain b e2 where b: "su_PgPing su e1 = (b, e2)" by fastforce
  obtain d e3 where d: "su_RedisPing su (cf_RedisAddr cfg) (cf_RedisDB cfg) e2 = (d, e3)" by fastforce
  obtain l e4 where l: "client_call su cfg e3 = (l, e4)" by fastforce
  note run = assms [unfolded main_setup_def fatal_def NewS3Client_def region]
  note defs = bindP_def mapErrP_def ext_def retP_def
  show thesis
  proof (cases "stopped (dependencies su cfg) (the (case r of Inl e \<Rightarrow> Some e | Inr _ \<Rightarrow> None)) (env w) (env w')
      \<and> (\<exists>e. r = Inl e)")
    case True
    then show thesis using dependency by auto
  next
    case False
    with run a b d have ok: "\<exists>u. a = Inr u" "\<exists>u. b = Inr u" "\<exists>u. d = Inr u"
      by (auto simp: defs dependencies_def split: sum.splits)
    with a b d have deps: "answered (dependencies su cfg) (env w) e3" by (auto simp: dependencies_def)
    show thesis
    proof (cases l)
      case (Inl x)
      with run a b d l ok have "r = Inl (Wrap ''storage init'' x)" "env w' = e4" by (auto simp: defs)
      with deps l Inl show thesis by (intro storage) auto
    next
      case (Inr new)
      obtain t w2 where t: "transcoder_of (with_s3 (new (clientOpts (storage_of cfg))) pf) cfg (w\<lparr>env := e4\<rparr>) = (t, w2)"
        by fastforce
      with run a b d l ok Inr have last: "w' = w2"
        "r = (case t of Inl x \<Rightarrow> Inl (Wrap ''transcoder init'' x)
          | Inr tr \<Rightarrow> Inr (new_app (with_s3 (new (clientOpts (storage_of cfg))) pf) libs cfg tr))"
        by (auto simp: defs split: sum.splits)
      show thesis
      proof (cases t)
        case t_Inl: (Inl x)
        with last t deps l Inr show thesis by (intro transcoder) auto
      next
        case t_Inr: (Inr tr)
        with last t deps l Inr show thesis by (intro ready) auto
      qed
    qed
  qed
qed

lemma transcoder_of_app_on:
  assumes "transcoder_of pf cfg w = (Inr tr, w')" and "app = new_app pf libs cfg tr"
  shows "app_on pf libs cfg app \<and> app_transcoder app = tr \<and> (tr \<noteq> None \<longleftrightarrow> xc_Enabled (cf_Transcoding cfg))"
proof -
  from assms(1) have "tr \<noteq> None \<longleftrightarrow> xc_Enabled (cf_Transcoding cfg)"
    by (auto simp: transcoder_of_def Let_def prog_simps split: if_splits)
  with assms show ?thesis by (auto simp: app_on_def new_app_def dest: transcoder_of_Inr)
qed

lemma main_setup_Inr:
  assumes "main_setup pf su libs cfg w = (Inr app, w')"
  obtains client where "app_on (with_s3 client pf) libs cfg app"
  using assms by (cases rule: main_setup_cases) (use that transcoder_of_app_on in blast)+

text \<open>Starting the program changes no table.\<close>

lemma main_setup_same: "stays same_data (main_setup pf su libs cfg)"
proof -
  have "stays same_data (transcoder_of p cfg)" for p
    unfolding transcoder_of_def NewMediaTranscoderService_def Let_def ext_processes_simps by (intro frame_intros)
  then show ?thesis unfolding main_setup_def fatal_def NewS3Client_def by (intro frame_intros)
qed

text \<open>What a process that serves has behind it.\<close>

lemma main_start_Serving:
  assumes "main_start pf su libs parse x file en w = (Serving app, w')"
  obtains cfg e1 where "fst (Load parse x file en) = Inr cfg"
    "su_Logger su (cf_Env cfg = ''prod'') (env w) = (Inr (), e1)"
    "main_setup pf su libs cfg (w\<lparr>jobQueue := [], env := e1\<rparr>) = (Inr app, w')"
  using assms by (auto simp: main_start_def Let_def ext_def split: sum.splits prod.splits)

lemma main_start_on:
  assumes "main_start pf su libs parse x file en w = (Serving app, w')"
  obtains client cfg where "app_on (with_s3 client pf) libs cfg app"
  using assms by (blast elim: main_start_Serving main_setup_Inr)

lemma main_start_same:
  assumes "main_start pf su libs parse x file en w = (s, w')"
  shows "db w' = db w \<and> jobQueue w' = []"
proof -
  have "db w1 = db w \<and> jobQueue w1 = []" if "main_setup pf su libs cfg (w\<lparr>jobQueue := [], env := e\<rparr>) = (r, w1)" for cfg e r w1
    using staysD [OF main_setup_same that] by (simp add: same_data_def)
  with assms show ?thesis
    by (auto simp: main_start_def Let_def ext_def split: sum.splits prod.splits)
qed

end
