(* ===== verification/System.thy ===== *)
theory System
  imports App
begin

text \<open>
  The running program: requests, jobs of the transcoder, the clean-up, the job that ends stale
  rooms, and whatever happens outside, one after the other in any order. Every row of the tables
  develops, whatever happens.
\<close>

subsection \<open>Tables that are left alone\<close>

definition stmt_leaves :: "(db \<Rightarrow> 't) \<Rightarrow> 'r stmt \<Rightarrow> bool" where
  "stmt_leaves T st \<longleftrightarrow> (\<forall>t d rows d'. st t d = Inr (rows, d') \<longrightarrow> T d' = T d)"

abbreviation leaves :: "(db \<Rightarrow> 't) \<Rightarrow> 'e world \<Rightarrow> 'e world \<Rightarrow> bool" where
  "leaves T \<equiv> unchanged (\<lambda>w. T (db w))"

interpretation leave: data_frame "leaves T" for T :: "db \<Rightarrow> 't"
  by (rule data_frameI [OF same.world_order_axioms]) (simp add: unchanged_def)

lemma leaves_stmt: "stmt_leaves T st \<Longrightarrow> stays (leaves T) (run_stmt pool st)"
  by (rule stays_run_stmt) (auto simp: stmt_leaves_def unchanged_def)

lemma leaves_query:
  assumes "stmt_leaves T st"
  shows "stays (leaves T) (query_row pool st)" "stays (leaves T) (mapErrP f (query_row pool st))"
    "stays (leaves T) (exec_affecting pool st)"
  by (intro stays_query_row leaves_stmt assms)+

lemma media_leaves:
  assumes "\<And>d x. T (d\<lparr>media_tbl := x\<rparr>) = T d"
  shows "media_in (leaves T) (NewPostgresMediaRepository pool)"
proof -
  have "stmt_leaves T (media_insert m)" "stmt_leaves T (media_by_owner u)" "stmt_leaves T (media_select i)"
    "stmt_leaves T (media_existing ids)" "stmt_leaves T (media_update i f)"
    "stmt_leaves T (media_set_transcode i url p dur st)" for m u i ids f url p dur st
    by (auto simp: stmt_leaves_def media_insert_def media_by_owner_def media_select_def media_existing_def
        media_update_def media_set_transcode_def Let_def assms split: if_splits)
  then show ?thesis
    unfolding media_in_def NewPostgresMediaRepository_simps PostgresMedia_Create_def
      PostgresMedia_ListByOwner_def PostgresMedia_GetByID_def PostgresMedia_ListExistingIDs_def
      PostgresMedia_UpdateUploadState_def PostgresMedia_UpdateStatus_def
      PostgresMedia_UpdateTranscodeResult_def PostgresMedia_SoftDelete_def
    by (intro conjI allI same.stays_if same.stays_ret leaves_query leaves_stmt)
qed

lemma rooms_leaves:
  assumes "\<And>d x. T (d\<lparr>rooms_tbl := x\<rparr>) = T d"
  shows "rooms_in (leaves T) (NewPostgresRoomRepository pool)"
proof -
  have "stmt_leaves T (rooms_insert r)" "stmt_leaves T (rooms_by_owner u)" "stmt_leaves T rooms_active"
    "stmt_leaves T (rooms_select i)" "stmt_leaves T (rooms_set_media i m)" "stmt_leaves T (rooms_end i t)"
    for r u i m t
    by (auto simp: stmt_leaves_def rooms_insert_def rooms_by_owner_def rooms_active_def rooms_select_def
        rooms_set_media_def rooms_end_def Let_def assms split: if_splits)
  then show ?thesis
    unfolding rooms_in_def NewPostgresRoomRepository_simps PostgresRoom_CreateRoom_def
      PostgresRoom_ListRoomsByOwner_def PostgresRoom_ListActiveRooms_def PostgresRoom_GetRoomByID_def
      PostgresRoom_UpdateRoomMedia_def PostgresRoom_EndRoom_def
    by (intro conjI allI leaves_query leaves_stmt)
qed

lemma users_leaves:
  assumes "\<And>d x. T (d\<lparr>users_tbl := x\<rparr>) = T d"
  shows "users_in (leaves T) (NewPostgresUserRepository pool)"
proof -
  have "stmt_leaves T (users_insert u)" "stmt_leaves T (users_select e)" for u e
    by (auto simp: stmt_leaves_def users_insert_def users_select_def Let_def assms split: if_splits)
  then show ?thesis
    unfolding users_in_def NewPostgresUserRepository_simps PostgresUser_CreateUser_def PostgresUser_GetByEmail_def
    by (intro conjI allI leaves_query leaves_stmt)
qed

lemma sessions_leaves:
  assumes "\<And>d x. T (d\<lparr>sessions_tbl := x\<rparr>) = T d"
  shows "sessions_in (leaves T) (NewPostgresSessionRepository pool)"
proof -
  have "stmt_leaves T (sessions_insert s)" "stmt_leaves T (sessions_select h)" "stmt_leaves T (sessions_rotate i j h t u)"
    "stmt_leaves T (sessions_revoked j)" "stmt_leaves T (sessions_revoke j t)" for s h i j t u
    by (auto simp: stmt_leaves_def sessions_insert_def sessions_select_def sessions_rotate_def
        sessions_revoked_def sessions_revoke_def Let_def assms split: if_splits)
  then show ?thesis
    unfolding sessions_in_def NewPostgresSessionRepository_simps PostgresSession_Store_def
      PostgresSession_GetByRefreshTokenHash_def PostgresSession_Rotate_def PostgresSession_IsAccessRevoked_def
      PostgresSession_RevokeByAccessJTI_def
    by (intro conjI allI same.stays_bind same.stays_ret leaves_query leaves_stmt)
qed

subsection \<open>Rows that develop\<close>

text \<open>A session keeps its user, its version never falls, and once revoked it stays as it is.\<close>

definition sess_evolves :: "Session \<Rightarrow> Session \<Rightarrow> bool" where
  "sess_evolves s s' \<longleftrightarrow> sess_ID s' = sess_ID s \<and> sess_UserID s' = sess_UserID s \<and>
    sess_Version s \<le> sess_Version s' \<and> (sess_RevokedAt s \<noteq> None \<longrightarrow> s' = s)"

interpretation sess_dev: row_order sess_evolves
  by unfold_locales (auto simp: sess_evolves_def)

interpretation user_dev: row_order "(=) :: User \<Rightarrow> User \<Rightarrow> bool"
  by unfold_locales auto

abbreviation rooms_develop :: "'e world \<Rightarrow> 'e world \<Rightarrow> bool" where
  "rooms_develop \<equiv> develops world_ok room_row room_evolves"

abbreviation media_develop :: "'e world \<Rightarrow> 'e world \<Rightarrow> bool" where
  "media_develop \<equiv> develops world_ok media_row media_evolves"

abbreviation sessions_develop :: "'e world \<Rightarrow> 'e world \<Rightarrow> bool" where
  "sessions_develop \<equiv> develops world_ok sess_row sess_evolves"

abbreviation users_develop :: "'e world \<Rightarrow> 'e world \<Rightarrow> bool" where
  "users_develop \<equiv> develops world_ok user_row (=)"

lemma develops_same_db: "(\<And>r. E r r) \<Longrightarrow> db w' = db w \<Longrightarrow> develops world_ok (\<lambda>w. v (db w)) E w w'"
  by (simp add: develops_def world_ok_def)

interpretation rooms_dev: data_frame rooms_develop
  by (rule data_frameI [OF room_dev.develops_order]) (simp add: develops_same_db)

interpretation media_dev_frame: data_frame media_develop
  by (rule data_frameI [OF media_dev.develops_order]) (simp add: develops_same_db media_evolves_def)

interpretation sessions_dev: data_frame sessions_develop
  by (rule data_frameI [OF sess_dev.develops_order]) (simp add: develops_same_db sess_evolves_def)

interpretation users_dev: data_frame users_develop
  by (rule data_frameI [OF user_dev.develops_order]) (simp add: develops_same_db)

text \<open>The repositories develop the rows of their own table.\<close>

lemma media_own: "media_in media_develop (NewPostgresMediaRepository pool)"
  unfolding media_in_def
  by (intro conjI allI pg_media.grows_updates pg_media.grows_Create pg_media.grows_reads)

lemma CreateRoom_inserts:
  "world_ok w \<Longrightarrow> rr_CreateRoom (NewPostgresRoomRepository pool) room w = (r, w') \<Longrightarrow>
    world_ok w' \<and> (room_row w' = room_row w \<or>
      (\<exists>k r'. room_row w k = None \<and> room_row w' = (room_row w)(k \<mapsto> r')))"
  using pg_rooms.CreateRoom_Inr [of w pool room] pg_rooms.CreateRoom_Inl [of w pool room]
  by (cases r) blast+

lemma rooms_own: "rooms_in rooms_develop (NewPostgresRoomRepository pool)"
proof -
  have "stays rooms_develop (rr_CreateRoom (NewPostgresRoomRepository pool) room)" for room
    by (rule room_dev.develops_insert [OF CreateRoom_inserts])
  moreover have "stays rooms_develop (rr_UpdateRoomMedia (NewPostgresRoomRepository pool) i m)" for i m
    by (rule room_dev.develops_update [OF pg_rooms.UpdateRoomMedia_law]) (rule room_evolves_media)
  moreover have "stays rooms_develop (rr_EndRoom (NewPostgresRoomRepository pool) i t)" for i t
    by (rule room_dev.develops_update [OF pg_rooms.EndRoom_law]) (rule room_evolves_end)
  ultimately show ?thesis
    unfolding rooms_in_def
    using room_dev.develops_quiet [OF pg_rooms.GetRoomByID_quiet]
      room_dev.develops_quiet [OF pg_rooms.ListActiveRooms_quiet]
      room_dev.develops_quiet [OF pg_rooms.ListRoomsByOwner_quiet]
    by blast
qed

lemma users_own: "users_in users_develop (NewPostgresUserRepository pool)"
proof -
  have "stays users_develop (ur_CreateUser (NewPostgresUserRepository pool) u)" for u
  proof (rule user_dev.develops_insert)
    fix w r w'
    assume "world_ok w" and "ur_CreateUser (NewPostgresUserRepository pool) u w = (r, w')"
    with pg_users.CreateUser_Inr [of w pool u] pg_users.CreateUser_Inl [of w pool u]
    show "world_ok w' \<and> (user_row w' = user_row w \<or>
        (\<exists>k r'. user_row w k = None \<and> user_row w' = (user_row w)(k \<mapsto> r')))"
      by (cases r) blast+
  qed
  then show ?thesis
    unfolding users_in_def using user_dev.develops_quiet [OF pg_users.GetByEmail_quiet] by blast
qed

lemma sess_evolves_sets:
  "sess_RevokedAt s = None \<Longrightarrow> sess_evolves s (rotated jti h t u s)" "sess_evolves s (revoked jti t s)"
  by (auto simp: sess_evolves_def rotated_def revoked_def)

lemma sessions_own: "sessions_in sessions_develop (NewPostgresSessionRepository pool)"
proof -
  let ?S = "NewPostgresSessionRepository pool"
  have "stays sessions_develop (sr_Store ?S s)" for s
  proof (rule sess_dev.develops_insert)
    fix w r w'
    assume "world_ok w" and "sr_Store ?S s w = (r, w')"
    with pg_sessions.Store_Inr [of w pool s] pg_sessions.Store_Inl [of w pool s]
    show "world_ok w' \<and> (sess_row w' = sess_row w \<or>
        (\<exists>k r'. sess_row w k = None \<and> sess_row w' = (sess_row w)(k \<mapsto> r')))"
      by (cases r) blast+
  qed
  moreover have "stays sessions_develop (sr_Rotate ?S i j h t u)" for i j h t u
    by (rule sess_dev.develops_update [OF pg_sessions.Rotate_law]) (rule sess_evolves_sets)
  moreover have "stays sessions_develop (sr_RevokeByAccessJTI ?S j t)" for j t
    unfolding stays_def
  proof
    fix w
    obtain r w' where run: "sr_RevokeByAccessJTI ?S j t w = (r, w')" by (cases "sr_RevokeByAccessJTI ?S j t w")
    have "world_ok w' \<and> (sess_row w' = sess_row w \<or> sess_row w' = (\<lambda>i. map_option (revoked j t) (sess_row w i)))"
      if "world_ok w"
      using that run pg_sessions.RevokeByAccessJTI_Inr [of w pool j t] pg_sessions.RevokeByAccessJTI_Inl [of w pool j t]
      by (cases r) blast+
    then have "sessions_develop w w'"
      unfolding develops_def by (auto simp: sess_dev.E_refl sess_evolves_sets(2))
    with run show "sessions_develop w (snd (sr_RevokeByAccessJTI ?S j t w))" by simp
  qed
  ultimately show ?thesis
    unfolding sessions_in_def
    using sess_dev.develops_quiet [OF pg_sessions.GetByHash_quiet]
      sess_dev.develops_quiet [OF pg_sessions.IsAccessRevoked_quiet]
    by blast
qed

subsection \<open>Every repository in every relation\<close>

lemma stays_both: "stays R m \<Longrightarrow> stays S m \<Longrightarrow> stays (\<lambda>w w'. R w w' \<and> S w w') m"
  by (simp add: stays_def)

lemma stays_weaken: "stays R m \<Longrightarrow> (\<And>w w'. R w w' \<Longrightarrow> S w w') \<Longrightarrow> stays S m"
  by (simp add: stays_def)

text \<open>A call that develops its own table and leaves the table \<open>T\<close> alone develops what \<open>T\<close> shows.\<close>

lemma develops_other:
  assumes "stays (develops world_ok v E) m" "stays (leaves T) m"
    and view: "\<And>d d'. T d' = T d \<Longrightarrow> u d' = u d" and refl: "\<And>r. F r r"
  shows "stays (develops world_ok (\<lambda>w. u (db w)) F) m"
proof (rule stays_weaken [OF stays_both [OF assms(1,2)]])
  fix w w'
  assume "develops world_ok v E w w' \<and> leaves T w w'"
  then have "world_ok w \<Longrightarrow> world_ok w'" "u (db w') = u (db w)"
    by (auto simp: develops_def unchanged_def intro!: view)
  with refl show "develops world_ok (\<lambda>w. u (db w)) F w w'" by (simp add: develops_def)
qed

lemma other_in:
  assumes view: "\<And>d d'. T d' = T d \<Longrightarrow> u d' = u d" and refl: "\<And>r. F r r"
  shows "(\<And>d x. T (d\<lparr>media_tbl := x\<rparr>) = T d) \<Longrightarrow>
      media_in (develops world_ok (\<lambda>w. u (db w)) F) (NewPostgresMediaRepository pool)"
    and "(\<And>d x. T (d\<lparr>rooms_tbl := x\<rparr>) = T d) \<Longrightarrow>
      rooms_in (develops world_ok (\<lambda>w. u (db w)) F) (NewPostgresRoomRepository pool)"
    and "(\<And>d x. T (d\<lparr>users_tbl := x\<rparr>) = T d) \<Longrightarrow>
      users_in (develops world_ok (\<lambda>w. u (db w)) F) (NewPostgresUserRepository pool)"
    and "(\<And>d x. T (d\<lparr>sessions_tbl := x\<rparr>) = T d) \<Longrightarrow>
      sessions_in (develops world_ok (\<lambda>w. u (db w)) F) (NewPostgresSessionRepository pool)"
proof -
  note other = develops_other [OF _ _ view refl]
  show "media_in (develops world_ok (\<lambda>w. u (db w)) F) (NewPostgresMediaRepository pool)"
    if "\<And>d x. T (d\<lparr>media_tbl := x\<rparr>) = T d"
  proof -
    have left: "media_in (leaves T) (NewPostgresMediaRepository pool)" using that by (rule media_leaves)
    show ?thesis
      unfolding media_in_def
      by (safe; (rule other [where v = media_row and E = media_evolves], rule media_inD [OF media_own], rule media_inD [OF left]))
  qed
  show "rooms_in (develops world_ok (\<lambda>w. u (db w)) F) (NewPostgresRoomRepository pool)"
    if "\<And>d x. T (d\<lparr>rooms_tbl := x\<rparr>) = T d"
  proof -
    have left: "rooms_in (leaves T) (NewPostgresRoomRepository pool)" using that by (rule rooms_leaves)
    show ?thesis
      unfolding rooms_in_def
      by (safe; (rule other [where v = room_row and E = room_evolves], rule rooms_inD [OF rooms_own], rule rooms_inD [OF left]))
  qed
  show "users_in (develops world_ok (\<lambda>w. u (db w)) F) (NewPostgresUserRepository pool)"
    if "\<And>d x. T (d\<lparr>users_tbl := x\<rparr>) = T d"
  proof -
    have left: "users_in (leaves T) (NewPostgresUserRepository pool)" using that by (rule users_leaves)
    show ?thesis
      unfolding users_in_def
      by (safe; (rule other [where v = user_row and E = "(=)"], rule users_inD [OF users_own], rule users_inD [OF left]))
  qed
  show "sessions_in (develops world_ok (\<lambda>w. u (db w)) F) (NewPostgresSessionRepository pool)"
    if "\<And>d x. T (d\<lparr>sessions_tbl := x\<rparr>) = T d"
  proof -
    have left: "sessions_in (leaves T) (NewPostgresSessionRepository pool)" using that by (rule sessions_leaves)
    show ?thesis
      unfolding sessions_in_def
      by (safe; (rule other [where v = sess_row and E = sess_evolves], rule sessions_inD [OF sessions_own], rule sessions_inD [OF left]))
  qed
qed

text \<open>The repositories of a program, all inside one relation.\<close>

definition program_in :: "('e world \<Rightarrow> 'e world \<Rightarrow> bool) \<Rightarrow> 'e pgpool \<Rightarrow> bool" where
  "program_in R pool \<longleftrightarrow> media_in R (NewPostgresMediaRepository pool) \<and>
    rooms_in R (NewPostgresRoomRepository pool) \<and> users_in R (NewPostgresUserRepository pool) \<and>
    sessions_in R (NewPostgresSessionRepository pool)"

lemma program_develops:
  "program_in rooms_develop pool" "program_in media_develop pool" "program_in sessions_develop pool"
  "program_in users_develop pool"
proof -
  note rooms = other_in [where T = rooms_tbl and u = room_view and F = room_evolves]
  note media = other_in [where T = media_tbl and u = media_view and F = media_evolves]
  note sess = other_in [where T = sessions_tbl and u = sess_view and F = sess_evolves]
  note users = other_in [where T = users_tbl and u = user_view and F = "(=)"]
  have views: "rooms_tbl d' = rooms_tbl d \<Longrightarrow> room_view d' = room_view d"
    "media_tbl d' = media_tbl d \<Longrightarrow> media_view d' = media_view d"
    "sessions_tbl d' = sessions_tbl d \<Longrightarrow> sess_view d' = sess_view d"
    "users_tbl d' = users_tbl d \<Longrightarrow> user_view d' = user_view d" for d d' :: db
    by (simp_all add: room_view_def media_view_def sess_view_def user_view_def fun_eq_iff)
  show "program_in rooms_develop pool"
    unfolding program_in_def by (intro conjI rooms_own rooms views) simp_all
  show "program_in media_develop pool"
    unfolding program_in_def by (intro conjI media_own media views) (simp_all add: media_evolves_def)
  show "program_in sessions_develop pool"
    unfolding program_in_def by (intro conjI sessions_own sess views) (simp_all add: sess_evolves_def)
  show "program_in users_develop pool"
    unfolding program_in_def by (intro conjI users_own users views) simp_all
qed

subsection \<open>The steps of a running program\<close>

text \<open>
  A request of any content is answered, a worker takes a job from the queue, the clean-up and the
  stale-room job run, and the world outside moves on. A call of a service may fail at any of its
  calls (the database and the services outside answer as they please), so a request that is cut
  off by its deadline is a request whose remaining calls fail.
\<close>

inductive app_step ::
    "'e cancel_context \<Rightarrow> 'q http_mux \<Rightarrow> ('e, 'q) App \<Rightarrow> 'e world \<Rightarrow> 'e world \<Rightarrow> bool"
  for cx :: "'e cancel_context" and mx :: "'q http_mux" and app :: "('e, 'q) App"
where
  step_request: "ServeHTTP mx (app_router app) r w = (out, w') \<Longrightarrow> app_step cx mx app w w'"
| step_worker: "app_transcoder app = Some s \<Longrightarrow> worker_step s (ext_context cx) w = (res, w') \<Longrightarrow>
    app_step cx mx app w w'"
| step_cleanup: "RunDaily_tick fuel order (app_cleanup app) w = (res, w') \<Longrightarrow> app_step cx mx app w w'"
| step_stale: "stale_closer_tick (app_rooms app) (fst (stale_closer_args (24 * Hour) Hour)) w = (res, w') \<Longrightarrow>
    app_step cx mx app w w'"
| step_outside: "app_step cx mx app w (w\<lparr>env := e\<rparr>)"

inductive_cases app_stepE [elim]: "app_step cx mx app w w'"

inductive reachable ::
    "'e cancel_context \<Rightarrow> 'q http_mux \<Rightarrow> ('e, 'q) App \<Rightarrow> 'e world \<Rightarrow> 'e world \<Rightarrow> bool"
  for cx :: "'e cancel_context" and mx :: "'q http_mux" and app :: "('e, 'q) App" and w0 :: "'e world"
where
  reach_start: "reachable cx mx app w0 w0"
| reach_step: "reachable cx mx app w0 w \<Longrightarrow> app_step cx mx app w w' \<Longrightarrow> reachable cx mx app w0 w'"

text \<open>
  The life of a deployment: processes are started one after the other, each in its own environment and
  with its own file \<open>.env\<close>; one that starts serves for a while and stops at any time; between processes
  the world outside moves on. The tables stay, the queue of a process does not.
\<close>

inductive lives ::
    "('e, 'q) platform \<Rightarrow> 'e startup \<Rightarrow> 'q app_libs \<Rightarrow> 'q http_mux \<Rightarrow> (string \<Rightarrow> duration option) \<Rightarrow> 'x \<Rightarrow>
      'e world \<Rightarrow> 'e world \<Rightarrow> bool"
  for pf :: "('e, 'q) platform" and su :: "'e startup" and libs :: "'q app_libs" and mx :: "'q http_mux"
    and parse :: "string \<Rightarrow> duration option" and x :: 'x and w0 :: "'e world"
where
  lives_new: "lives pf su libs mx parse x w0 w0"
| lives_outside: "lives pf su libs mx parse x w0 w \<Longrightarrow> lives pf su libs mx parse x w0 (w\<lparr>env := e\<rparr>)"
| lives_failed: "lives pf su libs mx parse x w0 w \<Longrightarrow> main_start pf su libs parse x file en w = (s, w1) \<Longrightarrow>
    lives pf su libs mx parse x w0 w1"
| lives_served: "lives pf su libs mx parse x w0 w \<Longrightarrow>
    main_start pf su libs parse x file en w = (Serving app, w1) \<Longrightarrow> reachable (pf_context pf) mx app w1 w2 \<Longrightarrow>
    lives pf su libs mx parse x w0 w2"

context data_frame
begin

lemma in_webhook:
  "stays R (HandleEvent (pg_webhook_service pf) ev)"
  "stays R (Client_ReceiveWebhook (NewClient (ext_sdk k) a b c d e) q)"
  unfolding HandleEvent_def trackParticipant_def pg_webhook_service_def NewWebhookService_def
    Client_ReceiveWebhook_def
  by (auto intro!: frame_intros in_calls split: option.splits)

text \<open>
  A request, once its user is known: what the operations that only insert and read keep, and the four
  that change rows keep for that user, the request keeps.
\<close>

lemma serves_endpoint_as:
  assumes M: "media_reads R (NewPostgresMediaRepository (pf_pool pf))"
    and Q: "rooms_open R (NewPostgresRoomRepository (pf_pool pf))"
    and U: "users_in R (NewPostgresUserRepository (pf_pool pf))"
    and auth: "\<And>li. stays R (Login (auth_service_of pf cfg) li)" "\<And>t. stays R (Refresh (auth_service_of pf cfg) t)"
    and rooms: "\<And>i m j. UserIDFromContext r \<noteq> [] \<Longrightarrow>
        stays R (UpdateRoomState (room_service_of pf cfg) i (UserIDFromContext r) m j)"
      "\<And>i. UserIDFromContext r \<noteq> [] \<Longrightarrow> stays R (EndRoomByOwner (room_service_of pf cfg) i (UserIDFromContext r))"
    and init: "\<And>js ii. stays R (InitUpload (upload_service_of pf js cfg tr) ii)"
    and media: "\<And>js i. UserIDFromContext r \<noteq> [] \<Longrightarrow> stays R (CompleteUpload (upload_service_of pf js cfg tr)
        \<lparr>cu_OwnerUserID = UserIDFromContext r, cu_MediaID = i\<rparr>)"
      "\<And>js fuel i. UserIDFromContext r \<noteq> [] \<Longrightarrow>
        stays R (DeleteMedia fuel (upload_service_of pf js cfg tr) (UserIDFromContext r) i)"
  shows "serves R (endpoint_handler (router_of pf libs cfg tr) ep r)"
proof -
  note upload = in_read_upload [OF M refl, folded upload_service_of_def]
    and room = in_open_rooms [OF Q refl] and register = in_Register [OF U auth_service_of_def]
  show ?thesis
    by (cases ep) (simp_all add: endpoint_handler_def router_of_def Let_def NewAuthHandler_def NewRoomsHandler_def
        NewFilesHandler_def NewWebhookHandler_def in_calls serves_auth_handlers register auth
        serves_files_handlers upload_service_of_def serves_rooms_handlers room_service_of_def upload room in_playback [OF Q]
        rooms [unfolded room_service_of_def Let_def] init [unfolded upload_service_of_def] media [unfolded upload_service_of_def]
        serves_webhook_handler in_webhook)
qed

lemma serves_endpoint:
  assumes "program_in R (pf_pool pf)"
  shows "serves R (endpoint_handler (router_of pf libs cfg tr) ep r)"
proof -
  from assms have repos: "media_in R (NewPostgresMediaRepository (pf_pool pf))"
    "rooms_in R (NewPostgresRoomRepository (pf_pool pf))" "users_in R (NewPostgresUserRepository (pf_pool pf))"
    "sessions_in R (NewPostgresSessionRepository (pf_pool pf))" by (simp_all add: program_in_def)
  note op = in_open(1) [OF repos(1)] in_open(2) [OF repos(2)] and reads = in_reads(1) [OF in_kept [OF repos(1)]]
  note init = in_InitUpload [OF op(1) refl] and auth = in_auth(2,3) [OF repos(3,4) refl]
  from in_upload [OF in_kept [OF repos(1)] refl] in_rooms [OF reads repos(2) refl] show ?thesis
    by (intro serves_endpoint_as op repos reads)
      (simp_all add: upload_service_of_def room_service_of_def auth_service_of_def Let_def init auth)
qed

lemma step_in_as:
  assumes ep: "\<And>ep q. serves R (endpoint_handler (router_of pf libs cfg (app_transcoder app)) ep q)"
    and revoked: "\<And>i. stays R (sr_IsAccessRevoked (NewPostgresSessionRepository (pf_pool pf)) i)"
    and M: "media_kept R (NewPostgresMediaRepository (pf_pool pf))"
    and Q: "rooms_in R (NewPostgresRoomRepository (pf_pool pf))" and on: "app_on pf libs cfg app"
    and "app_step cx mx app w w'"
  shows "R w w'"
proof -
  from on have ro: "app_router app = router_of pf libs cfg (app_transcoder app)"
    "app_rooms app = room_service_of pf cfg" "app_cleanup app = pg_cleanup_service pf (storage_of cfg) 0 0"
    by (simp_all add: app_on_def)
  from assms(6) show ?thesis
  proof (cases rule: app_step.cases)
    case (step_request r out)
    have route: "serves R (route_request mx (app_router app) q)" for q
    proof (rule serves_route_request)
      show "serves R (endpoint_handler (app_router app) ep q)" for ep q
        unfolding ro by (rule ep)
    qed (simp_all add: ro router_of_def Let_def in_ParseToken revoked [simplified])
    have "stays R (readP (ro_now (app_router app)))" by (simp add: ro router_of_def Let_def in_calls)
    then show ?thesis by (rule ServeHTTP_R [OF _ _ step_request]) (rule servesD [OF route])
  next
    case (step_worker s res)
    with on have "transcoder_on pf (storage_of cfg) s" by (simp add: app_on_def)
    from staysD [OF in_worker_step [OF M this] step_worker(2)] show ?thesis .
  next
    case (step_cleanup fuel order res)
    have "stays R (RunDaily_tick fuel order (app_cleanup app))"
      unfolding RunDaily_tick_def ro by (intro frame_intros in_RunOnce media_keptD [OF M])
    from staysD [OF this step_cleanup] show ?thesis .
  next
    case (step_stale res)
    have "stays R (stale_closer_tick (app_rooms app) d)" for d
      unfolding stale_closer_tick_def ro room_service_of_def Let_def
      by (intro frame_intros in_stale [OF Q refl])
    from staysD [OF this step_stale] show ?thesis .
  next
    case (step_outside e)
    then show ?thesis by (simp add: same_db)
  qed
qed

lemma step_in:
  assumes "program_in R (pf_pool pf)" "app_on pf libs cfg app" "app_step cx mx app w w'"
  shows "R w w'"
proof -
  from assms(1) have repos: "media_in R (NewPostgresMediaRepository (pf_pool pf))"
    "rooms_in R (NewPostgresRoomRepository (pf_pool pf))"
    "sessions_in R (NewPostgresSessionRepository (pf_pool pf))" by (simp_all add: program_in_def)
  show ?thesis
    by (rule step_in_as [OF serves_endpoint [OF assms(1)] sessions_inD(4) [OF repos(3)] in_kept [OF repos(1)] repos(2) assms(2,3)])
qed

lemma reachable_in_step:
  assumes step: "\<And>v v'. app_step cx mx app v v' \<Longrightarrow> R v v'" and "reachable cx mx app w w'"
  shows "R w w'"
  using assms(2) by (induction rule: reachable.induct) (auto intro: R_refl R_trans step)

lemma reachable_in:
  assumes "program_in R (pf_pool pf)" "app_on pf libs cfg app" "reachable cx mx app w w'"
  shows "R w w'"
  by (rule reachable_in_step [OF step_in [OF assms(1,2)] assms(3)])

text \<open>However often it is started.\<close>

lemma lives_in:
  assumes "\<And>client. program_in R (pf_pool (with_s3 client pf))" "lives pf su libs mx parse x w w'"
  shows "R w w'"
  using assms(2)
proof (induction rule: lives.induct)
  case lives_new
  show ?case by (rule R_refl)
next
  case (lives_outside v e)
  have "R v (v\<lparr>env := e\<rparr>)" by (rule same_db) simp
  with lives_outside.IH show ?case by (rule R_trans)
next
  case (lives_failed v f en s v1)
  from main_start_same [OF lives_failed.hyps(2)] have "R v v1" by (intro same_db) simp
  with lives_failed.IH show ?case by (rule R_trans)
next
  case (lives_served v f en app v1 v2)
  from main_start_same [OF lives_served.hyps(2)] have start: "R v v1" by (intro same_db) simp
  from lives_served.hyps(2) obtain client cfg where on: "app_on (with_s3 client pf) libs cfg app"
    by (rule main_start_on)
  from R_trans [OF start reachable_in [OF assms(1) on lives_served.hyps(3)]] lives_served.IH show ?case
    by (blast intro: R_trans)
qed

end

end
