(* ===== verification/Transcoder_Properties.thy ===== *)
theory Transcoder_Properties
  imports System Sample_Platform
begin

text \<open>
  What the transcoder promises: a bounded first-in first-out queue, retries that end, the tail of
  a process's output, workspaces to fall back on, and that a job settles its media and no other.
\<close>

subsection \<open>A job\<close>

lemma workspace_Inr:
  assumes on: "transcoder_on pf c s" and ok: "world_ok w"
    and run: "processMediaInWorkspace s (ext_context k) media tmpDir w = (Inr (), w')"
  shows "\<exists>r d. media_row w' (media_ID media) = Some (ready_row (mt_storage s) media d r)"
proof -
  from run obtain d preview w1 where w1: "produce_media s (ext_context k) media tmpDir w = (Inr (d, preview), w1)"
    and upd: "mr_UpdateTranscodeResult (mt_mediaRepo s) (media_ID media)
      (generateObjectURL (mt_storage s) (hls_key media)) preview (Some d) MediaReady w1 = (Inr (), w')"
    by (auto simp: processMediaInWorkspace_split prog_simps)
  from staysD [OF data_produce_media [OF on] w1] ok have "world_ok w1"
    by (simp add: same_data_def world_ok_def)
  from update_law_Inr [OF pg_media.UpdateTranscodeResult_law this upd [unfolded transcoder_onD(1) [OF on]]]
  obtain r where "media_row w' = (media_row w1)(media_ID media \<mapsto> ready_row (mt_storage s) media d r)"
    unfolding updated_def produce_media_preview [OF w1] ready_row_def by blast
  then show ?thesis by auto
qed

lemma process_in_Inr:
  assumes on: "transcoder_on pf c s"
  shows "world_ok w \<Longrightarrow> process_in s (ext_context k) media dirs l w = (Inr (), w') \<Longrightarrow>
    \<exists>r d. media_row w' (media_ID media) = Some (ready_row (mt_storage s) media d r)"
proof (induction dirs arbitrary: l w)
  case Nil
  then show ?case by (cases l) (simp_all add: failP_def)
next
  case (Cons dir dirs)
  obtain mk w1 where mk: "makeTempWorkspace s dir w = (mk, w1)" by (cases "makeTempWorkspace s dir w")
  from staysD [OF data_makeTempWorkspace [OF on] mk] Cons.prems(1) have w1: "world_ok w1"
    by (simp add: same_data_def world_ok_def)
  show ?case
  proof (cases mk)
    case (Inl e)
    with Cons.prems(2) mk have "process_in s (ext_context k) media dirs (Some e) w1 = (Inr (), w')"
      by (auto simp: eval_prog split: if_splits)
    from Cons.IH [OF w1 this] show ?thesis .
  next
    case (Inr tmp)
    obtain r w2 where r: "processMediaInWorkspace s (ext_context k) media tmp w1 = (r, w2)"
      by (cases "processMediaInWorkspace s (ext_context k) media tmp w1")
    obtain q w3 where q: "fs_RemoveAll (st_fs (mt_storage s)) tmp w2 = (q, w3)"
      by (cases "fs_RemoveAll (st_fs (mt_storage s)) tmp w2")
    from q have w3: "db w3 = db w2" unfolding transcoder_onD(2) [OF on] ext_fs_simps
      by (auto dest: ext_frame)
    from staysD [OF job_workspace [OF on refl] r] w1 w3 have ok: "world_ok w3"
      by (simp add: job_rel_def world_ok_def)
    show ?thesis
    proof (cases r)
      case (Inl e)
      with Cons.prems(2) mk Inr r q have "process_in s (ext_context k) media dirs (Some e) w3 = (Inr (), w')"
        by (auto simp: eval_prog split: if_splits)
      from Cons.IH [OF ok this] show ?thesis .
    next
      case r': (Inr u)
      with Cons.prems(2) mk Inr r q have "w' = w3" by (auto simp: eval_prog)
      with workspace_Inr [OF on w1] r r' w3 show ?thesis by simp
    qed
  qed
qed

lemma processMedia_spec:
  assumes on: "transcoder_on pf c s" and ok: "world_ok w"
    and run: "processMedia s (ext_context k) i w = (r, w')"
  shows "world_ok w' \<and> jobQueue w' = jobQueue w \<and>
    (case r of
       Inr _ \<Rightarrow> \<exists>m d. media_row w i = Some m \<and> live m \<and>
         media_row w' = (media_row w)(i \<mapsto> ready_row (mt_storage s) m d m)
     | Inl e \<Rightarrow> media_row w' = media_row w \<or> (\<exists>m d. media_row w i = Some m \<and> live m \<and>
         media_row w' = (media_row w)(i \<mapsto> ready_row (mt_storage s) m d m)))"
proof -
  obtain g w1 where g: "PostgresMedia_GetByID (pf_pool pf) i w = (g, w1)"
    by (cases "PostgresMedia_GetByID (pf_pool pf) i w")
  then have g': "mr_GetByID (NewPostgresMediaRepository (pf_pool pf)) i w = (g, w1)" by simp
  from quietD [OF pg_media.GetByID_quiet ok g'] have w1: "world_ok w1" "media_row w1 = media_row w"
    by blast+
  have queue: "jobQueue w1 = jobQueue w"
    using g run_stmt_queue query_row_run
    by (metis PostgresMedia_GetByID_def mapErrP_state prod.collapse query_row_state(1) snd_conv)
  show ?thesis
  proof (cases g)
    case (Inl e)
    with run g have "r = Inl e" "w' = w1"
      by (simp_all add: processMedia_def transcoder_onD(1) [OF on] bindP_def)
    with w1 queue show ?thesis by simp
  next
    case (Inr m)
    from pg_media.GetByID_Inr [OF ok g' [unfolded Inr]] have m: "media_row w i = Some m" "live m" by auto
    from pg_media.media_at_ID [OF ok m(1)] have [simp]: "media_ID m = i" .
    obtain dir w2 where t: "fs_TempDir (st_fs (mt_storage s)) w1 = (dir, w2)"
      by (cases "fs_TempDir (st_fs (mt_storage s)) w1")
    then have w2: "db w2 = db w1" "jobQueue w2 = jobQueue w1"
      unfolding transcoder_onD(2) [OF on] ext_fs_simps by (auto dest: ext_read_frame)
    have rest: "process_in s (ext_context k) m (tempBaseDirs s dir) None w2 = (r, w')"
      using run g Inr t by (simp add: processMedia_def transcoder_onD(1) [OF on] eval_prog)
    from w1 w2 have ok2: "world_ok w2" "media_row w2 = media_row w" by (simp_all add: world_ok_def)
    from staysD [OF job_process_in [OF on, of m i k] rest] ok2 w2 queue m
    have rel: "world_ok w'" "jobQueue w' = jobQueue w" "media_row w' = media_row w \<or>
        (\<exists>d. media_row w' = (media_row w)(i \<mapsto> ready_row (mt_storage s) m d m))"
      by (auto simp: job_rel_def)
    show ?thesis
    proof (cases r)
      case (Inl e)
      with rel m show ?thesis by auto
    next
      case (Inr u)
      with process_in_Inr [OF on ok2(1)] rest obtain q d
        where q: "media_row w' i = Some (ready_row (mt_storage s) m d q)" by fastforce
      from rel(3) have "\<exists>d. media_row w' = (media_row w)(i \<mapsto> ready_row (mt_storage s) m d m)"
      proof
        assume same: "media_row w' = media_row w"
        with q m have "m = ready_row (mt_storage s) m d q" by simp
        then have "ready_row (mt_storage s) m d m = m" by (metis ready_row_again)
        with same m(1) have "media_row w' = (media_row w)(i \<mapsto> ready_row (mt_storage s) m d m)"
          by (simp add: fun_upd_idem)
        then show ?thesis ..
      qed
      with rel(1,2) m Inr show ?thesis by auto
    qed
  qed
qed


text \<open>A turn of the worker: the job at the head leaves the queue and is settled.\<close>

lemma run_job_spec:
  assumes on: "transcoder_on pf c s" and ok: "world_ok w"
    and run: "run_job s (ext_context k) i w = (r, w')"
  shows "r = Inr () \<and> world_ok w' \<and> jobQueue w' = jobQueue w \<and>
    (media_row w' = media_row w \<or> (\<exists>m m' d. media_row w i = Some m \<and> live m \<and>
      media_row w' = (media_row w)(i \<mapsto> m') \<and>
      (m' = ready_row (mt_storage s) m d m \<or> m' = set_status MediaFailed m \<or>
       m' = set_status MediaFailed (ready_row (mt_storage s) m d m))))"
proof -
  obtain q w1 where p: "processMedia s (ext_context k) i w = (q, w1)"
    by (cases "processMedia s (ext_context k) i w")
  note spec = processMedia_spec [OF on ok p]
  show ?thesis
  proof (cases q)
    case (Inr u)
    with run p have "r = Inr ()" "w' = w1" by (simp_all add: run_job_def eval_prog)
    with spec Inr show ?thesis by auto
  next
    case (Inl e)
    let ?upd = "mr_UpdateStatus (NewPostgresMediaRepository (pf_pool pf)) i MediaFailed"
    obtain a w2 where u: "?upd w1 = (a, w2)" by (cases "?upd w1")
    with run p Inl have r: "r = Inr ()" "w' = w2"
      by (simp_all add: run_job_def transcoder_onD(1) [OF on] eval_prog)
    from spec have ok1: "world_ok w1" by blast
    have queue: "jobQueue w2 = jobQueue w1"
      using repo_queue [THEN staysD] u by (auto simp: PostgresMedia_UpdateStatus_def unchanged_def)
    have upd: "world_ok w2 \<and> (media_row w2 = media_row w1 \<or> (\<exists>m. media_row w1 i = Some m \<and> live m \<and>
        media_row w2 = (media_row w1)(i \<mapsto> set_status MediaFailed m)))"
      using update_law_stays [OF pg_media.UpdateStatus_law,
          where R = "\<lambda>w1 w2. world_ok w2 \<and> (media_row w2 = media_row w1 \<or> (\<exists>m. media_row w1 i = Some m \<and>
            live m \<and> media_row w2 = (media_row w1)(i \<mapsto> set_status MediaFailed m)))", OF _ _ ok1 u]
      by blast
    from spec Inl have "media_row w1 = media_row w \<or> (\<exists>m d. media_row w i = Some m \<and> live m \<and>
        media_row w1 = (media_row w)(i \<mapsto> ready_row (mt_storage s) m d m))" by simp
    with upd show ?thesis
      unfolding r queue using spec by (elim conjE disjE exE) (auto 0 4)
  qed
qed

lemma worker_step_run:
  "jobQueue w = i # jobs \<Longrightarrow> worker_step s cx w = run_job s cx i (w\<lparr>jobQueue := jobs\<rparr>)"
  by (simp add: worker_step_def)

text \<open>
  C26. A turn of the worker takes the oldest job off the queue, never fails itself, and touches the
  row of no media but that job's, and no room, user or session. A media that is deleted or not there stays
  as it is; a live one is left as it was, ready with the URLs of its own stream and preview, or failed.
\<close>

theorem worker_step_settles_own:
  assumes "transcoder_on pf c s" and "world_ok w" and "jobQueue w = i # jobs"
    and "worker_step s (ext_context k) w = (r, w')"
  shows "r = Inr () \<and> world_ok w' \<and> jobQueue w' = jobs \<and>
    rooms_tbl (db w') = rooms_tbl (db w) \<and> users_tbl (db w') = users_tbl (db w) \<and>
    sessions_tbl (db w') = sessions_tbl (db w) \<and>
    (media_row w' = media_row w \<or> (\<exists>m m' d. media_row w i = Some m \<and> live m \<and>
      media_row w' = (media_row w)(i \<mapsto> m') \<and>
      (m' = ready_row (mt_storage s) m d m \<or> m' = set_status MediaFailed m \<or>
       m' = set_status MediaFailed (ready_row (mt_storage s) m d m))))"
proof -
  have "media_kept (leaves (\<lambda>d. (rooms_tbl d, users_tbl d, sessions_tbl d))) (NewPostgresMediaRepository (pf_pool pf))"
    by (intro in_kept media_leaves) simp
  from staysD [OF leave.in_worker_step [OF this assms(1)] assms(4)]
  have "rooms_tbl (db w') = rooms_tbl (db w)" "users_tbl (db w') = users_tbl (db w)"
    "sessions_tbl (db w') = sessions_tbl (db w)" by (simp_all add: unchanged_def)
  with run_job_spec [OF assms(1) _ assms(4) [unfolded worker_step_run [OF assms(3)]]] assms(2) show ?thesis
    by (simp add: world_ok_def)
qed

text \<open>A database that answers every call.\<close>

definition pool_answers :: "'e pgpool \<Rightarrow> bool" where
  "pool_answers pool \<longleftrightarrow> (\<forall>e. fst (pg_outcome pool e) = Answer)"

lemma answered_update:
  assumes "pool_answers pool" and ok: "world_ok w" and m: "media_row w i = Some m" "live m"
  shows "\<exists>w'. PostgresMedia_UpdateStatus pool i st w = (Inr (), w')"
proof -
  obtain e where "pg_outcome pool (env w) = (Answer, e)"
    using assms(1) unfolding pool_answers_def by (metis prod.collapse)
  moreover have "filter (\<lambda>m. media_ID m = i \<and> live m) (media_tbl (db w)) \<noteq> []"
    using m row_of_Some [of media_ID i "media_tbl (db w)" m] by (auto simp: media_view_def filter_empty_conv)
  ultimately show ?thesis
    by (simp add: PostgresMedia_UpdateStatus_def exec_affecting_def run_stmt_def media_update_def Let_def
        eval_prog)
qed

text \<open>
  C25. Every job comes to an end: if the database answers, a turn of the worker leaves the media of
  a job, when it is live, ready or failed, whatever goes wrong with downloads, processes, files,
  uploads and the deadline. A media is never left waiting in its processing state.
\<close>

theorem worker_step_settles:
  assumes "transcoder_on pf c s" and "pool_answers (pf_pool pf)" and "world_ok w"
    and "jobQueue w = i # jobs" and "media_row w i = Some m" and "live m"
  shows "\<exists>m'. media_row (snd (worker_step s (ext_context k) w)) i = Some m' \<and>
    media_Status m' \<in> {MediaReady, MediaFailed}"
proof -
  let ?w = "w\<lparr>jobQueue := jobs\<rparr>"
  have ok: "world_ok ?w" using assms(3) by (simp add: world_ok_def)
  obtain q w1 where p: "processMedia s (ext_context k) i ?w = (q, w1)"
    by (cases "processMedia s (ext_context k) i ?w")
  note spec = processMedia_spec [OF assms(1) ok p]
  show ?thesis
  proof (cases q)
    case (Inr u)
    with spec assms(5) p show ?thesis
      by (auto simp: worker_step_run [OF assms(4)] run_job_def eval_prog ready_row_def set_transcode_def)
  next
    case (Inl e)
    from spec Inl assms(5,6) obtain m1 where m1: "media_row w1 i = Some m1" "live m1" by force
    from spec have "world_ok w1" by blast
    from answered_update [OF assms(2) this m1, of MediaFailed] obtain w2
      where u: "PostgresMedia_UpdateStatus (pf_pool pf) i MediaFailed w1 = (Inr (), w2)" by blast
    then have "updated world_ok media_row i live (set_status MediaFailed) w1 w2"
      using update_law_Inr [OF pg_media.UpdateStatus_law \<open>world_ok w1\<close>, of "pf_pool pf" i MediaFailed] by simp
    with Inl p u show ?thesis
      by (auto simp: worker_step_run [OF assms(4)] run_job_def transcoder_onD(1) [OF assms(1)] eval_prog
          updated_def set_status_def)
  qed
qed

text \<open>
  C27. \<open>processMedia\<close> returns without an error only when the media is live and its row now says
  ready, with the URLs of the stream and of the preview below the media's own prefix and the
  duration found; otherwise the row is as before or, if only the last answer of the database was
  lost, that same ready row.
\<close>

theorem processMedia_ready:
  assumes "transcoder_on pf c s" and "world_ok w" and "processMedia s (ext_context k) i w = (r, w')"
  shows "(r = Inr () \<longrightarrow> (\<exists>m d. media_row w i = Some m \<and> live m \<and>
      media_row w' = (media_row w)(i \<mapsto> m\<lparr>media_Status := MediaReady,
        media_PlaybackURL := generateObjectURL (mt_storage s) (hls_key m),
        media_PreviewURL := Some (generateObjectURL (mt_storage s) (preview_key m)),
        media_DurationSec := Some d, media_MimeType := ''application/vnd.apple.mpegurl''\<rparr>))) \<and>
    (\<forall>e. r = Inl e \<longrightarrow> media_row w' = media_row w \<or> (\<exists>m d. media_row w i = Some m \<and> live m \<and>
      media_row w' = (media_row w)(i \<mapsto> ready_row (mt_storage s) m d m)))"
  using processMedia_spec [OF assms] by (auto simp: ready_row_def set_transcode_def)


subsection \<open>Queue, retries, output and workspaces\<close>

text \<open>
  The queue is bounded and first-in first-out: \<open>Enqueue\<close> succeeds exactly for a media
  identifier that is not blank while there is room, adds the trimmed identifier at the end, never
  makes the queue longer than its size, and otherwise changes nothing at all.
\<close>

lemma Enqueue_bounded:
  assumes "Enqueue s i w = (r, w')" and "int (length (jobQueue w)) \<le> mt_queueSize s"
  shows "int (length (jobQueue w')) \<le> mt_queueSize s \<and>
    (r = Inr () \<longleftrightarrow> TrimSpace i \<noteq> [] \<and> int (length (jobQueue w)) < mt_queueSize s) \<and>
    w' = (if r = Inr () then w\<lparr>jobQueue := jobQueue w @ [TrimSpace i]\<rparr> else w)"
  using assms by (auto simp: Enqueue_def Let_def split: if_splits)

text \<open>
  C29. What \<open>tailBuffer\<close> holds after any sequence of writes is the last \<open>maxBytes\<close> bytes of all
  that was written: the buffer, which forgets on every write, is equivalent to keeping everything
  and cutting at the end.
\<close>

theorem tailBuffer_keeps_end:
  assumes "0 < n"
  shows "tail_String (fold (\<lambda>p b. tail_Write b p) writes \<lparr>tb_maxBytes = n, tb_buf = []\<rparr>) =
    TrimSpace (drop (length (concat writes) - nat n) (concat writes))"
  using tail_fold [of "\<lparr>tb_maxBytes = n, tb_buf = []\<rparr>" "[]" writes] assms
  by (simp add: tail_String_def last_bytes_def)

text \<open>
  C28. \<open>withRetry\<close> calls the operation at most four times, and it reports success only as the
  outcome of a call of the operation that succeeded; \<open>calls\<close> counts the calls.
\<close>

theorem withRetry_attempts:
  fixes fn :: "('w, unit) prog"
  assumes "stays (unchanged calls) (readP (cx_Err cx))" and "\<And>d. stays (unchanged calls) (readP (cx_Wait cx d))"
    and "stays (unchanged calls) (readP (cx_Remaining cx))" and "\<And>w. calls (snd (fn w)) = Suc (calls w)"
    and "withRetry tx cx op fn w = (r, w')"
  shows "calls w' \<le> calls w + 4 \<and> (r = Inr () \<longrightarrow> (\<exists>v. fn v = (Inr (), w')))"
  using retry_loop_count [OF assms(1-4) assms(5) [unfolded withRetry_def]] by simp

text \<open>
  The working directories a job falls back on are clean, distinct paths, at most four, and
  they always include the current directory, so that there is one to try.
\<close>

theorem tempBaseDirs_fallback:
  "distinct (tempBaseDirs s d) \<and> length (tempBaseDirs s d) \<le> 4 \<and> ''.'' \<in> set (tempBaseDirs s d) \<and>
    ''/var/tmp'' \<in> set (tempBaseDirs s d) \<and> [] \<notin> set (tempBaseDirs s d)"
proof -
  let ?a = "add_dir (mt_workDir s) []"
  let ?b = "add_dir d ?a"
  let ?c = "add_dir ''/var/tmp'' ?b"
  have nil: "distinct ([] :: string list)" "\<forall>e \<in> set []. e \<noteq> ([] :: string)" by simp_all
  note a = add_dir_spec [OF nil, of "mt_workDir s"]
  note b = add_dir_spec [OF a(1,2), of d]
  note c = add_dir_spec [OF b(1,2), of "''/var/tmp''"]
  note e = add_dir_spec [OF c(1,2), of "''.''"]
  have tmp: "TrimSpace ''/var/tmp'' = ''/var/tmp''" "Clean ''/var/tmp'' = ''/var/tmp''"
    "TrimSpace ''.'' = ''.''" "Clean ''.'' = ''.''" by code_simp+
  have "length (add_dir ''.'' ?c) \<le> 4" using a(5) b(5) c(5) e(5) by (simp only: list.size)
  moreover have "''.'' \<in> set (add_dir ''.'' ?c)" using e(4) unfolding tmp by simp
  moreover have "''/var/tmp'' \<in> set (add_dir ''.'' ?c)" using c(4) e(3) unfolding tmp by blast
  ultimately show ?thesis unfolding tempBaseDirs_def using e(1,2) by blast
qed

subsection \<open>On the sample platform\<close>

definition sample_transcoder :: "sample_env world MediaTranscoderService" where
  "sample_transcoder =
    \<lparr>mt_mediaRepo = NewPostgresMediaRepository sample_pool, mt_storage = pg_storage sample_platform sample_bucket,
     mt_ffmpegPath = ''ffmpeg'', mt_ffprobePath = ''ffprobe'', mt_workDir = [], mt_segmentDuration = 6,
     mt_jobTimeout = 2 * Hour, mt_queueSize = 1, mt_exec = ext_processes sample_exec, mt_text = sample_text\<rparr>"

lemma sample_transcoder_on: "transcoder_on sample_platform sample_bucket sample_transcoder"
  by (simp add: transcoder_on_def sample_transcoder_def sample_platform_def)

text \<open>The film has been uploaded and waits in the queue.\<close>

definition sample_queued :: "sample_env world" where
  "sample_queued = sample_stored\<lparr>jobQueue := [''film'']\<rparr>"

lemma sample_queued_ok: "world_ok sample_queued"
  using sample_stored_ok by (simp add: sample_queued_def world_ok_def)

lemma sample_queued_jobs: "jobQueue sample_queued = [''film'']"
  by (simp add: sample_queued_def)

lemma sample_queued_film: "media_row sample_queued ''film'' = Some sample_film" "live sample_film"
  by (simp_all add: sample_queued_def sample_stored_def sample_world_def media_view_def row_of_def
      sample_film_def live_def)

theorem worker_step_settles_own_witness:
  "jobQueue (snd (worker_step sample_transcoder (ext_context sample_context) sample_queued)) = []"
proof -
  obtain r w' where "worker_step sample_transcoder (ext_context sample_context) sample_queued = (r, w')"
    by (cases "worker_step sample_transcoder (ext_context sample_context) sample_queued")
  with worker_step_settles_own [OF sample_transcoder_on sample_queued_ok sample_queued_jobs this]
  show ?thesis by simp
qed

theorem worker_step_settles_witness:
  "\<exists>m'. media_row (snd (worker_step sample_transcoder (ext_context sample_context) sample_queued)) ''film'' =
    Some m' \<and> media_Status m' \<in> {MediaReady, MediaFailed}"
  by (rule worker_step_settles [OF sample_transcoder_on _ sample_queued_ok sample_queued_jobs
        sample_queued_film])
    (simp add: pool_answers_def sample_platform_def sample_pool_def)

lemmas sample_job_run = sample_defs sample_queued_def sample_transcoder_def processMedia_def process_in.simps
  makeTempWorkspace_def processMediaInWorkspace_def produce_media_def withRetry_def retry_loop.simps
  DownloadObjectToFile_def probeDurationSec_def runFFmpegHLS_def run_with_tail_def createAndUploadPreview_def
  uploadHLSOutput_def UploadFilePublic_def uploadFile_def PostgresMedia_GetByID_def query_row_def run_stmt_def
  media_select_def PostgresMedia_UpdateTranscodeResult_def exec_affecting_def media_set_transcode_def
  media_update_def live_def fits_int4_def Let_def eval_prog ext_def ext_read_def

theorem processMedia_ready_witness:
  "\<exists>w' m. processMedia sample_transcoder (ext_context sample_context) ''film'' sample_queued = (Inr (), w') \<and>
    media_row w' ''film'' = Some m \<and> media_Status m = MediaReady"
proof -
  let ?run = "processMedia sample_transcoder (ext_context sample_context) ''film'' sample_queued"
  have "tempBaseDirs sample_transcoder ''/tmp'' = [''/tmp'', ''/var/tmp'', ''.'']" by code_simp
  then have "fst ?run = Inr ()" by (simp add: sample_job_run eval_nat_numeral)
  then obtain w' where run: "?run = (Inr (), w')" by (cases ?run) simp
  with processMedia_ready [OF sample_transcoder_on sample_queued_ok run] show ?thesis by auto
qed

lemma Enqueue_bounded_witness:
  "snd (Enqueue sample_transcoder ''  '' sample_world) = sample_world \<and>
    jobQueue (snd (Enqueue sample_transcoder '' film '' sample_world)) = [''film''] \<and>
    snd (Enqueue sample_transcoder ''film'' sample_queued) = sample_queued"
proof -
  have room: "int (length (jobQueue w)) \<le> mt_queueSize sample_transcoder" if "w \<in> {sample_world, sample_queued}" for w
    using that by (auto simp: sample_world_def sample_queued_def sample_transcoder_def)
  note E = Enqueue_bounded [OF prod.collapse [symmetric] room]
  have "TrimSpace ''  '' = []" "TrimSpace '' film '' = ''film''" by code_simp+
  with E [of sample_world "''  ''"] E [of sample_world "'' film ''"] E [of sample_queued "''film''"]
  show ?thesis by (auto simp: sample_transcoder_def sample_world_def sample_queued_jobs)
qed

theorem tailBuffer_keeps_end_witness:
  "tail_String (fold (\<lambda>p b. tail_Write b p) [''warning'', '' disk full''] \<lparr>tb_maxBytes = 9, tb_buf = []\<rparr>) =
    ''disk full''"
proof -
  have "TrimSpace ''disk full'' = ''disk full''" by code_simp
  with tailBuffer_keeps_end [of 9 "[''warning'', '' disk full'']"] show ?thesis by simp
qed

text \<open>An operation that always fails is tried four times.\<close>

theorem withRetry_attempts_witness:
  "snd (withRetry sample_text \<lparr>cx_Err = (\<lambda>n. (None, n)), cx_Wait = (\<lambda>d n. (False, n)),
      cx_Remaining = (\<lambda>n. (None, n))\<rparr> ''op'' (\<lambda>n. (Inl ErrNotFound, Suc n)) (0::nat)) \<le> 0 + 4"
proof -
  let ?cx = "\<lparr>cx_Err = (\<lambda>n. (None, n)), cx_Wait = (\<lambda>d n. (False, n)), cx_Remaining = (\<lambda>n. (None, n))\<rparr>
    :: nat cancel_context"
  let ?fn = "(\<lambda>n. (Inl ErrNotFound, Suc n)) :: (nat, unit) prog"
  obtain r n where run: "withRetry sample_text ?cx ''op'' ?fn 0 = (r, n)"
    by (cases "withRetry sample_text ?cx ''op'' ?fn 0")
  have "n \<le> 0 + 4 \<and> (r = Inr () \<longrightarrow> (\<exists>v. ?fn v = (Inr (), n)))"
    by (rule withRetry_attempts [where calls = "\<lambda>n. n", OF _ _ _ _ run])
      (simp_all add: stays_def unchanged_def readP_def)
  with run show ?thesis by simp
qed

end
