(* ===== verification/Media_Playback.thy ===== *)
theory Media_Playback
  imports Media_Upload
begin

text \<open>
  Playback: the lines of a signed manifest, the media an answer and a token stand for, and the
  entries the service leaves in the cache. Redis is a store with expiry, given by its law.
\<close>

subsection \<open>Manifests\<close>

text \<open>The lines a player reads as they are: blank lines, tags and comments, absolute URLs.\<close>

definition passes :: "string \<Rightarrow> bool" where
  "passes l \<longleftrightarrow> (let line = TrimSpace l in
    line = [] \<or> HasPrefix line ''#'' \<or> HasPrefix line ''http://'' \<or> HasPrefix line ''https://'')"

definition line_signed :: "'w StorageService \<Rightarrow> string \<Rightarrow> duration \<Rightarrow> string \<Rightarrow> string \<Rightarrow> bool" where
  "line_signed st b d l l' \<longleftrightarrow> (if passes l then l' = l
    else \<exists>v v'. PresignGetObject st (path_Join [b, TrimSpace l]) d v = (Inr l', v'))"

lemma sign_lines_Inr:
  "sign_lines st b d ls w = (Inr ls', w') \<Longrightarrow> list_all2 (line_signed st b d) ls ls'"
proof (induction ls arbitrary: ls' w)
  case Nil
  then show ?case by (simp add: prog_simps)
next
  case (Cons l ls)
  then obtain l' w1 rest where l: "sign_line st b d l w = (Inr l', w1)"
    and rest: "sign_lines st b d ls w1 = (Inr rest, w')" and ls': "ls' = l' # rest"
    by (auto simp: prog_simps)
  from l have "line_signed st b d l l'"
    by (auto simp: sign_line_def line_signed_def passes_def Let_def prog_simps split: if_splits)
  with Cons.IH [OF rest] ls' show ?case by simp
qed

lemma signManifest_Inr:
  assumes run: "signManifest st b man d w = (Inr out, w')"
    and url: "\<And>k v u v'. PresignGetObject st k d v = (Inr u, v') \<Longrightarrow> newline \<notin> set u"
  shows "list_all2 (line_signed st b d) (Split man newline) (Split out newline)"
proof -
  from run obtain ls where ls: "sign_lines st b d (Split man newline) w = (Inr ls, w')"
    and out: "out = Join ls newline" by (auto simp: signManifest_def prog_simps)
  note signed = sign_lines_Inr [OF ls]
  have "newline \<notin> set l'" if "l' \<in> set ls" for l'
  proof -
    from that signed obtain l where "l \<in> set (Split man newline)" "line_signed st b d l l'"
      by (metis in_set_conv_nth list_all2_conv_all_nth)
    then show ?thesis using url Split_parts_free by (auto simp: line_signed_def split: if_splits)
  qed
  moreover from signed have "ls \<noteq> []" by (metis Split_not_Nil list_all2_Nil2)
  ultimately have "Split out newline = ls" by (simp add: out Split_Join)
  with signed show ?thesis by simp
qed

text \<open>The key the player's manifest is read from; the transcoder writes it under the same name.\<close>

definition playback_key :: "Media \<Rightarrow> string" where
  "playback_key m = path_Join [''users'', media_OwnerUserID m, ''media'', media_ID m, ''hls'', ''index.m3u8'']"

lemma playback_key_hls:
  assumes "name_ok (media_OwnerUserID m)" "name_ok (media_ID m)"
  shows "playback_key m = hls_key m" "Dir (playback_key m) = media_prefix (media_OwnerUserID m) (media_ID m) @ ''hls''"
proof -
  let ?ds = "[''users'', media_OwnerUserID m, ''media'', media_ID m, ''hls'']"
  have names: "list_all clean_name ?ds" "clean_name ''index.m3u8''"
    using assms by (simp_all add: name_ok_simps clean_fixed) (simp_all add: clean_name_def)
  then have all: "list_all clean_name (?ds @ [''index.m3u8''])" by simp
  have key: "playback_key m = Join (?ds @ [''index.m3u8'']) (CHR ''/'')"
    using path_Join_names [OF all] by (simp add: playback_key_def)
  show "playback_key m = hls_key m"
    using path_Join_nested [OF names(1) _ names(2)] by (simp add: hls_key_def playback_key_def)
  show "Dir (playback_key m) = media_prefix (media_OwnerUserID m) (media_ID m) @ ''hls''"
    unfolding key using Dir_Join [OF names(1), of "''index.m3u8''"] by (simp add: media_prefix_names assms)
qed

lemma buildPlayback_Inr:
  assumes "buildPlayback s m w = (Inr out, w')"
  shows "media_Status m = MediaReady \<and> po_MediaID out = media_ID m \<and> po_Status out = ''ready'' \<and>
    po_ManifestURL out = None \<and> (\<exists>v man v1 v2. GetObjectBytes (mu_storage s) (playback_key m) v = (Inr man, v1) \<and>
      signManifest (mu_storage s) (Dir (playback_key m)) man (mu_playbackTTL s) v1 = (Inr (po_Manifest out), v2))"
  using assms by (fastforce simp: buildPlayback_def Let_def prog_simps playback_key_def split: if_splits)

subsection \<open>Tokens\<close>

context media_upload
begin

text \<open>A token opens the manifest of a media that is live and ready now, and of no other.\<close>

lemma ResolvePlaybackManifest_Inr:
  assumes inv: "invar w" and run: "ResolvePlaybackManifest s tok w = (Inr man, w')"
  shows "\<exists>c i w1 m v v1 v2 raw. mu_cache s = Some c \<and>
    redis_Get c (playbackManifestTokenKey (TrimSpace tok)) w = (Inr i, w1) \<and>
    media_at w i = Some m \<and> live m \<and> media_Status m = MediaReady \<and>
    GetObjectBytes (mu_storage s) (playback_key m) v = (Inr raw, v1) \<and>
    signManifest (mu_storage s) (Dir (playback_key m)) raw (mu_playbackTTL s) v1 = (Inr man, v2)"
proof -
  from run obtain c i w1 m w2 out where c: "mu_cache s = Some c"
    and g: "redis_Get c (playbackManifestTokenKey (TrimSpace tok)) w = (Inr i, w1)"
    and m: "mr_GetByID (mu_mediaRepo s) i w1 = (Inr m, w2)"
    and b: "buildPlayback s m w2 = (Inr out, w')" and man: "man = po_Manifest out"
    by (auto simp: ResolvePlaybackManifest_def Let_def prog_simps split: if_splits option.splits)
  from quietD [OF redis_quiet(1) [OF c] inv g] have "invar w1" "media_at w1 = media_at w" by auto
  with GetByID_Inr [OF _ m] have "media_at w i = Some m" "live m" by auto
  with buildPlayback_Inr [OF b] c g man show ?thesis by blast
qed

text \<open>
  When the cache has an entry that can be read, the answer is that entry's, for every user: the
  check of the owner comes later.
\<close>

lemma GetPlayback_cached:
  assumes "TrimSpace u \<noteq> []" "TrimSpace i \<noteq> []" and "cached_playback s i w = (Inr (Some out), w')"
  shows "GetPlayback s u i w = (Inr out, w')"
  using assms by (simp add: GetPlayback_def bindP_def retP_def)

end

subsection \<open>The cache\<close>

text \<open>
  A store with expiry. \<open>kv\<close> shows the values of an environment: a \<open>Get\<close> answers the value, a \<open>Set\<close>
  and a \<open>Del\<close> act on their key only, and at any time values may be gone.
\<close>

definition fades :: "('e \<Rightarrow> string \<Rightarrow> string option) \<Rightarrow> 'e \<Rightarrow> 'e \<Rightarrow> bool" where
  "fades kv e e' \<longleftrightarrow> (\<forall>k v. kv e' k = Some v \<longrightarrow> kv e k = Some v)"

definition redis_store :: "'e redis_client \<Rightarrow> ('e \<Rightarrow> string \<Rightarrow> string option) \<Rightarrow> bool" where
  "redis_store r kv \<longleftrightarrow>
    (\<forall>k e q e'. redis_Get r k e = (q, e') \<longrightarrow> fades kv e e' \<and> (\<forall>v. q = Inr v \<longrightarrow> kv e k = Some v)) \<and>
    (\<forall>k v d e q e'. redis_Set r k v d e = (q, e') \<longrightarrow>
      (\<forall>j u. kv e' j = Some u \<longrightarrow> kv e j = Some u \<or> j = k \<and> u = v)) \<and>
    (\<forall>k e q e'. redis_Del r k e = (q, e') \<longrightarrow> fades kv e e')"

text \<open>
  JSON keeps the fields of a record it has written when they are ASCII; on other bytes it may
  replace some.
\<close>

definition json_keeps :: "playback_json \<Rightarrow> bool" where
  "json_keeps js \<longleftrightarrow> (\<forall>r p r'. pj_Marshal js r = Inr p \<longrightarrow> pj_Unmarshal js p = Inr r' \<longrightarrow>
    (is_ascii (pcr_MediaID r) \<longrightarrow> pcr_MediaID r' = pcr_MediaID r) \<and>
    (is_ascii (pcr_Status r) \<longrightarrow> pcr_Status r' = pcr_Status r))"

text \<open>What the service has put under the key of a media is a playback of that media, made when it was ready.\<close>

definition cache_ok :: "'e MediaUploadService \<Rightarrow> ('e \<Rightarrow> string \<Rightarrow> string option) \<Rightarrow> 'e world \<Rightarrow> bool" where
  "cache_ok s kv w \<longleftrightarrow> (\<forall>i v rec t. is_ascii i \<longrightarrow> kv (env w) (playbackCacheKey i) = Some v \<longrightarrow>
    decode_playback s v = Some (rec, t) \<longrightarrow> pcr_MediaID rec = i \<and> pcr_Status rec = ''ready'')"

text \<open>Calls that put nothing under the key of a playback.\<close>

definition leaves_cache :: "('e \<Rightarrow> string \<Rightarrow> string option) \<Rightarrow> 'e world \<Rightarrow> 'e world \<Rightarrow> bool" where
  "leaves_cache kv w w' \<longleftrightarrow> (\<forall>i v. kv (env w') (playbackCacheKey i) = Some v \<longrightarrow>
    kv (env w) (playbackCacheKey i) = Some v)"

interpretation leaves: world_order "leaves_cache kv" for kv :: "'e \<Rightarrow> string \<Rightarrow> string option"
  by unfold_locales (auto simp: leaves_cache_def)

lemma cache_ok_leaves: "cache_ok s kv w \<Longrightarrow> leaves_cache kv w w' \<Longrightarrow> cache_ok s kv w'"
  by (fastforce simp: cache_ok_def leaves_cache_def)

lemma playback_keys_apart [simp]:
  "playbackCacheKey i \<noteq> playbackManifestTokenKey j" "playbackCacheKey i = playbackCacheKey j \<longleftrightarrow> i = j"
  by (simp_all add: playbackCacheKey_def playbackManifestTokenKey_def)

text \<open>The other services the playback calls know nothing of the cache.\<close>

definition cache_apart :: "('e, 'q) platform \<Rightarrow> ('e \<Rightarrow> string \<Rightarrow> string option) \<Rightarrow> bool" where
  "cache_apart pf kv \<longleftrightarrow> (\<forall>e. fades kv e (snd (pg_outcome (pf_pool pf) e)) \<and> fades kv e (snd (pf_clock pf e)) \<and>
    (\<forall>n. fades kv e (snd (rand_Read (pf_crypto pf) n e))) \<and>
    (\<forall>b k. fades kv e (snd (s3_GetObject (pf_s3 pf) b k e))) \<and>
    (\<forall>h. fades kv e (snd (s3_ReadAll (pf_s3 pf) h e)) \<and> fades kv e (snd (s3_CloseBody (pf_s3 pf) h e))) \<and>
    (\<forall>b k d. fades kv e (snd (s3_PresignGetObject (pf_s3 pf) b k d e))))"

lemma leaves_env: "fades kv (env w) (env w') \<Longrightarrow> leaves_cache kv w w'"
  by (simp add: fades_def leaves_cache_def)

lemma leaves_ext:
  assumes "\<And>e. fades kv e (snd (c e))"
  shows "stays (leaves_cache kv) (ext c)"
  using assms by (auto simp: stays_def ext_def split: prod.splits intro!: leaves_env) (metis snd_conv)

lemma leaves_ext_read:
  assumes "\<And>e. fades kv e (snd (c e))"
  shows "stays (leaves_cache kv) (readP (ext_read c))"
  using assms by (auto simp: stays_def ext_read_def readP_def split: prod.splits intro!: leaves_env) (metis snd_conv)

lemma leaves_run_stmt:
  assumes "\<And>e. fades kv e (snd (pg_outcome pool e))"
  shows "stays (leaves_cache kv) (run_stmt pool st)"
  unfolding stays_def
proof
  fix w
  have "env (snd (run_stmt pool st w)) = snd (pg_outcome pool (env w))"
    by (auto simp: run_stmt_def split: prod.splits pg_outcome.splits sum.splits)
  with assms [of "env w"] show "leaves_cache kv w (snd (run_stmt pool st w))"
    by (simp add: leaves_cache_def fades_def)
qed

lemma leaves_playback:
  fixes pf :: "('e, 'q) platform" and c js t u
  assumes apart: "cache_apart pf kv" and redis: "redis_store (pf_redis pf) kv"
  defines "s \<equiv> pg_upload_service pf c js t True u"
  shows "stays (leaves_cache kv) (mr_GetByID (mu_mediaRepo s) i)"
    "stays (leaves_cache kv) (buildPlayback s m)" "stays (leaves_cache kv) (buildManifestProxyURL s i)"
    "stays (leaves_cache kv) (cached_playback s i)"
proof -
  note [simp] = s_def
  have calls: "fades kv e (snd (pf_clock pf e))" "fades kv e (snd (rand_Read (pf_crypto pf) n e))"
    "fades kv e (snd (s3_GetObject (pf_s3 pf) b k e))" "fades kv e (snd (s3_ReadAll (pf_s3 pf) h e))"
    "fades kv e (snd (s3_CloseBody (pf_s3 pf) h e))" "fades kv e (snd (s3_PresignGetObject (pf_s3 pf) b k d e))"
    "fades kv e (snd (pg_outcome (pf_pool pf) e))" for e n b k h d
    using apart by (simp_all add: cache_apart_def)
  have get: "fades kv e (snd (redis_Get (pf_redis pf) k e))" for k e
    using redis by (cases "redis_Get (pf_redis pf) k e") (simp add: redis_store_def)
  note ext = leaves_ext leaves_ext_read calls get
  show "stays (leaves_cache kv) (mr_GetByID (mu_mediaRepo s) i)"
    by (simp add: PostgresMedia_GetByID_def stays_query_row leaves_run_stmt calls)
  have presign: "stays (leaves_cache kv) (PresignGetObject (pg_storage pf c) k d)" for k d
    unfolding PresignGetObject_def pg_storage_simps ext_s3_simps by (intro frame_intros ext)
  have lines: "stays (leaves_cache kv) (sign_lines (pg_storage pf c) b d ls)" for b d ls
  proof (induction ls)
    case Nil
    show ?case unfolding sign_lines.simps by (intro frame_intros)
  next
    case (Cons l ls)
    show ?case unfolding sign_lines.simps sign_line_def Let_def by (intro frame_intros presign Cons.IH)
  qed
  have bytes: "stays (leaves_cache kv) (GetObjectBytes (pg_storage pf c) k)" for k
    unfolding GetObjectBytes_def pg_storage_simps ext_s3_simps by (intro frame_intros ext)
  show "stays (leaves_cache kv) (buildPlayback s m)"
    unfolding buildPlayback_def signManifest_def Let_def s_def pg_upload_service_simps
    by (intro frame_intros bytes lines presign ext)
  have token: "stays (leaves_cache kv) (redis_Set (ext_redis (pf_redis pf)) (playbackManifestTokenKey k) v d)" for k v d
    unfolding ext_redis_simps stays_def
  proof
    fix w :: "'e world"
    obtain q e where "redis_Set (pf_redis pf) (playbackManifestTokenKey k) v d (env w) = (q, e)"
      by (cases "redis_Set (pf_redis pf) (playbackManifestTokenKey k) v d (env w)")
    moreover from this redis have "\<And>j u. kv e j = Some u \<Longrightarrow> kv (env w) j = Some u \<or>
        j = playbackManifestTokenKey k \<and> u = v" unfolding redis_store_def by blast
    ultimately show "leaves_cache kv w (snd (ext (redis_Set (pf_redis pf) (playbackManifestTokenKey k) v d) w))"
      by (force simp: leaves_cache_def ext_def)
  qed
  show url: "stays (leaves_cache kv) (buildManifestProxyURL s i)" for i
    unfolding buildManifestProxyURL_def Let_def s_def pg_upload_service_simps if_True option.case ext_crypto_simps
    by (intro frame_intros ext token)
  show "stays (leaves_cache kv) (cached_playback s i)"
    unfolding cached_playback_def s_def pg_upload_service_simps if_True option.case ext_redis_simps
    by (intro frame_intros ext url [unfolded s_def])
qed

text \<open>Storing a playback of the media keeps the cache as it should be.\<close>

lemma store_playback_ok:
  fixes pf :: "('e, 'q) platform" and c js t u
  assumes redis: "redis_store (pf_redis pf) kv" and js: "json_keeps js"
  defines "s \<equiv> pg_upload_service pf c js t True u"
  assumes ok: "cache_ok s kv w" and i: "is_ascii i" and out: "po_MediaID out = i" "po_Status out = ''ready''"
    and run: "store_playback s i out w = (r, w')"
  shows "cache_ok s kv w'"
proof (cases "pj_Marshal js (cache_record (pf_text pf) out)")
  case (Inl e)
  with run ok show ?thesis by (simp add: store_playback_def s_def retP_def)
next
  case (Inr p)
  let ?set = "redis_Set (pf_redis pf) (playbackCacheKey i) p (mu_playbackTTL s)"
  obtain q e where e: "?set (env w) = (q, e)" by (cases "?set (env w)")
  with run Inr have w': "env w' = e" by (auto simp: store_playback_def s_def eval_prog ext_def)
  from redis e have kv: "kv e j = Some v \<Longrightarrow> kv (env w) j = Some v \<or> j = playbackCacheKey i \<and> v = p" for j v
    unfolding redis_store_def by blast
  show ?thesis
    unfolding cache_ok_def w'
  proof (intro allI impI)
    fix j v rec t'
    assume j: "is_ascii j" "kv e (playbackCacheKey j) = Some v" and dec: "decode_playback s v = Some (rec, t')"
    from kv [OF j(2)] show "pcr_MediaID rec = j \<and> pcr_Status rec = ''ready''"
    proof
      assume "kv (env w) (playbackCacheKey j) = Some v"
      with ok j(1) dec show ?thesis unfolding cache_ok_def by blast
    next
      assume new: "playbackCacheKey j = playbackCacheKey i \<and> v = p"
      with dec have "pj_Unmarshal js p = Inr rec"
        by (auto simp: decode_playback_def s_def split: if_splits sum.splits option.splits)
      with js Inr i out new show ?thesis
        unfolding json_keeps_def by (fastforce simp: cache_record_def is_ascii_def)
    qed
  qed
qed

text \<open>The half of \<open>GetPlayback\<close> and \<open>GetPlaybackByMediaID\<close> after a miss; \<open>refuse\<close> is the check of the owner.\<close>

lemma playback_miss:
  fixes pf :: "('e, 'q) platform" and c js t u
  assumes apart: "cache_apart pf kv" and redis: "redis_store (pf_redis pf) kv" and js: "json_keeps js"
  defines "s \<equiv> pg_upload_service pf c js t True u"
  assumes ok: "cache_ok s kv w" and inv: "world_ok w" and i: "is_ascii i"
    and run: "bindP (mr_GetByID (mu_mediaRepo s) i) (\<lambda>media. if refuse media then failP ErrForbiddenMedia
      else bindP (buildPlayback s media) (\<lambda>out. bindP (store_playback s i out) (\<lambda>_.
        bindP (buildManifestProxyURL s (po_MediaID out)) (\<lambda>url. retP (out\<lparr>po_ManifestURL := url\<rparr>))))) w = (r, w')"
  shows "cache_ok s kv w' \<and> (\<forall>out. r = Inr out \<longrightarrow> po_MediaID out = i \<and> po_Status out = ''ready'')"
proof -
  note leaves = leaves_playback [OF apart redis, of c js t u, folded s_def]
  obtain g w1 where g: "mr_GetByID (mu_mediaRepo s) i w = (g, w1)" by (cases "mr_GetByID (mu_mediaRepo s) i w")
  from cache_ok_leaves [OF ok staysD [OF leaves(1) g]] have 1: "cache_ok s kv w1" .
  show ?thesis
  proof (cases "\<exists>m. g = Inr m \<and> \<not> refuse m")
    case False
    with run g 1 show ?thesis by (cases g) (auto simp: bindP_def failP_def split: if_splits)
  next
    case True
    then obtain m where m: "g = Inr m" "\<not> refuse m" by blast
    have "media_ID m = i" using pg_media.GetByID_Inr [OF inv, of "pf_pool pf" i m w1]
        pg_media.media_at_ID [OF inv, of i m] g m(1) by (simp add: s_def)
    obtain b w2 where b: "buildPlayback s m w1 = (b, w2)" by (cases "buildPlayback s m w1")
    from cache_ok_leaves [OF 1 staysD [OF leaves(2) b]] have 2: "cache_ok s kv w2" .
    show ?thesis
    proof (cases b)
      case (Inl e)
      with run g m b 2 show ?thesis by (auto simp: bindP_def)
    next
      case (Inr out)
      from buildPlayback_Inr [OF b [unfolded Inr]] \<open>media_ID m = i\<close>
      have out: "po_MediaID out = i" "po_Status out = ''ready''" by auto
      obtain q w3 where q: "store_playback s i out w2 = (q, w3)" by (cases "store_playback s i out w2")
      from store_playback_ok [OF redis js 2 [unfolded s_def] i out q [unfolded s_def]]
      have 3: "cache_ok s kv w3" by (simp add: s_def)
      obtain v w4 where v: "buildManifestProxyURL s i w3 = (v, w4)" by (cases "buildManifestProxyURL s i w3")
      from cache_ok_leaves [OF 3 staysD [OF leaves(3) v]] have "cache_ok s kv w4" .
      with run g m b Inr q v out 3 show ?thesis
        by (auto simp: bindP_def retP_def split: sum.splits)
    qed
  qed
qed

lemma cached_playback_ok:
  fixes pf :: "('e, 'q) platform" and c js t u
  assumes apart: "cache_apart pf kv" and redis: "redis_store (pf_redis pf) kv"
  defines "s \<equiv> pg_upload_service pf c js t True u"
  assumes ok: "cache_ok s kv w" and i: "is_ascii i" and run: "cached_playback s i w = (r, w')"
  shows "cache_ok s kv w' \<and> (\<forall>out. r = Inr (Some out) \<longrightarrow> po_MediaID out = i \<and> po_Status out = ''ready'')"
proof -
  have "cache_ok s kv w'"
    using cache_ok_leaves [OF ok staysD [OF leaves_playback(4) [OF apart redis] run [unfolded s_def]]] .
  moreover have "po_MediaID out = i \<and> po_Status out = ''ready''" if "r = Inr (Some out)" for out
  proof -
    have "mu_cache s = Some (ext_redis (pf_redis pf))" by (simp add: s_def)
    obtain q e where q: "redis_Get (pf_redis pf) (playbackCacheKey i) (env w) = (q, e)"
      by (cases "redis_Get (pf_redis pf) (playbackCacheKey i) (env w)")
    have run': "(case (case q of Inl _ \<Rightarrow> None | Inr cached \<Rightarrow> decode_playback s cached) of
        None \<Rightarrow> retP None
      | Some (rec, expiresAt) \<Rightarrow> bindP (buildManifestProxyURL s (pcr_MediaID rec)) (\<lambda>manifestURL.
          retP (Some \<lparr>po_MediaID = pcr_MediaID rec, po_Status = pcr_Status rec,
            po_Manifest = pcr_Manifest rec, po_ManifestURL = manifestURL,
            po_PreviewURL = pcr_PreviewURL rec, po_ExpiresAt = expiresAt\<rparr>))) (w\<lparr>env := e\<rparr>) = (Inr (Some out), w')"
      using run q that \<open>mu_cache s = Some (ext_redis (pf_redis pf))\<close>
      by (simp add: cached_playback_def bindP_def attemptP_def ext_def)
    obtain cached where "q = Inr cached" using run' by (cases q) (simp_all add: retP_def)
    moreover obtain rec t' where dec: "decode_playback s cached = Some (rec, t')"
      using run' calculation by (cases "decode_playback s cached") (auto simp: retP_def)
    moreover from run' calculation have out: "po_MediaID out = pcr_MediaID rec" "po_Status out = pcr_Status rec"
      by (auto simp: prog_simps)
    ultimately have g: "redis_Get (pf_redis pf) (playbackCacheKey i) (env w) = (Inr cached, e)" using q by simp
    from redis g have "kv (env w) (playbackCacheKey i) = Some cached" unfolding redis_store_def by blast
    with ok i dec out show ?thesis unfolding cache_ok_def by metis
  qed
  ultimately show ?thesis by blast
qed

lemma playback_own:
  fixes pf :: "('e, 'q) platform" and c js t u
  assumes apart: "cache_apart pf kv" and redis: "redis_store (pf_redis pf) kv" and js: "json_keeps js"
  defines "s \<equiv> pg_upload_service pf c js t True u"
  assumes ok: "cache_ok s kv w" and inv: "world_ok w" and i: "is_ascii i"
    and run: "GetPlayback s owner i w = (r, w') \<or> GetPlaybackByMediaID s i w = (r, w')"
  shows "cache_ok s kv w' \<and> (\<forall>out. r = Inr out \<longrightarrow> po_MediaID out = i \<and> po_Status out = ''ready'')"
proof -
  obtain h w1 where h: "cached_playback s i w = (h, w1)" by (cases "cached_playback s i w")
  from cached_playback_ok [OF apart redis ok [unfolded s_def] i h [unfolded s_def]]
  have 1: "cache_ok s kv w1" "\<And>out. h = Inr (Some out) \<Longrightarrow> po_MediaID out = i \<and> po_Status out = ''ready''"
    by (auto simp: s_def)
  from quietD [OF pg_upload.quiet_cached(1) inv h [unfolded s_def]] have inv1: "world_ok w1" by blast
  show ?thesis
  proof (cases "h = Inr None")
    case hit: False
    from hit run h 1 ok show ?thesis
      by (cases h) (auto simp: GetPlayback_def GetPlaybackByMediaID_def bindP_def failP_def retP_def
          split: if_splits option.splits)
  next
    case True
    note step = bindP_step [of "cached_playback s i" w None w1, OF h [unfolded True]]
    note miss = playback_miss [OF apart redis js 1(1) [unfolded s_def] inv1 i, folded s_def]
    from run show ?thesis
    proof
      assume "GetPlayback s owner i w = (r, w')"
      with h True ok show ?thesis
        using miss [of "\<lambda>m. media_OwnerUserID m \<noteq> owner" r w']
        by (auto simp: GetPlayback_def step failP_def split: if_splits)
    next
      assume "GetPlaybackByMediaID s i w = (r, w')"
      with h True ok show ?thesis
        using miss [of "\<lambda>m. False" r w']
        by (auto simp: GetPlaybackByMediaID_def step failP_def split: if_splits)
    qed
  qed
qed

end
