(* ===== verification/Sample_Media.thy ===== *)
theory Sample_Media
  imports Media_Playback Sample_Platform
begin

text \<open>
  The media service on the sample platform: a codec in place of JSON, and worlds in which a film
  is ready to play and an upload has arrived.
\<close>

subsection \<open>A codec\<close>

text \<open>A field is written with a dot before each byte and a bar at its end.\<close>

fun write_field :: "string \<Rightarrow> string" where
  "write_field [] = ''|''"
| "write_field (c # s) = CHR ''.'' # c # write_field s"

fun read_field :: "string \<Rightarrow> (string \<times> string) option" where
  "read_field [] = None"
| "read_field [x] = (if x = CHR ''|'' then Some ([], []) else None)"
| "read_field (x # c # s) =
    (if x = CHR ''|'' then Some ([], c # s)
     else (case read_field s of None \<Rightarrow> None | Some (f, rest) \<Rightarrow> Some (c # f, rest)))"

lemma read_write_field: "read_field (write_field f @ rest) = Some (f, rest)"
proof (induction f)
  case Nil
  show ?case by (cases rest) auto
qed auto

fun read_fields :: "nat \<Rightarrow> string \<Rightarrow> string list option" where
  "read_fields 0 s = Some []"
| "read_fields (Suc n) s =
    (case read_field s of
       None \<Rightarrow> None
     | Some (f, rest) \<Rightarrow> (case read_fields n rest of None \<Rightarrow> None | Some fs \<Rightarrow> Some (f # fs)))"

definition sample_Marshal :: "playbackCacheRecord \<Rightarrow> err + string" where
  "sample_Marshal r = Inr (concat (map write_field
    [pcr_MediaID r, pcr_Status r, pcr_Manifest r,
     case pcr_PreviewURL r of None \<Rightarrow> [] | Some u \<Rightarrow> CHR ''u'' # u, pcr_ExpiresAt r]))"

definition sample_Unmarshal :: "string \<Rightarrow> err + playbackCacheRecord" where
  "sample_Unmarshal s =
    (case read_fields 5 s of
       Some [i, st, man, pre, ex] \<Rightarrow>
         Inr \<lparr>pcr_MediaID = i, pcr_Status = st, pcr_Manifest = man,
           pcr_PreviewURL = (case pre of [] \<Rightarrow> None | _ # u \<Rightarrow> Some u), pcr_ExpiresAt = ex\<rparr>
     | _ \<Rightarrow> Inl (New ''unexpected end of JSON input''))"

definition sample_json :: playback_json where
  "sample_json = \<lparr>pj_Marshal = sample_Marshal, pj_Unmarshal = sample_Unmarshal\<rparr>"

lemma sample_json_roundtrip:
  assumes "pj_Marshal sample_json r = Inr p"
  shows "pj_Unmarshal sample_json p = Inr r"
proof -
  let ?pre = "case pcr_PreviewURL r of None \<Rightarrow> [] | Some u \<Rightarrow> CHR ''u'' # u"
  have "read_fields 5 (write_field a @ write_field b @ write_field d @ write_field e @ write_field f) =
      Some [a, b, d, e, f]" for a b d e f
    using read_write_field [of f "[]"] by (simp add: eval_nat_numeral read_write_field)
  moreover have "p = write_field (pcr_MediaID r) @ write_field (pcr_Status r) @ write_field (pcr_Manifest r) @
      write_field ?pre @ write_field (pcr_ExpiresAt r)"
    using assms by (simp add: sample_json_def sample_Marshal_def)
  ultimately have "read_fields 5 p = Some [pcr_MediaID r, pcr_Status r, pcr_Manifest r, ?pre, pcr_ExpiresAt r]"
    by metis
  then show ?thesis
    by (simp add: sample_json_def sample_Unmarshal_def split: option.split)
qed

lemma sample_json_keeps: "json_keeps sample_json"
  unfolding json_keeps_def by (auto dest!: sample_json_roundtrip)

subsection \<open>The service\<close>

definition sample_limits :: upload_config where
  "sample_limits = \<lparr>uc_maxSizeBytes = 1000, uc_allowedMimeTypes = [], uc_presignURLTTL = 0,
    uc_playbackSignedTTL = 0\<rparr>"

definition sample_upload :: "sample_env MediaUploadService" where
  "sample_upload = pg_upload_service sample_platform sample_bucket sample_json None True sample_limits"

definition sample_kv :: "sample_env \<Rightarrow> string \<Rightarrow> string option" where
  "sample_kv e = map_of (se_redis e)"

lemma sample_redis_store: "redis_store sample_redis sample_kv"
proof -
  have "map_of (filter (\<lambda>p. fst p \<noteq> k) kvs) = (map_of kvs)(k := None)"
    for k and kvs :: "(string \<times> string) list"
    by (induction kvs) auto
  then have del: "map_of (filter (\<lambda>p. fst p \<noteq> k) kvs) j = Some v \<Longrightarrow> map_of kvs j = Some v"
    for k j v and kvs :: "(string \<times> string) list"
    by (simp split: if_splits)
  show ?thesis
    unfolding redis_store_def
  proof (intro conjI allI impI)
    show "fades sample_kv e e'" if "redis_Get sample_redis k e = (q, e')" for k e q e'
      using that by (auto simp: sample_redis_def fades_def)
    show "sample_kv e k = Some v" if "redis_Get sample_redis k e = (q, e')" "q = Inr v" for k e q e' v
      using that by (auto simp: sample_redis_def sample_kv_def split: option.splits)
    show "sample_kv e j = Some u \<or> j = k \<and> u = v"
      if "redis_Set sample_redis k v d e = (q, e')" "sample_kv e' j = Some u" for k v d e q e' j u
      using that by (auto simp: sample_redis_def sample_kv_def split: if_splits)
    show "fades sample_kv e e'" if "redis_Del sample_redis k e = (q, e')" for k e q e'
    proof -
      have "se_redis e' = filter (\<lambda>p. fst p \<noteq> k) (se_redis e)"
        using that by (auto simp: sample_redis_def)
      then show ?thesis unfolding fades_def sample_kv_def using del by metis
    qed
  qed
qed

lemma fades_sample: "se_redis e' = se_redis e \<Longrightarrow> fades sample_kv e e'"
  by (simp add: fades_def sample_kv_def)

lemma sample_cache_apart: "cache_apart sample_platform sample_kv"
  unfolding cache_apart_def
  by (intro allI conjI fades_sample)
    (simp_all add: sample_platform_def sample_pool_def sample_crypto_def sample_rand_def sample_s3_def)

text \<open>A run on concrete inputs that ends without an error.\<close>

lemma not_isl: "\<not> isl (fst (m w)) \<Longrightarrow> \<exists>x w'. m w = (Inr x, w')"
  by (cases "m w"; cases "fst (m w)") auto

text \<open>The film's stream is in the store; the cache is empty.\<close>

definition sample_manifest :: string where
  "sample_manifest = ''#EXTM3U'' @ [newline] @ ''segment_00000.ts''"

definition sample_playing :: "sample_env world" where
  "sample_playing = sample_world\<lparr>env := sample_start\<lparr>se_objects :=
    [(''users/alice/media/film/hls/index.m3u8'', sample_manifest)]\<rparr>\<rparr>"

lemma sample_playing_ok: "world_ok sample_playing"
  using sample_world_ok by (simp add: world_ok_def sample_playing_def)

lemma sample_playing_cache: "cache_ok sample_upload sample_kv sample_playing"
  by (simp add: cache_ok_def sample_kv_def sample_playing_def sample_start_def)

lemma sample_film_at: "media_row sample_playing ''film'' = Some sample_film"
  by (simp add: sample_playing_def sample_world_def media_view_def row_of_def sample_film_def)

end
