(* ===== verification/Media_Properties.thy ===== *)
theory Media_Properties
  imports Sample_Media
begin

text \<open>
  What the media service promises: uploads, the names and keys it makes, completion, playback and
  deletion; each property with a run on the sample platform.
\<close>

subsection \<open>Names\<close>

lemma sanitizeFilename_name:
  "sanitizeFilename f \<noteq> [] \<and> CHR ''/'' \<notin> set (sanitizeFilename f) \<and> CHR '' '' \<notin> set (sanitizeFilename f) \<and>
    sanitizeFilename f \<noteq> ''.''"
proof (cases "Base (TrimSpace f) \<in> {[], ''.'', ''/''}")
  case True
  then show ?thesis by (auto simp: sanitizeFilename_def Let_def)
next
  case False
  define b where "b = Base (TrimSpace f)"
  with False have s: "sanitizeFilename f = map (\<lambda>x. if x = CHR '' '' then CHR ''_'' else x) b"
    by (simp add: sanitizeFilename_def Let_def ReplaceAll_def)
  have slash: "CHR ''/'' \<notin> set b" unfolding b_def by (rule Base_no_slash) (use False in blast)
  have "b \<noteq> []" "b \<noteq> ''.''" using False by (simp_all add: b_def)
  then have "map (\<lambda>x. if x = CHR '' '' then CHR ''_'' else x) b \<noteq> ''.''" by (cases b) auto
  moreover have "CHR ''/'' \<notin> set (sanitizeFilename f)" "CHR '' '' \<notin> set (sanitizeFilename f)"
    using slash unfolding s by auto
  ultimately show ?thesis using \<open>b \<noteq> []\<close> by (simp add: s)
qed

text \<open>
  C38. A stored file name has no slash and no blank and is never empty, a title is never blank, and
  the normalised form of a content type carries no parameters.
\<close>

theorem upload_names_safe:
  "sanitizeFilename f \<noteq> [] \<and> CHR ''/'' \<notin> set (sanitizeFilename f) \<and> CHR '' '' \<notin> set (sanitizeFilename f) \<and>
    TrimSpace (buildTitleFromFilename f) \<noteq> [] \<and> CHR '';'' \<notin> set (normalizeMime tx mime)"
proof -
  have "TrimSpace ''media'' = ''media''" by code_simp
  then have "TrimSpace (buildTitleFromFilename f) \<noteq> []"
    by (auto simp: buildTitleFromFilename_def Let_def)
  moreover have "CHR '';'' \<notin> set (normalizeMime tx mime)"
    using set_TrimSpace [of "takeWhile (\<lambda>c. c \<noteq> CHR '';'') (ToLower (gt_Lower tx) (TrimSpace mime))"]
    by (auto simp: normalizeMime_def Let_def dest: set_takeWhileD)
  ultimately show ?thesis using sanitizeFilename_name [of f] by simp
qed

lemma newMediaID_name_ok: "name_ok (''media_'' @ EncodeToString b)"
proof -
  have "c \<in> set (''media_'' @ EncodeToString b) \<Longrightarrow> graphic c \<and> c \<noteq> CHR ''/'' \<and> c \<noteq> CHR ''.''" for c
    using EncodeToString_chars [of c b] by (auto simp: graphic_def)
  then have "list_all graphic (''media_'' @ EncodeToString b)" "CHR ''/'' \<notin> set (''media_'' @ EncodeToString b)"
    by (auto simp: list_all_iff)
  then show ?thesis by (auto simp: name_ok_def clean_name_def solid_def list_all_iff)
qed

lemma upload_key:
  assumes "name_ok owner" "name_ok i"
  shows "HasPrefix (path_Join [''users'', owner, ''media'', i, ''original'', sanitizeFilename f]) (media_prefix owner i)
    \<longleftrightarrow> sanitizeFilename f \<noteq> ''..''"
proof -
  let ?ds = "[''users'', owner, ''media'', i]"
  have names: "list_all clean_name (?ds @ [''original''])"
    using assms by (simp add: name_ok_simps clean_fixed) (simp add: clean_name_def)
  show ?thesis
  proof (cases "sanitizeFilename f = ''..''")
    case True
    have "list_all clean_name ?ds" using names by simp
    have "\<forall>e \<in> set (?ds @ [''original'', ''..'']). CHR ''/'' \<notin> set e"
      using names by (auto simp: clean_name_def list_all_iff)
    then have split: "Split (Join (?ds @ [''original'', ''..'']) (CHR ''/'')) (CHR ''/'') = ?ds @ [''original'', ''..'']"
      by (intro Split_Join) simp_all
    have "clean_elems False [] ((?ds @ [''original'']) @ [''..'']) = ?ds"
      using clean_elems_append [OF names, of False "[]" "[''..'']"] by simp
    then have "path_Join (?ds @ [''original'', sanitizeFilename f]) = Join ?ds (CHR ''/'')"
      using split assms by (simp add: True path_Join_def Clean_def name_ok_simps)
    moreover have "\<not> HasPrefix (Join ?ds (CHR ''/'')) (media_prefix owner i)"
      using assms by (auto simp: media_prefix_names HasPrefix_def dest: prefix_length_le)
    ultimately show ?thesis using True by simp
  next
    case False
    with sanitizeFilename_name [of f] have "clean_name (sanitizeFilename f)" by (simp add: clean_name_def)
    with names have "path_Join (?ds @ [''original'', sanitizeFilename f]) =
        Join (?ds @ [''original'', sanitizeFilename f]) (CHR ''/'')" by (intro path_Join_names) simp_all
    also have "\<dots> = media_prefix owner i @ ''original/'' @ sanitizeFilename f"
      using assms by (simp add: media_prefix_names)
    finally show ?thesis using False by (simp add: HasPrefix_def)
  qed
qed

subsection \<open>Uploads\<close>

text \<open>
  C30. Starting an upload succeeds only for a size within the limits and a content type that is
  allowed, and adds exactly one row: a new media of the caller, in state uploading, under a fresh
  identifier and under the key for which the upload URL was signed. No other row changes.
\<close>

theorem InitUpload_registers:
  assumes "world_ok w" and "InitUpload (pg_upload_service pf c js t b u) inp w = (Inr out, w')"
  shows "world_ok w' \<and> 0 < iu_SizeBytes inp \<and>
    iu_SizeBytes inp \<le> mu_maxSizeBytes (pg_upload_service pf c js t b u) \<and>
    isAllowedMime (pg_upload_service pf c js t b u) (iu_ContentType inp) \<and>
    media_row w (iuo_MediaID out) = None \<and> (\<exists>m. media_row w' = (media_row w)(iuo_MediaID out \<mapsto> m) \<and>
      media_ID m = iuo_MediaID out \<and> media_OwnerUserID m = iu_OwnerUserID inp \<and>
      media_StorageKey m = iuo_StorageKey out \<and> media_Status m = MediaUploading \<and>
      media_FileSizeBytes m = iu_SizeBytes inp \<and> live m)"
  using pg_upload.InitUpload_Inr [OF assms] by blast

text \<open>
  C31. The object of an upload lies below the prefix of its media, so that deleting the media
  deletes it, for every file name but one: a name that is sanitised to \<open>..\<close> puts the object at the
  prefix without its slash, where neither \<open>DeleteMedia\<close> nor the clean-up finds it.
\<close>

theorem InitUpload_key_below_prefix:
  assumes "world_ok w" and "InitUpload (pg_upload_service pf c js t b u) inp w = (Inr out, w')"
    and "name_ok (iu_OwnerUserID inp)"
  shows "HasPrefix (iuo_StorageKey out) (path_Join [''users'', iu_OwnerUserID inp, ''media'', iuo_MediaID out] @ ''/'')
    \<longleftrightarrow> sanitizeFilename (iu_FileName inp) \<noteq> ''..''"
proof -
  from pg_upload.InitUpload_Inr [OF assms(1,2)] obtain bs where i: "iuo_MediaID out = ''media_'' @ EncodeToString bs"
    and key: "iuo_StorageKey out = path_Join [''users'', iu_OwnerUserID inp, ''media'', iuo_MediaID out,
      ''original'', sanitizeFilename (iu_FileName inp)]" by blast
  from upload_key [OF assms(3), of "iuo_MediaID out"] newMediaID_name_ok [of bs]
  show ?thesis by (simp only: i key media_prefix_def)
qed

text \<open>
  C32. An upload is completed only for its owner and while the media is live, and only when a HEAD request for
  the media's own storage key, in the configured bucket, finds an object of positive size and of an allowed
  type. Exactly that row changes: it gets the size and the type the request answered, and with a transcoder
  it is in processing and its job is at the end of the queue; without one it is uploaded.
\<close>

theorem CompleteUpload_queues:
  assumes "world_ok w" and "CompleteUpload (pg_upload_service pf c js t b u) inp w = (Inr out, w')"
  shows "world_ok w' \<and> cuo_MediaID out = cu_MediaID inp \<and> (\<exists>m w1 head e len mime.
      media_row w (cu_MediaID inp) = Some m \<and> live m \<and> media_OwnerUserID m = cu_OwnerUserID inp \<and>
      PostgresMedia_GetByID (pf_pool pf) (cu_MediaID inp) w = (Inr m, w1) \<and>
      s3_HeadObject (pf_s3 pf) (sc_bucket c) (media_StorageKey m) (env w1) = (Inr head, e) \<and>
      hoo_ContentLength head = Some len \<and> 0 < len \<and>
      mime = normalizeMime (pf_text pf) (case hoo_ContentType head of None \<Rightarrow> [] | Some ct \<Rightarrow> ct) \<and>
      mime \<in> set (mu_allowedMimeTypes (pg_upload_service pf c js t b u)) \<and>
      media_row w' = (media_row w)(cu_MediaID inp \<mapsto> m\<lparr>media_Status := cuo_Status out,
        media_FileSizeBytes := len, media_MimeType := mime\<rparr>)) \<and>
    (case t of
       None \<Rightarrow> cuo_Status out = MediaUploaded \<and> jobQueue w' = jobQueue w
     | Some s \<Rightarrow> cuo_Status out = MediaProcessing \<and> jobQueue w' = jobQueue w @ [TrimSpace (cu_MediaID inp)])"
proof -
  let ?s = "pg_upload_service pf c js t b u" and ?i = "cu_MediaID inp"
  from pg_upload.CompleteUpload_Inr [OF assms] obtain m w1 h w2 where
      R: "world_ok w'" "cuo_MediaID out = ?i" "media_row w ?i = Some m" "live m" "media_OwnerUserID m = cu_OwnerUserID inp"
        "mr_GetByID (mu_mediaRepo ?s) ?i w = (Inr m, w1)"
    and head: "HeadObject (mu_storage ?s) (media_StorageKey m) w1 = (Inr h, w2)" "0 < oh_ContentLength h"
    and mime: "normalizeMime (mu_text ?s) (oh_ContentType h) \<in> set (mu_allowedMimeTypes ?s)"
    and row: "media_row w' = (media_row w)(?i \<mapsto> set_status (cuo_Status out) (set_upload MediaUploaded
        (oh_ContentLength h) (normalizeMime (mu_text ?s) (oh_ContentType h)) m))"
    and last: "case mu_transcoder ?s of None \<Rightarrow> cuo_Status out = MediaUploaded \<and> jobQueue w' = jobQueue w
      | Some t \<Rightarrow> cuo_Status out = MediaProcessing \<and> (\<exists>v. jobQueue v = jobQueue w \<and> Enqueue t ?i v = (Inr (), w'))"
    by blast
  from head(1) obtain answer e where answer: "s3_HeadObject (pf_s3 pf) (sc_bucket c) (media_StorageKey m) (env w1) = (Inr answer, e)"
    "h = object_head answer"
    by (auto simp: HeadObject_def ext_def prog_simps split: if_splits prod.splits)
  with head(2) obtain len where len: "hoo_ContentLength answer = Some len" "0 < len" "oh_ContentLength h = len"
    by (auto simp: object_head_def split: option.splits)
  have type: "oh_ContentType h = (case hoo_ContentType answer of None \<Rightarrow> [] | Some ct \<Rightarrow> ct)"
    by (simp add: answer(2) object_head_def)
  have "case t of None \<Rightarrow> cuo_Status out = MediaUploaded \<and> jobQueue w' = jobQueue w
     | Some s \<Rightarrow> cuo_Status out = MediaProcessing \<and> jobQueue w' = jobQueue w @ [TrimSpace ?i]"
    using last by (auto simp: Enqueue_def Let_def split: option.splits if_splits)
  moreover have "media_row w' = (media_row w)(?i \<mapsto> m\<lparr>media_Status := cuo_Status out, media_FileSizeBytes := len,
      media_MimeType := normalizeMime (pf_text pf) (oh_ContentType h)\<rparr>)"
    using row by (cases m) (simp add: set_status_def set_upload_def len(3))
  ultimately show ?thesis using R answer(1) len(1,2) mime unfolding type by auto
qed

text \<open>
  Nobody completes or deletes a media of somebody else: the call fails, and no row of media and
  no job changes.
\<close>

theorem media_owner_only:
  assumes "world_ok w" and "media_row w i = Some m" and "media_OwnerUserID m \<noteq> owner"
    and "CompleteUpload (pg_upload_service pf c js t b u) \<lparr>cu_OwnerUserID = owner, cu_MediaID = i\<rparr> w = (r1, w1)"
    and "DeleteMedia fuel (pg_upload_service pf c js t b u) owner i w = (r2, w2)"
  shows "(\<exists>e. r1 = Inl e) \<and> (\<exists>e. r2 = Inl e) \<and> media_row w1 = media_row w \<and> media_row w2 = media_row w \<and>
    jobQueue w1 = jobQueue w \<and> jobQueue w2 = jobQueue w"
  using pg_upload.owner_only(1) [OF assms(1-4)] pg_upload.owner_only(2) [OF assms(1-3,5)] by simp

subsection \<open>Playback\<close>

text \<open>
  C37. Signing a manifest keeps its lines: as many as before and in the same order; blank lines,
  tags, comments and absolute URLs stay byte for byte, and every other line becomes a URL signed
  for the segment of that name in the manifest's own directory.
\<close>

theorem signManifest_lines:
  assumes "signManifest st b man d w = (Inr out, w')"
    and "\<And>k v u v'. PresignGetObject st k d v = (Inr u, v') \<Longrightarrow> newline \<notin> set u"
  shows "list_all2 (\<lambda>l l'. if passes l then l' = l
      else \<exists>v v'. PresignGetObject st (path_Join [b, TrimSpace l]) d v = (Inr l', v'))
    (Split man newline) (Split out newline)"
  using signManifest_Inr [OF assms] unfolding line_signed_def .

text \<open>
  C35. A playback token opens a manifest only while its media is live and ready: the media is read
  from the database on every use, so a token that was given out before the media was deleted no
  longer works.
\<close>

theorem ResolvePlaybackManifest_ready:
  assumes "world_ok w" and "ResolvePlaybackManifest (pg_upload_service pf c js t True u) tok w = (Inr man, w')"
  shows "\<exists>i e m. redis_Get (pf_redis pf) (playbackManifestTokenKey (TrimSpace tok)) (env w) = (Inr i, e) \<and>
    media_row w i = Some m \<and> live m \<and> media_Status m = MediaReady"
proof -
  from pg_upload.ResolvePlaybackManifest_Inr [OF assms] obtain i w1 m where
    g: "ext (redis_Get (pf_redis pf) (playbackManifestTokenKey (TrimSpace tok))) w = (Inr i, w1)"
    and m: "media_row w i = Some m" "live m" "media_Status m = MediaReady" by auto
  from g have "\<exists>e. redis_Get (pf_redis pf) (playbackManifestTokenKey (TrimSpace tok)) (env w) = (Inr i, e)"
    by (auto simp: ext_def split: prod.splits)
  with m show ?thesis by blast
qed

text \<open>
  C34. The cache stays true: if every playback entry is that of its own media, made while it was
  ready, then so it is after any playback call, and whatever such a call answers, from the cache or
  not, is the playback of the media it was asked for.
\<close>

theorem playback_cache_true:
  assumes "cache_apart pf kv" and "redis_store (pf_redis pf) kv" and "json_keeps js"
    and "cache_ok (pg_upload_service pf c js t True u) kv w" and "world_ok w" and "is_ascii i"
    and "GetPlayback (pg_upload_service pf c js t True u) owner i w = (r, w') \<or>
      GetPlaybackByMediaID (pg_upload_service pf c js t True u) i w = (r, w')"
  shows "cache_ok (pg_upload_service pf c js t True u) kv w' \<and>
    (\<forall>out. r = Inr out \<longrightarrow> po_MediaID out = i \<and> po_Status out = ''ready'')"
  using playback_own [OF assms] .

text \<open>
  C36. Whether \<open>GetPlayback\<close> serves a user who does not own the media depends on the cache alone: when
  Redis holds an entry for the media that can be read, the stranger gets what it says, with the signed
  URLs of the segments; otherwise the call fails. The owner is compared only when the cache has no answer.
\<close>

lemma buildManifestProxyURL_Inr: "\<exists>url w'. buildManifestProxyURL s i w = (Inr url, w')"
  by (auto simp: buildManifestProxyURL_def bindP_def attemptP_def retP_def Let_def split: option.split sum.split prod.split)

definition readable :: "('e, 'q) platform \<Rightarrow> playback_json \<Rightarrow> string \<Rightarrow> 'e \<Rightarrow> playbackCacheRecord \<Rightarrow> time \<Rightarrow> bool" where
  "readable pf js i e rec t \<longleftrightarrow> (\<exists>payload e'. redis_Get (pf_redis pf) (playbackCacheKey i) e = (Inr payload, e') \<and>
    TrimSpace payload \<noteq> [] \<and> pj_Unmarshal js payload = Inr rec \<and>
    gt_ParseRFC3339 (pf_text pf) (pcr_ExpiresAt rec) = Some t)"

theorem GetPlayback_cached_for_anyone:
  assumes "world_ok w" and "media_row w i = Some m" and "media_OwnerUserID m \<noteq> stranger"
    and "TrimSpace stranger \<noteq> []" and "TrimSpace i \<noteq> []"
    and "GetPlayback (pg_upload_service pf c js tr True u) stranger i w = (r, w')"
  shows "(\<forall>rec t. readable pf js i (env w) rec t \<longrightarrow> (\<exists>url. r = Inr \<lparr>po_MediaID = pcr_MediaID rec,
      po_Status = pcr_Status rec, po_Manifest = pcr_Manifest rec, po_ManifestURL = url,
      po_PreviewURL = pcr_PreviewURL rec, po_ExpiresAt = t\<rparr>)) \<and>
    ((\<nexists>rec t. readable pf js i (env w) rec t) \<longrightarrow> (\<exists>e. r = Inl e))"
proof -
  let ?s = "pg_upload_service pf c js tr True u"
  obtain g e' where g: "redis_Get (pf_redis pf) (playbackCacheKey i) (env w) = (g, e')"
    by (cases "redis_Get (pf_redis pf) (playbackCacheKey i) (env w)")
  let ?w1 = "w\<lparr>env := e'\<rparr>"
  from g have get: "redis_Get (the (mu_cache ?s)) (playbackCacheKey i) w = (g, ?w1)" by (simp add: ext_def)
  let ?hit = "case g of Inl _ \<Rightarrow> None | Inr cached \<Rightarrow> decode_playback ?s cached"
  have cached: "cached_playback ?s i w = (case ?hit of None \<Rightarrow> (Inr None, ?w1)
      | Some (rec, t) \<Rightarrow> (bindP (buildManifestProxyURL ?s (pcr_MediaID rec)) (\<lambda>url. retP (Some
          \<lparr>po_MediaID = pcr_MediaID rec, po_Status = pcr_Status rec, po_Manifest = pcr_Manifest rec,
            po_ManifestURL = url, po_PreviewURL = pcr_PreviewURL rec, po_ExpiresAt = t\<rparr>))) ?w1)"
    using get by (auto simp: cached_playback_def bindP_def attemptP_def retP_def split: option.splits prod.splits)
  have readable: "readable pf js i (env w) rec t \<longleftrightarrow> ?hit = Some (rec, t)" for rec t
    using g by (auto simp: readable_def decode_playback_def split: sum.splits option.splits)
  show ?thesis
  proof (cases ?hit)
    case None
    with cached assms(4-6) have rest: "bindP (mr_GetByID (mu_mediaRepo ?s) i) (\<lambda>media.
        if media_OwnerUserID media \<noteq> stranger then failP ErrForbiddenMedia
        else bindP (buildPlayback ?s media) (\<lambda>out. bindP (store_playback ?s i out) (\<lambda>_.
          bindP (buildManifestProxyURL ?s (po_MediaID out)) (\<lambda>url. retP (out\<lparr>po_ManifestURL := url\<rparr>))))) ?w1 = (r, w')"
      by (simp add: GetPlayback_def bindP_def)
    have ok: "world_ok ?w1" "media_row ?w1 i = Some m" using assms(1,2) by (simp_all add: world_ok_def)
    have "(\<exists>e. r = Inl e) \<and> world_ok w' \<and> media_row w' = media_row ?w1 \<and> jobQueue w' = jobQueue ?w1"
      by (rule pg_upload.guarded_owner [OF ok assms(3) rest]) (simp add: failP_def)
    with None readable show ?thesis by simp
  next
    case (Some hit)
    obtain rec t where hit: "hit = (rec, t)" by (cases hit)
    obtain url w2 where url: "buildManifestProxyURL ?s (pcr_MediaID rec) ?w1 = (Inr url, w2)"
      using buildManifestProxyURL_Inr by blast
    from Some hit cached url assms(4-6) have "r = Inr \<lparr>po_MediaID = pcr_MediaID rec,
      po_Status = pcr_Status rec, po_Manifest = pcr_Manifest rec, po_ManifestURL = url,
      po_PreviewURL = pcr_PreviewURL rec, po_ExpiresAt = t\<rparr>"
      by (simp add: GetPlayback_def bindP_def retP_def)
    with Some hit readable show ?thesis by simp
  qed
qed

subsection \<open>Deletion\<close>

text \<open>
  C33. A media is marked deleted only for its owner and only after the store has been purged: when its row
  has changed, it differs in its deletion time alone and no other row changed; objects below the media's prefix
  only are gone; and what is left there are objects the store may refuse to delete (an answer that succeeds
  names them, and the code does not look at it) and objects whose key has white space around it.
\<close>

theorem DeleteMedia_purges_first:
  assumes "world_ok w" and "lists_objects (pf_s3 pf) objs past" and "deletes_objects (pf_s3 pf) objs refused"
    and "pool_keeps (pf_pool pf) objs"
    and "\<And>e. objs (snd (pf_clock pf e)) = objs e" and "\<And>k e. objs (snd (redis_Del (pf_redis pf) k e)) = objs e"
    and "name_ok owner" and "name_ok i"
    and "DeleteMedia fuel (pg_upload_service pf c js t b u) owner i w = (r, w')"
    and "r = Inr () \<or> media_row w' \<noteq> media_row w"
  shows "\<exists>m d. media_row w i = Some m \<and> live m \<and> media_OwnerUserID m = owner \<and>
    media_row w' = (media_row w)(i \<mapsto> m\<lparr>media_DeletedAt := Some d\<rparr>) \<and>
    (\<forall>b. b \<noteq> sc_bucket c \<longrightarrow> objs (env w') b = objs (env w) b) \<and>
    objs (env w') (sc_bucket c) \<subseteq> objs (env w) (sc_bucket c) \<and>
    (\<forall>k \<in> objs (env w) (sc_bucket c).
      \<not> HasPrefix k (path_Join [''users'', owner, ''media'', i] @ ''/'') \<longrightarrow> k \<in> objs (env w') (sc_bucket c)) \<and>
    (\<forall>k \<in> objs (env w') (sc_bucket c).
      HasPrefix k (path_Join [''users'', owner, ''media'', i] @ ''/'') \<longrightarrow> refused (sc_bucket c) k \<or> TrimSpace k \<noteq> k)"
  using assms(1,9)
proof (cases rule: pg_upload.DeleteMedia_cases)
  case (kept e)
  with assms(10) show ?thesis by simp
next
  case (purged m w1 w2 w3 d)
  have pool: "objs (env v') = objs (env v)" if "run_stmt (pf_pool pf) st v = (q, v')" for q v v' and st :: "'x stmt"
    using staysD [OF pool_keeps_run_stmt [OF assms(4)] that] by (simp add: unchanged_def)
  have 1: "objs (env w1) = objs (env w)"
    using purged(4) staysD [OF stays_query_row(2) [OF pool_keeps_run_stmt [OF assms(4)]]]
    by (simp add: PostgresMedia_GetByID_def unchanged_def)
  have 2: "(\<forall>b. b \<noteq> sc_bucket c \<longrightarrow> objs (env w2) b = objs (env w) b) \<and>
      objs (env w2) (sc_bucket c) \<subseteq> objs (env w) (sc_bucket c) \<and>
      (\<forall>k \<in> objs (env w) (sc_bucket c). \<not> HasPrefix k (media_prefix owner i) \<longrightarrow> k \<in> objs (env w2) (sc_bucket c)) \<and>
      (\<forall>k \<in> objs (env w2) (sc_bucket c). HasPrefix k (media_prefix owner i) \<longrightarrow> refused (sc_bucket c) k \<or> TrimSpace k \<noteq> k)"
  proof -
    from purged(5) have "DeleteObjectsByPrefix fuel (pg_storage pf c) (media_prefix owner i) w1 = (Inr (), w2)"
      by (simp only: media_prefix_def pg_upload_service_simps)
    from DeleteObjectsByPrefix_Inr [of "pg_storage pf c", unfolded pg_storage_simps, OF lists_objects_world [OF assms(2)]
      deletes_objects_world [OF assms(3)] solid_media_prefix [OF assms(7,8)] this] 1 show ?thesis by simp
  qed
  have 3: "objs (env w3) = objs (env w2)"
    using purged(6) assms(5) [of "env w2"] by (auto simp: readP_def ext_read_def split: prod.splits)
  obtain q w4 where q: "PostgresMedia_SoftDelete (pf_pool pf) i d w3 = (q, w4)"
    and last: "case q of Inl e \<Rightarrow> r = Inl e \<and> w' = w4 | Inr _ \<Rightarrow> r = Inr () \<and>
      (case mu_cache (pg_upload_service pf c js t b u) of None \<Rightarrow> w' = w4
        | Some rc \<Rightarrow> w' = snd (redis_Del rc (playbackCacheKey i) w4))"
    using purged(9) by auto
  have 4: "objs (env w4) = objs (env w3)"
    using q staysD [OF stays_query_row(3) [OF pool_keeps_run_stmt [OF assms(4)]]]
    by (simp add: PostgresMedia_SoftDelete_def unchanged_def)
  have "objs (env w') = objs (env w4)"
    using last assms(6) [of "playbackCacheKey i" "env w4"]
    by (auto simp: ext_def split: sum.splits if_splits prod.splits)
  with 2 3 4 have "objs (env w') = objs (env w2)" by simp
  with 2 purged(1-3,8) show ?thesis unfolding media_prefix_def set_deleted_def by auto
qed

subsection \<open>On the sample platform\<close>

definition sample_file :: InitUploadInput where
  "sample_file = \<lparr>iu_OwnerUserID = ''alice'', iu_FileName = ''my film.mp4'', iu_ContentType = ''video/mp4'',
    iu_SizeBytes = 7\<rparr>"

lemma sample_init:
  "\<exists>out w'. InitUpload sample_upload sample_file sample_playing = (Inr out, w')"
  by (rule not_isl) code_simp

theorem InitUpload_registers_witness:
  "\<exists>out w' m. InitUpload sample_upload sample_file sample_playing = (Inr out, w') \<and>
    media_row w' (iuo_MediaID out) = Some m \<and> media_Status m = MediaUploading"
proof -
  from sample_init obtain out w' where run: "InitUpload sample_upload sample_file sample_playing = (Inr out, w')"
    by blast
  from InitUpload_registers [OF sample_playing_ok run [unfolded sample_upload_def]] run show ?thesis by auto
qed

lemma sample_alice_name: "name_ok ''alice''" "name_ok ''film''"
  by (simp_all add: name_ok_def clean_name_def solid_def graphic_def)

text \<open>A file called \<open>..\<close> is stored outside its media's prefix.\<close>

theorem InitUpload_key_below_prefix_witness:
  "\<exists>out w'. InitUpload sample_upload (sample_file\<lparr>iu_FileName := ''..''\<rparr>) sample_playing = (Inr out, w') \<and>
    \<not> HasPrefix (iuo_StorageKey out) (path_Join [''users'', ''alice'', ''media'', iuo_MediaID out] @ ''/'')"
proof -
  let ?in = "sample_file\<lparr>iu_FileName := ''..''\<rparr>"
  have "\<exists>out w'. InitUpload sample_upload ?in sample_playing = (Inr out, w')" by (rule not_isl) code_simp
  then obtain out w' where run: "InitUpload sample_upload ?in sample_playing = (Inr out, w')" by blast
  have "sanitizeFilename ''..'' = ''..''" by code_simp
  with InitUpload_key_below_prefix [OF sample_playing_ok run [unfolded sample_upload_def]] sample_alice_name(1)
  have "\<not> HasPrefix (iuo_StorageKey out) (path_Join [''users'', ''alice'', ''media'', iuo_MediaID out] @ ''/'')"
    by (simp add: sample_file_def)
  with run show ?thesis by blast
qed

text \<open>An uploaded object has arrived under the film's key.\<close>

definition sample_arrived :: "sample_env world" where
  "sample_arrived = sample_world\<lparr>env := sample_start\<lparr>se_objects :=
    [(''users/alice/media/film/original/f.mp4'', ''bytes'')]\<rparr>\<rparr>"

lemma sample_arrived_ok: "world_ok sample_arrived"
  using sample_world_ok by (simp add: world_ok_def sample_arrived_def)

definition sample_complete :: CompleteUploadInput where
  "sample_complete = \<lparr>cu_OwnerUserID = ''alice'', cu_MediaID = ''film''\<rparr>"

lemma sample_film_arrived: "media_row sample_arrived ''film'' = Some sample_film"
  by (simp add: sample_arrived_def sample_world_def media_view_def row_of_def sample_film_def)

theorem media_owner_only_witness:
  "media_row (snd (DeleteMedia 1 sample_upload ''bob'' ''film'' sample_playing)) = media_row sample_playing \<and>
    (\<exists>e. fst (CompleteUpload sample_upload \<lparr>cu_OwnerUserID = ''bob'', cu_MediaID = ''film''\<rparr> sample_playing) =
      Inl e)"
proof -
  obtain r1 w1 where 1: "CompleteUpload sample_upload \<lparr>cu_OwnerUserID = ''bob'', cu_MediaID = ''film''\<rparr>
      sample_playing = (r1, w1)"
    by (cases "CompleteUpload sample_upload \<lparr>cu_OwnerUserID = ''bob'', cu_MediaID = ''film''\<rparr> sample_playing")
  obtain r2 w2 where 2: "DeleteMedia 1 sample_upload ''bob'' ''film'' sample_playing = (r2, w2)"
    by (cases "DeleteMedia 1 sample_upload ''bob'' ''film'' sample_playing")
  have "media_OwnerUserID sample_film \<noteq> ''bob''" by (simp add: sample_film_def)
  from media_owner_only [OF sample_playing_ok sample_film_at this 1 [unfolded sample_upload_def]
      2 [unfolded sample_upload_def]] 1 2
  show ?thesis by simp
qed

theorem CompleteUpload_queues_witness:
  "\<exists>out w'. CompleteUpload sample_upload sample_complete sample_arrived = (Inr out, w') \<and>
    cuo_Status out = MediaUploaded \<and> world_ok w'"
proof -
  have "\<exists>out w'. CompleteUpload sample_upload sample_complete sample_arrived = (Inr out, w')"
    by (rule not_isl) code_simp
  then obtain out w' where run: "CompleteUpload sample_upload sample_complete sample_arrived = (Inr out, w')"
    by blast
  from CompleteUpload_queues [OF sample_arrived_ok run [unfolded sample_upload_def]] run show ?thesis by auto
qed

theorem signManifest_lines_witness:
  "\<exists>out. length (Split out newline) = length (Split sample_manifest newline) \<and>
    fst (signManifest (pg_storage sample_platform sample_bucket) ''hls'' sample_manifest 1 sample_playing) = Inr out"
proof -
  let ?st = "pg_storage sample_platform sample_bucket"
  let ?run = "signManifest ?st ''hls'' sample_manifest 1"
  have "\<exists>out w'. ?run sample_playing = (Inr out, w')" by (rule not_isl) code_simp
  then obtain out w' where run: "?run sample_playing = (Inr out, w')" by blast
  have url: "newline \<notin> set u" if "PresignGetObject ?st k 1 v = (Inr u, v')" for k v u v'
    using that by (auto simp: PresignGetObject_def sample_bucket_def sample_platform_def sample_s3_def ext_def
        newline_def)
  from list_all2_lengthD [OF signManifest_lines [OF run url]] run show ?thesis by auto
qed

lemma sample_play:
  "\<exists>out w'. GetPlayback sample_upload ''alice'' ''film'' sample_playing = (Inr out, w')"
  by (rule not_isl) code_simp

theorem playback_cache_true_witness:
  "\<exists>out w'. GetPlayback sample_upload ''alice'' ''film'' sample_playing = (Inr out, w') \<and>
    po_MediaID out = ''film'' \<and> cache_ok sample_upload sample_kv w'"
proof -
  from sample_play obtain out w' where
    run: "GetPlayback sample_upload ''alice'' ''film'' sample_playing = (Inr out, w')" by blast
  have redis: "redis_store (pf_redis sample_platform) sample_kv"
    using sample_redis_store by (simp add: sample_platform_def)
  have "is_ascii ''film''" by (simp add: is_ascii_def)
  from playback_cache_true [OF sample_cache_apart redis sample_json_keeps
      sample_playing_cache [unfolded sample_upload_def] sample_playing_ok this, of "''alice''" "Inr out" w'] run
  show ?thesis by (auto simp: sample_upload_def)
qed

text \<open>Once alice has played her film, bob gets it too.\<close>

theorem GetPlayback_cached_for_anyone_witness:
  "\<exists>out w'. GetPlayback sample_upload ''bob'' ''film''
    (snd (GetPlayback sample_upload ''alice'' ''film'' sample_playing)) = (Inr out, w')"
proof -
  define v where "v = snd (GetPlayback sample_upload ''alice'' ''film'' sample_playing)"
  obtain r w' where run: "GetPlayback sample_upload ''bob'' ''film'' v = (r, w')"
    by (cases "GetPlayback sample_upload ''bob'' ''film'' v")
  have "db v = db sample_playing" unfolding v_def by code_simp
  then have w: "world_ok v" "media_row v ''film'' = Some sample_film"
    using sample_playing_ok sample_film_at by (simp_all add: world_ok_def)
  have "case redis_Get (pf_redis sample_platform) (playbackCacheKey ''film'') (env v) of (Inr payload, e') \<Rightarrow>
      TrimSpace payload \<noteq> [] \<and> (case pj_Unmarshal sample_json payload of Inl _ \<Rightarrow> False
        | Inr rec \<Rightarrow> gt_ParseRFC3339 (pf_text sample_platform) (pcr_ExpiresAt rec) \<noteq> None) | _ \<Rightarrow> False"
    unfolding v_def by code_simp
  then obtain rec t where entry: "readable sample_platform sample_json ''film'' (env v) rec t"
    unfolding readable_def by (auto split: prod.splits sum.splits)
  have names: "TrimSpace ''bob'' \<noteq> []" "TrimSpace ''film'' \<noteq> []" by code_simp+
  have "media_OwnerUserID sample_film \<noteq> ''bob''" by (simp add: sample_film_def)
  from GetPlayback_cached_for_anyone [OF w this names run [unfolded sample_upload_def]] entry
  have "\<exists>out. r = Inr out" by blast
  with run show ?thesis by (auto simp: v_def)
qed

text \<open>A token that was handed out with alice's film.\<close>

definition sample_token :: "sample_env world" where
  "sample_token = sample_playing\<lparr>env := (env sample_playing)\<lparr>se_redis :=
    [(playbackManifestTokenKey ''t'', ''film'')]\<rparr>\<rparr>"

theorem ResolvePlaybackManifest_ready_witness:
  "\<exists>man w' m. ResolvePlaybackManifest sample_upload ''t'' sample_token = (Inr man, w') \<and>
    media_row sample_token ''film'' = Some m \<and> media_Status m = MediaReady"
proof -
  have ok: "world_ok sample_token"
    using sample_playing_ok by (simp add: sample_token_def world_ok_def)
  have "\<exists>man w'. ResolvePlaybackManifest sample_upload ''t'' sample_token = (Inr man, w')"
    by (rule not_isl) code_simp
  then obtain man w' where run: "ResolvePlaybackManifest sample_upload ''t'' sample_token = (Inr man, w')" by blast
  have "TrimSpace ''t'' = ''t''" by code_simp
  then have "i = ''film''" if "redis_Get (pf_redis sample_platform) (playbackManifestTokenKey (TrimSpace ''t''))
      (env sample_token) = (Inr i, e)" for i e
    using that by (simp add: sample_platform_def sample_redis_def sample_token_def)
  with ResolvePlaybackManifest_ready [OF ok run [unfolded sample_upload_def]] run show ?thesis by blast
qed

theorem DeleteMedia_purges_first_witness:
  "\<exists>w' m. DeleteMedia 1 sample_upload ''alice'' ''film'' sample_playing = (Inr (), w') \<and>
    ''users/alice/media/film/hls/index.m3u8'' \<notin> sample_objs (env w') ''bucket'' \<and>
    media_row w' ''film'' = Some m \<and> \<not> live m"
proof -
  let ?k = "''users/alice/media/film/hls/index.m3u8''"
  have "\<exists>u w'. DeleteMedia 1 sample_upload ''alice'' ''film'' sample_playing = (Inr u, w')"
    by (rule not_isl) code_simp
  then obtain w' where run: "DeleteMedia 1 sample_upload ''alice'' ''film'' sample_playing = (Inr (), w')" by auto
  have laws: "lists_objects (pf_s3 sample_platform) sample_objs sample_past"
    "deletes_objects (pf_s3 sample_platform) sample_objs (\<lambda>b. sample_locked)" "pool_keeps (pf_pool sample_platform) sample_objs"
    "\<And>e. sample_objs (snd (pf_clock sample_platform e)) = sample_objs e"
    "\<And>k e. sample_objs (snd (redis_Del (pf_redis sample_platform) k e)) = sample_objs e"
    using sample_s3_laws by (simp_all add: sample_platform_def sample_redis_def sample_objs_def fun_eq_iff)
  have key: "TrimSpace ?k = ?k" "\<not> sample_locked ?k"
    "HasPrefix ?k (path_Join [''users'', ''alice'', ''media'', ''film''] @ ''/'')" by code_simp+
  from DeleteMedia_purges_first [OF sample_playing_ok laws sample_alice_name run [unfolded sample_upload_def]]
  obtain m d where row: "media_row w' = (media_row sample_playing)(''film'' \<mapsto> m\<lparr>media_DeletedAt := Some d\<rparr>)"
    and left: "\<forall>k \<in> sample_objs (env w') (sc_bucket sample_bucket).
      HasPrefix k (path_Join [''users'', ''alice'', ''media'', ''film''] @ ''/'') \<longrightarrow> sample_locked k \<or> TrimSpace k \<noteq> k" by blast
  have "sc_bucket sample_bucket = ''bucket''" by (simp add: sample_bucket_def)
  with left key have "?k \<notin> sample_objs (env w') ''bucket''" by metis
  moreover have "\<not> live (m\<lparr>media_DeletedAt := Some d\<rparr>)" by (simp add: live_def)
  ultimately show ?thesis using run row by (metis fun_upd_same)
qed

end
