(* ===== verification/Presence_Properties.thy ===== *)
theory Presence_Properties
  imports Room_Playback Webhook Sample_Media
begin

text \<open>
  The properties of the playback state and of the participants of a room, the two things the
  program keeps in Redis only.
\<close>

subsection \<open>Samples\<close>

text \<open>A codec for playback states at rate 1, with the fields and times of the sample platform.\<close>

definition sample_state_Marshal :: "RoomPlaybackState \<Rightarrow> err + string" where
  "sample_state_Marshal st =
    (if rps_PlaybackRate st = Fin 1
     then Inr (concat (map write_field [rps_RoomID st, rps_MediaID st, rps_Status st, sample_format (rps_PositionMs st),
       sample_format (rps_UpdatedAt st), sample_format (rps_Version st), rps_HostID st]))
     else Inl (New ''unsupported value''))"

definition sample_state_Unmarshal :: "string \<Rightarrow> err + RoomPlaybackState" where
  "sample_state_Unmarshal s =
    (case read_fields 7 s of
       Some [i, m, stat, pos, upd, ver, host] \<Rightarrow>
         (case (sample_parse pos, sample_parse upd, sample_parse ver) of
            (Some p, Some u, Some v) \<Rightarrow>
              Inr \<lparr>rps_RoomID = i, rps_MediaID = m, rps_Status = stat, rps_PositionMs = p,
                rps_PlaybackRate = Fin 1, rps_UpdatedAt = u, rps_Version = v, rps_HostID = host\<rparr>
          | _ \<Rightarrow> Inl (New ''invalid number''))
     | _ \<Rightarrow> Inl (New ''unexpected end of JSON input''))"

definition sample_playback :: "sample_env world RoomPlaybackService" where
  "sample_playback = pg_playback_service sample_platform
    \<lparr>sj_Marshal = sample_state_Marshal, sj_Unmarshal = sample_state_Unmarshal\<rparr>"

definition sample_seek :: UpdateRoomPlaybackInput where
  "sample_seek = \<lparr>up_MediaID = ''film'', up_Status = ''playing'', up_PositionMs = 5, up_PlaybackRate = Fin 1\<rparr>"

definition sample_saved :: RoomPlaybackState where
  "sample_saved = \<lparr>rps_RoomID = ''r1'', rps_MediaID = ''film'', rps_Status = ''playing'', rps_PositionMs = 5,
    rps_PlaybackRate = Fin 1, rps_UpdatedAt = 1000000000, rps_Version = 1, rps_HostID = ''alice''\<rparr>"

lemma sample_seek_saved:
  "fst (SaveByHost sample_playback ''r1'' ''alice'' sample_seek sample_world) = Inr sample_saved"
  by code_simp

lemma sample_seek_read:
  "\<not> isl (fst (GetState sample_playback ''r1''
    (snd (SaveByHost sample_playback ''r1'' ''alice'' sample_seek sample_world))))"
  by code_simp

lemma sample_saved_codec:
  "(case sample_state_Marshal sample_saved of Inl e \<Rightarrow> False | Inr v \<Rightarrow> sample_state_Unmarshal v = Inr sample_saved)"
  by code_simp

definition sample_members :: "sample_env \<Rightarrow> string \<Rightarrow> string set" where
  "sample_members e k = {m. (k, m) \<in> set (se_redis e)}"

lemma sample_redis_sets: "redis_sets sample_redis sample_members"
  by (auto simp: redis_sets_def sample_redis_def sample_members_def fun_eq_iff)

lemma sample_redis_holds: "redis_holds sample_redis sample_kv"
  unfolding redis_holds_def
proof (intro conjI allI impI)
  show "sample_kv e k = Some v" if "redis_Get sample_redis k e = (Inr v, e')" for k e v e'
    using that by (auto simp: sample_redis_def sample_kv_def split: option.splits)
  show "sample_kv e' k = Some v \<or> sample_kv e' k = None"
    if "redis_Set sample_redis k v d e = (Inr (), e')" for k v d e e'
    using that by (auto simp: sample_redis_def sample_kv_def)
qed

subsection \<open>Properties\<close>

text \<open>
  C39. \<open>SaveByHost\<close> succeeds only for the owner of an active room. What it returns is the next
  state of the one \<open>GetState\<close> found, or of the initial one when there was none: the host and
  the position are those of the call, the version is an \<open>int64\<close> and one up as long as
  that is one, and the rate plays unless a state with a NaN rate was stored. Neither a
  table nor a queue changes.
\<close>

theorem SaveByHost_by_host:
  assumes "world_ok w"
    and "SaveByHost (pg_playback_service pf js) i u inp w = (Inr st, w')"
  shows "\<exists>room w1 current now.
    room_row w i = Some room \<and> room_OwnerUserID room = u \<and> room_Status room = RoomActive \<and>
    rr_GetRoomByID (NewPostgresRoomRepository (pf_pool pf)) i w = (Inr room, w1) \<and>
    starts_from (pg_playback_service pf js) i u inp w1 current \<and> st = next_state u inp now current \<and>
    rps_HostID st = u \<and> rps_PositionMs st = up_PositionMs inp \<and>
    MinInt64 \<le> rps_Version st \<and> rps_Version st \<le> MaxInt64 \<and>
    (0 \<le> rps_Version current \<and> rps_Version current < MaxInt64 \<longrightarrow> rps_Version st = rps_Version current + 1) \<and>
    (rps_PlaybackRate current \<noteq> NaN \<longrightarrow> float_gt_0 (rps_PlaybackRate st)) \<and>
    world_ok w' \<and> room_row w' = room_row w"
proof -
  from pg_playback.SaveByHost_Inr [OF assms] obtain room w1 current now where
    new: "room_row w i = Some room" "room_OwnerUserID room = u" "room_Status room = RoomActive"
      "rr_GetRoomByID (NewPostgresRoomRepository (pf_pool pf)) i w = (Inr room, w1)"
      "starts_from (pg_playback_service pf js) i u inp w1 current" "st = next_state u inp now current"
    unfolding pg_playback_service_simps by blast
  from quietD [OF pg_playback.quiet_SaveByHost assms] have "world_ok w'" "room_row w' = room_row w" by auto
  moreover have "rps_HostID st = u" "rps_PositionMs st = up_PositionMs inp"
    by (simp_all add: new(6) next_state_def)
  ultimately show ?thesis
    using new(1-6) next_state_version [of u inp now current, folded new(6)]
      next_state_rate [of current u inp now, folded new(6)] by blast
qed

theorem SaveByHost_by_host_witness:
  "\<exists>w'. SaveByHost sample_playback ''r1'' ''alice'' sample_seek sample_world = (Inr sample_saved, w') \<and>
    world_ok w'"
proof -
  from sample_seek_saved obtain w' where
      run: "SaveByHost sample_playback ''r1'' ''alice'' sample_seek sample_world = (Inr sample_saved, w')"
    by (metis prod.collapse)
  from SaveByHost_by_host [OF sample_world_ok run [unfolded sample_playback_def]] run
  show ?thesis by blast
qed

text \<open>
  Anyone but the owner of the room, and the owner once the room is over, is refused: the
  answer is an error, Redis is not written (the call ends where the look-up of the room ended),
  and no table changes.
\<close>

theorem SaveByHost_refused:
  assumes "world_ok w" and "room_row w i = Some room"
    and "room_OwnerUserID room \<noteq> u \<or> room_Status room \<noteq> RoomActive"
    and "SaveByHost (pg_playback_service pf js) i u inp w = (r, w')"
  shows "\<exists>e g. r = Inl e \<and> rr_GetRoomByID (NewPostgresRoomRepository (pf_pool pf)) i w = (g, w') \<and>
    room_row w' = room_row w \<and>
    (\<forall>q. g = Inr q \<longrightarrow> e = (if room_OwnerUserID room \<noteq> u then ErrRoomForbidden else ErrRoomEnded))"
proof -
  from quietD [OF pg_playback.quiet_SaveByHost assms(1,4)] have "room_row w' = room_row w" by simp
  with pg_playback.SaveByHost_refuses [OF assms] show ?thesis by simp
qed

theorem SaveByHost_refused_witness:
  "fst (SaveByHost sample_playback ''r1'' ''bob'' sample_seek sample_world) = Inl ErrRoomForbidden \<and>
    (\<exists>e. fst (SaveByHost sample_playback ''r1'' ''bob'' sample_seek sample_world) = Inl e)"
proof
  obtain r w' where run: "SaveByHost sample_playback ''r1'' ''bob'' sample_seek sample_world = (r, w')"
    by (cases "SaveByHost sample_playback ''r1'' ''bob'' sample_seek sample_world")
  have "room_row sample_world ''r1'' = Some sample_hall"
    by (simp add: sample_world_def sample_hall_def room_view_def row_of_def)
  moreover have "room_OwnerUserID sample_hall \<noteq> ''bob'' \<or> room_Status sample_hall \<noteq> RoomActive"
    by (simp add: sample_hall_def)
  ultimately show "\<exists>e. fst (SaveByHost sample_playback ''r1'' ''bob'' sample_seek sample_world) = Inl e"
    using SaveByHost_refused [OF sample_world_ok _ _ run [unfolded sample_playback_def]] run by auto
  show "fst (SaveByHost sample_playback ''r1'' ''bob'' sample_seek sample_world) = Inl ErrRoomForbidden"
    by code_simp
qed

text \<open>
  C4. Round trip through Redis: what \<open>GetState\<close> reads right after \<open>SaveByHost\<close> is the state
  that was saved, provided that Redis answers with what it holds, and that JSON reads back the
  state it has written.
\<close>

theorem GetState_after_SaveByHost:
  assumes "world_ok w" and "redis_holds (pf_redis pf) kv"
    and "\<And>v. sj_Marshal js st = Inr v \<Longrightarrow> sj_Unmarshal js v = Inr st"
    and "SaveByHost (pg_playback_service pf js) i u inp w = (Inr st, w1)"
    and "GetState (pg_playback_service pf js) i w1 = (Inr st', w2)"
  shows "st' = st"
  using pg_playback.SaveByHost_GetState
    [OF assms(1,4) _ _ assms(5), unfolded pg_playback_service_simps, OF redis_holds_ext [OF assms(2)]] assms(3)
  by simp

theorem GetState_after_SaveByHost_witness:
  "\<exists>w1 w2. SaveByHost sample_playback ''r1'' ''alice'' sample_seek sample_world = (Inr sample_saved, w1) \<and>
    GetState sample_playback ''r1'' w1 = (Inr sample_saved, w2)"
proof -
  let ?js = "\<lparr>sj_Marshal = sample_state_Marshal, sj_Unmarshal = sample_state_Unmarshal\<rparr>"
  obtain w1 where w1: "SaveByHost sample_playback ''r1'' ''alice'' sample_seek sample_world = (Inr sample_saved, w1)"
    using sample_seek_saved by (metis prod.collapse)
  with not_isl [of "GetState sample_playback ''r1''", OF sample_seek_read] obtain st' w2 where w2: "GetState sample_playback ''r1'' w1 = (Inr st', w2)"
    by auto
  have holds: "redis_holds (pf_redis sample_platform) sample_kv"
    by (simp add: sample_platform_def sample_redis_holds)
  have codec: "\<And>v. sj_Marshal ?js sample_saved = Inr v \<Longrightarrow> sj_Unmarshal ?js v = Inr sample_saved"
    using sample_saved_codec by simp
  from GetState_after_SaveByHost [OF sample_world_ok holds codec
      w1 [unfolded sample_playback_def] w2 [unfolded sample_playback_def]]
  show ?thesis using w1 w2 by blast
qed

text \<open>
  C40. Handling LiveKit's events one after the other refines their meaning: when every call to
  Redis succeeds, the set that Redis keeps for a room holds exactly those for whom
  the last event about them in that room is that they joined, and, for those no event speaks
  of, those it held before.
\<close>

theorem handle_all_presence:
  assumes "redis_sets (pf_redis pf) members"
    and "handle_all (pg_webhook_service pf) evs w = (Inr (), w')"
    and "room \<noteq> []" and "i \<noteq> []"
    and "\<And>room. members (env w) (participants_key room) = {i. (room, i) \<in> P}"
  shows "i \<in> members (env w') (participants_key room) \<longleftrightarrow>
    (case find (about room i) (rev evs) of
       Some ev \<Rightarrow> ev_Event ev = ''participant_joined''
     | None \<Rightarrow> (room, i) \<in> P)"
proof -
  have "shows_presence (\<lambda>w. members (env w)) w P" using assms(5) by (simp add: shows_presence_def)
  from handle_all_present [OF redis_sets_pg [OF assms(1)] this assms(2)]
  have "i \<in> members (env w') (participants_key room) \<longleftrightarrow> (room, i) \<in> present P evs"
    by (simp add: shows_presence_def)
  with assms(3,4) show ?thesis by (simp add: present_last cong: option.case_cong)
qed

theorem handle_all_presence_witness:
  "\<exists>w'. handle_all (pg_webhook_service sample_platform)
      [\<lparr>ev_Event = ''participant_joined'', ev_RoomName = ''hall'', ev_Identity = ''bob''\<rparr>,
       \<lparr>ev_Event = ''participant_joined'', ev_RoomName = ''hall'', ev_Identity = ''eve''\<rparr>,
       \<lparr>ev_Event = ''participant_left'', ev_RoomName = ''hall'', ev_Identity = ''bob''\<rparr>] sample_world = (Inr (), w') \<and>
    ''bob'' \<notin> sample_members (env w') (participants_key ''hall'')"
proof -
  let ?evs = "[\<lparr>ev_Event = ''participant_joined'', ev_RoomName = ''hall'', ev_Identity = ''bob''\<rparr>,
       \<lparr>ev_Event = ''participant_joined'', ev_RoomName = ''hall'', ev_Identity = ''eve''\<rparr>,
       \<lparr>ev_Event = ''participant_left'', ev_RoomName = ''hall'', ev_Identity = ''bob''\<rparr>]"
  have "\<not> isl (fst (handle_all (pg_webhook_service sample_platform) ?evs sample_world))"
    by code_simp
  from not_isl [of "handle_all (pg_webhook_service sample_platform) ?evs", OF this] obtain w' where
    run: "handle_all (pg_webhook_service sample_platform) ?evs sample_world = (Inr (), w')" by auto
  have law: "redis_sets (pf_redis sample_platform) sample_members"
    by (simp add: sample_platform_def sample_redis_sets)
  have none: "sample_members (env sample_world) (participants_key room) = {i. (room, i) \<in> {}}" for room
    by (simp add: sample_members_def sample_world_def sample_start_def)
  from handle_all_presence [OF law run _ _ none, of "''hall''" "''bob''"] run
  show ?thesis by (simp add: about_def)
qed

end
