(* ===== verification/Ownership.thy ===== *)
theory Ownership
  imports System
begin

text \<open>
  Whose rows a request can change. A row of an owner is spared when it stays as it is; the operations
  that a handler calls for a user spare the rows of every other owner, and so does a request that
  gets past the authentication as that user, or past no authentication at all.
\<close>

definition spared :: "('r \<Rightarrow> string) \<Rightarrow> string \<Rightarrow> 'r \<Rightarrow> 'r \<Rightarrow> bool" where
  "spared own u r r' \<longleftrightarrow> own r' = own r \<and> (own r = u \<longrightarrow> r' = r)"

interpretation spare: row_order "spared own u" for own :: "'r \<Rightarrow> string" and u :: string
  by unfold_locales (auto simp: spared_def)

text \<open>
  An operation that lets the rows develop without a change of owner, that touches the row \<open>k\<close> only,
  and that leaves it alone when its owner is \<open>u\<close>, spares the rows of \<open>u\<close>.
\<close>

lemma stays_spared:
  assumes dev: "stays (develops invar view E) m" and own: "\<And>r r'. E r r' \<Longrightarrow> own r' = own r"
    and touch: "stays (touches invar view k) m"
    and other: "\<And>w q w' r. invar w \<Longrightarrow> m w = (q, w') \<Longrightarrow> view w k = Some r \<Longrightarrow> own r = u \<Longrightarrow> view w' = view w"
  shows "stays (develops invar view (spared own u)) m"
  unfolding stays_def
proof
  fix w
  obtain q w' where run: "m w = (q, w')" by (cases "m w")
  have "\<exists>r'. view w' j = Some r' \<and> spared own u r r'" if inv: "invar w" and at: "view w j = Some r" for j r
  proof -
    from staysD [OF dev run] inv at obtain r' where r': "view w' j = Some r'" "E r r'"
      by (auto simp: develops_def)
    moreover have "r' = r" if "own r = u"
      using other [OF inv run] staysD [OF touch run] inv at r' that
      by (cases "j = k") (auto simp: touches_def)
    ultimately show ?thesis using own by (auto simp: spared_def)
  qed
  with run staysD [OF dev run] show "develops invar view (spared own u) w (snd (m w))"
    by (simp add: develops_def)
qed

abbreviation rooms_spared :: "string \<Rightarrow> 'e world \<Rightarrow> 'e world \<Rightarrow> bool" where
  "rooms_spared u \<equiv> develops world_ok room_row (spared room_OwnerUserID u)"

abbreviation media_spared :: "string \<Rightarrow> 'e world \<Rightarrow> 'e world \<Rightarrow> bool" where
  "media_spared u \<equiv> develops world_ok media_row (spared media_OwnerUserID u)"

interpretation rooms_spare: data_frame "rooms_spared u" for u
  by (rule data_frameI [OF spare.develops_order]) (simp add: develops_same_db spared_def)

interpretation media_spare: data_frame "media_spared u" for u
  by (rule data_frameI [OF spare.develops_order]) (simp add: develops_same_db spared_def)

subsection \<open>The operations for a user\<close>

context room_service
begin

lemma touches_endRoom: "stays (touches invar room_at (room_ID room)) (endRoom s room)"
  unfolding endRoom_def
  by (intro touch.stays_if touch.stays_bind touch.stays_ret touches_update [OF rooms.EndRoom_law]
      touches_quiet clock_quiet lk_delete_quiet)

lemma touches_owner_ops:
  "stays (touches invar room_at i) (EndRoomByOwner s i v)"
  "stays (touches invar room_at i) (UpdateRoomState s i v mode m)"
proof -
  have at: "room_ID room = i" if "invar w" "rr_GetRoomByID (rs_rooms s) i w = (Inr room, w')" for room w w'
    using rooms.GetRoomByID_Inr [OF that] rooms.room_at_ID [OF that(1)] by blast
  have "stays (quiet invar room_at) (next_media s v mode m)"
    unfolding next_media_def
    by (intro calm.stays_if calm.stays_ret calm.stays_fail calm.stays_case_option calm.stays_bind get_media_quiet)
  then show "stays (touches invar room_at i) (UpdateRoomState s i v mode m)"
    unfolding UpdateRoomState_def
    by (intro touch.stays_if touch.stays_fail touch.stays_bind touches_update [OF rooms.UpdateRoomMedia_law]
        touches_quiet rooms.GetRoomByID_quiet)
  show "stays (touches invar room_at i) (EndRoomByOwner s i v)"
    unfolding EndRoomByOwner_def
  proof (rule touch.stays_bind_from [where I = invar])
    show "stays (touches invar room_at i) (if room_OwnerUserID room \<noteq> v then failP ErrRoomForbidden else endRoom s room)"
      if "invar w" "rr_GetRoomByID (rs_rooms s) i w = (Inr room, w')" for room w w'
      using touches_endRoom [of room] at [OF that] by (simp add: touch.stays_fail)
  qed (simp_all add: touches_quiet rooms.GetRoomByID_quiet touches_def)
qed

lemma UpdateRoomState_owner_only:
  assumes inv: "invar w" and run: "UpdateRoomState s i v mode m w = (q, w')"
    and other: "\<And>room. room_at w i = Some room \<Longrightarrow> room_OwnerUserID room \<noteq> v"
  shows "room_at w' = room_at w"
proof -
  obtain g w1 where g: "rr_GetRoomByID (rs_rooms s) i w = (g, w1)"
    by (cases "rr_GetRoomByID (rs_rooms s) i w")
  from run g have "w' = w1"
    using rooms.GetRoomByID_Inr [OF inv] other
    by (cases g) (auto simp: UpdateRoomState_def bindP_def failP_def split: if_splits)
  with GetRoomByID_same [OF inv g] show ?thesis by simp
qed

lemma owner_ops_spare:
  assumes "v \<noteq> u"
  shows "stays (develops invar room_at (spared room_OwnerUserID u)) (EndRoomByOwner s i v)"
    "stays (develops invar room_at (spared room_OwnerUserID u)) (UpdateRoomState s i v mode m)"
proof -
  note spared = stays_spared [where own = room_OwnerUserID and u = u and view = room_at and k = i]
  show "stays (develops invar room_at (spared room_OwnerUserID u)) (EndRoomByOwner s i v)"
  proof (rule spared [OF evolves_operations(5) [unfolded evolves_def] _ touches_owner_ops(1)])
    show "room_at w' = room_at w" if "invar w" "EndRoomByOwner s i v w = (q, w')" "room_at w i = Some r"
      "room_OwnerUserID r = u" for w q w' r
      using EndRoomByOwner_owner_only [OF that(1,2)] that(3,4) assms by auto
  qed (simp add: room_evolves_def)
  show "stays (develops invar room_at (spared room_OwnerUserID u)) (UpdateRoomState s i v mode m)"
  proof (rule spared [OF evolves_operations(4) [unfolded evolves_def] _ touches_owner_ops(2)])
    show "room_at w' = room_at w" if "invar w" "UpdateRoomState s i v mode m w = (q, w')" "room_at w i = Some r"
      "room_OwnerUserID r = u" for w q w' r
      using UpdateRoomState_owner_only [OF that(1,2)] that(3,4) assms by auto
  qed (simp add: room_evolves_def)
qed

end

context media_upload
begin

lemma owner_ops_spare:
  assumes "v \<noteq> u"
  shows "stays (develops invar media_at (spared media_OwnerUserID u))
      (CompleteUpload s \<lparr>cu_OwnerUserID = v, cu_MediaID = i\<rparr>)"
    "stays (develops invar media_at (spared media_OwnerUserID u)) (DeleteMedia fuel s v i)"
proof -
  note spared = stays_spared [where own = media_OwnerUserID and u = u and view = media_at and k = i]
  let ?in = "\<lparr>cu_OwnerUserID = v, cu_MediaID = i\<rparr>"
  have touch: "stays (touches invar media_at i) (CompleteUpload s ?in)" using touches_upload(1) [of ?in] by simp
  show "stays (develops invar media_at (spared media_OwnerUserID u)) (CompleteUpload s ?in)"
  proof (rule spared [OF grows_upload(2) _ touch])
    show "media_at w' = media_at w" if "invar w" "CompleteUpload s ?in w = (q, w')" "media_at w i = Some r"
      "media_OwnerUserID r = u" for w q w' r
      using owner_only(1) [OF that(1,3) _ that(2)] that(4) assms by auto
  qed (simp add: media_evolves_def)
  show "stays (develops invar media_at (spared media_OwnerUserID u)) (DeleteMedia fuel s v i)"
  proof (rule spared [OF grows_upload(3) _ touches_upload(2)])
    show "media_at w' = media_at w" if "invar w" "DeleteMedia fuel s v i w = (q, w')" "media_at w i = Some r"
      "media_OwnerUserID r = u" for w q w' r
      using owner_only(2) [OF that(1,3) _ that(2)] that(4) assms by auto
  qed (simp add: media_evolves_def)
qed

end

subsection \<open>The requests\<close>

lemma Create_inserts:
  "world_ok w \<Longrightarrow> mr_Create (NewPostgresMediaRepository pool) m w = (r, w') \<Longrightarrow>
    world_ok w' \<and> (media_row w' = media_row w \<or>
      (\<exists>k r'. media_row w k = None \<and> media_row w' = (media_row w)(k \<mapsto> r')))"
  using pg_media.Create_Inr [of w pool m] pg_media.Create_Inl [of w pool m]
  by (cases r) blast+

lemma spared_repos:
  fixes u :: string
  shows "rooms_open (rooms_spared u) (NewPostgresRoomRepository pool)"
    "media_open (media_spared u) (NewPostgresMediaRepository pool)"
    "media_in (rooms_spared u) (NewPostgresMediaRepository pool)"
    "rooms_in (media_spared u) (NewPostgresRoomRepository pool)"
    "users_in (rooms_spared u) (NewPostgresUserRepository pool)" "users_in (media_spared u) (NewPostgresUserRepository pool)"
    "sessions_in (rooms_spared u) (NewPostgresSessionRepository pool)"
    "sessions_in (media_spared u) (NewPostgresSessionRepository pool)"
proof -
  have views: "rooms_tbl d' = rooms_tbl d \<Longrightarrow> room_view d' = room_view d"
    "media_tbl d' = media_tbl d \<Longrightarrow> media_view d' = media_view d" for d d' :: db
    by (simp_all add: room_view_def media_view_def fun_eq_iff)
  note rooms = other_in [where T = rooms_tbl and u = room_view and F = "spared room_OwnerUserID u", OF views(1) spare.E_refl]
  note media = other_in [where T = media_tbl and u = media_view and F = "spared media_OwnerUserID u", OF views(2) spare.E_refl]
  show "media_in (rooms_spared u) (NewPostgresMediaRepository pool)"
    "users_in (rooms_spared u) (NewPostgresUserRepository pool)"
    "sessions_in (rooms_spared u) (NewPostgresSessionRepository pool)" by (rule rooms; simp)+
  show "rooms_in (media_spared u) (NewPostgresRoomRepository pool)"
    "users_in (media_spared u) (NewPostgresUserRepository pool)"
    "sessions_in (media_spared u) (NewPostgresSessionRepository pool)" by (rule media; simp)+
  show "rooms_open (rooms_spared u) (NewPostgresRoomRepository pool)"
    unfolding rooms_open_def
    by (intro conjI allI spare.develops_insert CreateRoom_inserts
        spare.develops_quiet pg_rooms.GetRoomByID_quiet pg_rooms.ListRoomsByOwner_quiet; assumption)
  show "media_open (media_spared u) (NewPostgresMediaRepository pool)"
    unfolding media_open_def
    by (intro conjI allI spare.develops_insert Create_inserts
        spare.develops_quiet pg_media.GetByID_quiet pg_media.ListByOwner_quiet; assumption)
qed

text \<open>
  The token of a request, if it is accepted when the request arrives, names this user: the request log
  reads the clock first, then the middleware looks at the token.
\<close>

definition signed_in :: "('e, 'q) Router \<Rightarrow> 'q request \<Rightarrow> 'e world \<Rightarrow> string \<Rightarrow> bool" where
  "signed_in ro r w u \<longleftrightarrow>
    (\<exists>claims w1. admitted (ro_crypto ro) (ro_jwt ro) (ro_tokens ro) r (snd (ro_now ro w)) claims w1 \<and>
      claim_Subject claims = u)"

lemma admitted_route:
  "admitted cr jwt ss (r\<lparr>rq_UserID := None, rq_Param := params\<rparr>) = admitted cr jwt ss r"
  by (simp add: admitted_def fun_eq_iff)

text \<open>A request serves as nobody or as the user it is signed in as, whatever route it takes.\<close>

lemma route_request_cases:
  assumes run: "route_request mx ro (r\<lparr>rq_UserID := None\<rparr>) w = (resp, w')"
  obtains "w' = w"
  | "looked_up (ro_crypto ro) (ro_jwt ro) (ro_tokens ro) w w'"
  | ep q where "UserIDFromContext q = []" "endpoint_handler ro ep q w = (resp, w')"
  | ep q claims w1 where "admitted (ro_crypto ro) (ro_jwt ro) (ro_tokens ro) r w claims w1"
      "UserIDFromContext q = claim_Subject claims" "endpoint_handler ro ep q w1 = (resp, w')"
proof (cases "mx_Match mx (map (\<lambda>(m, p, _). (m, p)) routes) (r\<lparr>rq_UserID := None\<rparr>)")
  case (Inl resp')
  with run that(1) show ?thesis by (simp add: route_request_def answer_def)
next
  case (Inr np)
  obtain n params where np: "np = (n, params)" by (cases np)
  show ?thesis
  proof (cases "n < length routes")
    case False
    with run Inr np that(1) show ?thesis by (simp add: route_request_def answer_def)
  next
    case True
    obtain m p auth ep where rt: "routes ! n = (m, p, auth, ep)" by (cases "routes ! n")
    let ?q = "r\<lparr>rq_UserID := None, rq_Param := params\<rparr>"
    from run Inr np True rt have g: "guarded ro auth (endpoint_handler ro ep) ?q w = (resp, w')"
      by (simp add: route_request_def)
    show ?thesis
    proof (cases auth)
      case False
      with g that(3) [of ?q ep] show ?thesis by (simp add: guarded_def UserIDFromContext_def)
    next
      case True
      from g True have "AuthMiddleware (ro_crypto ro) (ro_jwt ro) (Some (ro_tokens ro)) (endpoint_handler ro ep) ?q w = (resp, w')"
        by (simp add: guarded_def)
      from AuthMiddleware_cases [OF this] show ?thesis
      proof (elim disjE exE conjE)
        fix claims w1
        assume "admitted (ro_crypto ro) (ro_jwt ro) (ro_tokens ro) ?q w claims w1"
          "endpoint_handler ro ep (ContextWithUserID ?q (claim_Subject claims)) w1 = (resp, w')"
        then show ?thesis
          by (intro that(4) [of claims w1 "ContextWithUserID ?q (claim_Subject claims)" ep])
            (simp_all add: admitted_route UserIDFromContext_def ContextWithUserID_def)
      qed (rule that(2))
    qed
  qed
qed

context data_frame
begin

lemma in_request:
  assumes S: "\<And>i. stays R (sr_IsAccessRevoked (NewPostgresSessionRepository (pf_pool pf)) i)"
    and ro: "ro = router_of pf libs cfg tr"
    and ep: "\<And>ep q. UserIDFromContext q = [] \<or> signed_in ro r w (UserIDFromContext q) \<Longrightarrow>
      serves R (endpoint_handler ro ep q)"
    and run: "ServeHTTP mx ro r w = (out, w')"
  shows "R w w'"
proof (rule ServeHTTP_R [OF _ _ run])
  show "stays R (readP (ro_now ro))" by (simp add: ro router_of_def Let_def in_calls)
  fix resp w2
  let ?w = "snd (ro_now ro w)"
  assume req: "route_request mx ro (r\<lparr>rq_UserID := None\<rparr>) ?w = (resp, w2)"
  have token: "stays R (ParseToken (ro_crypto ro) (ro_jwt ro) t)" for t
    by (simp add: ro router_of_def Let_def in_ParseToken)
  have revoked: "stays R (sr_IsAccessRevoked (ro_tokens ro) i)" for i
    by (simp add: ro router_of_def Let_def S [simplified])
  from req show "R ?w w2"
  proof (cases rule: route_request_cases)
    case 1
    then show ?thesis by (simp add: R_refl)
  next
    case 2
    then show ?thesis by (rule looked_up_R [OF token revoked])
  next
    case (3 ep q)
    with ep show ?thesis by (blast intro: servesD)
  next
    case (4 ep' q claims w1)
    then have "signed_in ro r w (UserIDFromContext q)" by (auto simp: signed_in_def)
    with ep have "R w1 w2" using 4(3) by (blast intro: servesD)
    moreover have "looked_up (ro_crypto ro) (ro_jwt ro) (ro_tokens ro) ?w w1"
      using 4(1) by (fastforce simp: admitted_def looked_up_def split: if_splits)
    ultimately show ?thesis using looked_up_R [OF token revoked] R_trans by blast
  qed
qed

end

lemma spared_endpoint:
  assumes "UserIDFromContext r \<noteq> [] \<Longrightarrow> UserIDFromContext r \<noteq> u"
  shows "serves (rooms_spared u) (endpoint_handler (router_of pf libs cfg tr) ep r)"
    "serves (media_spared u) (endpoint_handler (router_of pf libs cfg tr) ep r)"
proof -
  note ops = upload_service_of_def room_service_of_def auth_service_of_def Let_def
  show "serves (rooms_spared u) (endpoint_handler (router_of pf libs cfg tr) ep r)"
    using rooms_spare.in_upload [OF in_kept [OF spared_repos(3)] refl] assms
      rooms_spare.in_InitUpload [OF in_open(1) [OF spared_repos(3)] refl] rooms_spare.in_auth [OF spared_repos(5,7) refl]
    by (intro rooms_spare.serves_endpoint_as in_reads(1) in_kept spared_repos) (simp_all add: ops pg_room.owner_ops_spare)
  show "serves (media_spared u) (endpoint_handler (router_of pf libs cfg tr) ep r)"
    using media_spare.in_rooms [OF in_reads(2) [OF spared_repos(2)] spared_repos(4) refl] assms
      media_spare.in_InitUpload [OF spared_repos(2) refl] media_spare.in_auth [OF spared_repos(6,8) refl]
    by (intro media_spare.serves_endpoint_as in_open(2) in_reads(2) spared_repos) (simp_all add: ops pg_upload.owner_ops_spare)
qed

lemma ServeHTTP_spared:
  assumes "ServeHTTP mx ro r w = (out, w')" and "ro = router_of pf libs cfg tr" and "\<not> signed_in ro r w u"
  shows "rooms_spared u w w'" "media_spared u w w'"
proof -
  have user: "UserIDFromContext q \<noteq> [] \<Longrightarrow> UserIDFromContext q \<noteq> u"
    if "UserIDFromContext q = [] \<or> signed_in ro r w (UserIDFromContext q)" for q :: "'b request"
    using that assms(3) by auto
  show "rooms_spared u w w'"
    using rooms_spare.in_request [OF sessions_inD(4) [OF spared_repos(7)] assms(2) _ assms(1)] spared_endpoint(1) user assms(2) by blast
  show "media_spared u w w'"
    using media_spare.in_request [OF sessions_inD(4) [OF spared_repos(8)] assms(2) _ assms(1)] spared_endpoint(2) user assms(2) by blast
qed

end
