(* ===== verification/App_Properties.thy ===== *)
theory App_Properties
  imports Ownership Presence_Properties
begin

text \<open>
  The properties of the program as a whole: what stays true of its tables however long it runs, whose
  rows a request can change, which requests are refused, and the configuration it starts with.
\<close>

subsection \<open>A sample program\<close>

definition sample_environ :: environ where
  "sample_environ = [''JWT_SECRET'' \<mapsto> ''s3cret'', ''AWS_S3_BUCKET'' \<mapsto> ''bucket'']"

definition sample_cfg :: Config where
  "sample_cfg = config_of (\<lambda>_. None) sample_environ"

definition sample_startup :: "sample_env startup" where
  "sample_startup = \<lparr>su_Logger = (\<lambda>prod e. (Inr (), e)), su_Pool = (\<lambda>url e. (Inr (), e)),
    su_PgPing = (\<lambda>e. (Inr (), e)), su_RedisPing = (\<lambda>a n e. (Inr (), e)),
    su_LoadDefaultConfig = (\<lambda>region creds e. (Inr (\<lambda>opts. sample_s3), e))\<rparr>"

definition sample_libs :: "unit app_libs" where
  "sample_libs = \<lparr>al_http = \<lparr>hl_Body = (\<lambda>_. Decoded (JObj [(''email'', JStr ''a@x''), (''password'', JStr ''pw'')])),
      hl_Email = (\<lambda>_. True), hl_Local = sample_format, hl_text = sample_text\<rparr>,
    al_playback = sample_json,
    al_state = \<lparr>sj_Marshal = sample_state_Marshal, sj_Unmarshal = sample_state_Unmarshal\<rparr>, al_fuel = 1\<rparr>"

text \<open>Every request goes to the route that ends the room \<open>r1\<close>.\<close>

definition sample_mux :: "unit http_mux" where
  "sample_mux = \<lparr>mx_Cors = (\<lambda>_ _. None), mx_Match = (\<lambda>_ _. Inr (10, \<lambda>_. ''r1''))\<rparr>"

definition sample_request :: "string \<Rightarrow> unit request" where
  "sample_request auth = \<lparr>rq_Method = ''POST'', rq_Path = ''/rooms/r1/end'', rq_Header = (\<lambda>_. auth),
    rq_Cookie = (\<lambda>_. None), rq_TLS = False, rq_Param = (\<lambda>_. []), rq_UserID = None, rq_Raw = ()\<rparr>"

definition sample_router :: "(sample_env, unit) Router" where
  "sample_router = router_of sample_platform sample_libs sample_cfg None"

definition sample_app :: "(sample_env, unit) App" where
  "sample_app = new_app sample_platform sample_libs sample_cfg None"

lemma sample_app_router [simp]: "app_router sample_app = sample_router"
  by (simp add: sample_app_def new_app_def sample_router_def)

lemma sample_cfg_simps:
  "xc_Enabled (cf_Transcoding sample_cfg) = False" "cf_JWTSecret sample_cfg = ''s3cret''"
  by code_simp+

lemma sample_setup: "main_setup sample_platform sample_startup sample_libs sample_cfg w = (Inr sample_app, w)"
proof -
  have "with_s3 sample_s3 sample_platform = sample_platform" by (simp add: with_s3_def sample_platform_def)
  then show ?thesis
    by (cases w) (simp add: main_setup_def NewS3Client_def transcoder_of_def sample_cfg_simps sample_startup_def
        fatal_def mapErrP_def ext_def bindP_def retP_def sample_app_def)
qed

lemma sample_logger: "ext (su_Logger sample_startup p) w = (Inr (), w)"
  by (cases w) (simp add: sample_startup_def ext_def)

lemma sample_app_on: "app_on sample_platform sample_libs sample_cfg sample_app"
  by (simp add: app_on_def sample_app_def new_app_def)

lemma sample_Load: "Load (\<lambda>_. None) () NotExist sample_environ = (Inr sample_cfg, sample_environ)"
proof -
  have "cf_JWTSecret (config_of (\<lambda>_. None) sample_environ) = ''s3cret''"
    using sample_cfg_simps(2) unfolding sample_cfg_def .
  then show ?thesis by (simp add: Load_def loadDotEnv_def Let_def sample_cfg_def)
qed

lemma sample_start_main:
  "jobQueue w = [] \<Longrightarrow> main_start sample_platform sample_startup sample_libs (\<lambda>_. None) () NotExist sample_environ w =
    (Serving sample_app, w)"
  by (cases w) (simp add: main_start_def sample_Load sample_logger sample_setup)

text \<open>A world in which the token \<open>m.jwt\<close> is Mallory's.\<close>

definition sample_tokens :: "sample_env world" where
  "sample_tokens = sample_world\<lparr>env := sample_start\<lparr>se_tokens :=
    [(''m.jwt'', \<lparr>claim_ID = ''m'', claim_Subject = ''mallory'', claim_IssuedAt = 0, claim_ExpiresAt = 0,
       claim_Username = ''mallory''\<rparr>)]\<rparr>\<rparr>"

lemma sample_tokens_ok: "world_ok sample_tokens"
  using sample_world_ok by (simp add: world_ok_def sample_tokens_def)

lemma sample_tokens_rows:
  "room_row sample_tokens ''r1'' = Some sample_hall" "media_row sample_tokens ''film'' = Some sample_film"
  by code_simp+

text \<open>In it, a request with this token is signed in as Mallory, one without a token as nobody.\<close>

lemma sample_signed_in:
  "signed_in sample_router (sample_request ''Bearer m.jwt'') sample_tokens u \<Longrightarrow> u = ''mallory''"
  "\<not> signed_in sample_router (sample_request []) sample_tokens u"
proof -
  have bearer: "bearer_token ''Bearer m.jwt'' = Some ''m.jwt''" "bearer_token [] = None" by code_simp+
  show "\<not> signed_in sample_router (sample_request []) sample_tokens u"
    by (simp add: signed_in_def admitted_def sample_request_def bearer)
  have parse: "fst (ParseToken (ro_crypto sample_router) (ro_jwt sample_router) ''m.jwt'' w) =
      Inr \<lparr>claim_ID = ''m'', claim_Subject = ''mallory'', claim_IssuedAt = 0, claim_ExpiresAt = 0,
        claim_Username = ''mallory''\<rparr>"
    if "env w = env sample_tokens" for w :: "sample_env world"
    using that by (simp add: ParseToken_def sample_router_def router_of_def Let_def ext_crypto_simps ext_def bindP_def
        retP_def sample_platform_def sample_crypto_def sample_tokens_def split: prod.splits)
  have now: "env (snd (ro_now sample_router sample_tokens)) = env sample_tokens"
    by (simp add: sample_router_def router_of_def Let_def ext_read_def sample_platform_def)
  assume "signed_in sample_router (sample_request ''Bearer m.jwt'') sample_tokens u"
  then obtain claims w1 where "ParseToken (ro_crypto sample_router) (ro_jwt sample_router) ''m.jwt''
      (snd (ro_now sample_router sample_tokens)) = (Inr claims, w1)" "claim_Subject claims = u"
    by (auto simp: signed_in_def admitted_def sample_request_def bearer)
  with parse [OF now] show "u = ''mallory''" by auto
qed

subsection \<open>However long it runs\<close>

text \<open>
  C6. However often the program is started, with whatever configuration, and whatever requests, jobs and
  outside events follow each start, in any order: the tables keep their keys and constraints, no row goes
  away, and every row develops: a room keeps its name and owner and stays ended once ended, a media keeps
  its owner and object and stays as it is once deleted, a session never goes back to an older version and
  stays revoked once revoked, and a user does not change.
\<close>

theorem program_invariant:
  assumes "world_ok w0" and "lives pf su libs mx parse x w0 w"
  shows "world_ok w \<and>
    (\<forall>i r. room_row w0 i = Some r \<longrightarrow> (\<exists>r'. room_row w i = Some r' \<and> room_evolves r r')) \<and>
    (\<forall>i m. media_row w0 i = Some m \<longrightarrow> (\<exists>m'. media_row w i = Some m' \<and> media_evolves m m')) \<and>
    (\<forall>i s. sess_row w0 i = Some s \<longrightarrow> (\<exists>s'. sess_row w i = Some s' \<and> sess_evolves s s')) \<and>
    (\<forall>e u. user_row w0 e = Some u \<longrightarrow> user_row w e = Some u)"
  using rooms_dev.lives_in [OF program_develops(1) assms(2)] media_dev_frame.lives_in [OF program_develops(2) assms(2)]
    sessions_dev.lives_in [OF program_develops(3) assms(2)] users_dev.lives_in [OF program_develops(4) assms(2)] assms(1)
  by (simp add: develops_def)

theorem program_invariant_witness:
  "\<exists>r'. room_row (snd (ServeHTTP sample_mux sample_router (sample_request ''Bearer m.jwt'') sample_tokens)) ''r1'' = Some r' \<and>
    room_evolves sample_hall r'"
proof -
  let ?w = "snd (ServeHTTP sample_mux sample_router (sample_request ''Bearer m.jwt'') sample_tokens)"
  have start: "main_start sample_platform sample_startup sample_libs (\<lambda>_. None) () NotExist sample_environ sample_tokens =
      (Serving sample_app, sample_tokens)"
    by (rule sample_start_main) (simp add: sample_tokens_def sample_world_def)
  have "reachable (pf_context sample_platform) sample_mux sample_app sample_tokens ?w"
    by (rule reach_step [OF reach_start step_request]) (simp add: prod_eq_iff)
  from lives_served [OF lives_new start this]
  have "lives sample_platform sample_startup sample_libs sample_mux (\<lambda>_. None) () sample_tokens ?w" .
  from program_invariant [OF sample_tokens_ok this] sample_tokens_rows(1) show ?thesis by blast
qed

subsection \<open>Requests\<close>

lemma same_data_ParseToken: "stays same_data (ParseToken (ext_crypto cr) jwt t)"
  unfolding ParseToken_def ext_crypto_simps by (intro frame_intros same_data_ext)

text \<open>
  C1. A request leaves every room and every media of a user as they are, unless it carries an access
  token that is accepted for this user.
\<close>

theorem ServeHTTP_owner_only:
  assumes "world_ok w" and "app_on pf libs cfg app"
    and "ServeHTTP mx (app_router app) r w = (out, w')" and "\<not> signed_in (app_router app) r w u"
  shows "(\<forall>i room. room_row w i = Some room \<and> room_OwnerUserID room = u \<longrightarrow> room_row w' i = Some room) \<and>
    (\<forall>i m. media_row w i = Some m \<and> media_OwnerUserID m = u \<longrightarrow> media_row w' i = Some m)"
proof -
  from assms(2) have "app_router app = router_of pf libs cfg (app_transcoder app)" by (simp add: app_on_def)
  from ServeHTTP_spared [OF assms(3) this assms(4)] assms(1) show ?thesis
    by (fastforce simp: develops_def spared_def)
qed

theorem ServeHTTP_owner_only_witness:
  "room_row (snd (ServeHTTP sample_mux sample_router (sample_request ''Bearer m.jwt'') sample_tokens)) ''r1'' = Some sample_hall"
proof -
  have "\<not> signed_in (app_router sample_app) (sample_request ''Bearer m.jwt'') sample_tokens ''alice''"
    using sample_signed_in(1) [of "''alice''"] by auto
  from ServeHTTP_owner_only [OF sample_tokens_ok sample_app_on prod.collapse [symmetric] this] sample_tokens_rows(1)
  show ?thesis by (auto simp: sample_hall_def)
qed

text \<open>
  C11. A request for a route that needs a token, but without a token that is accepted, is answered by
  one of the five refusals, which the log line shows too, and changes neither the tables nor the queue.
\<close>

theorem unsigned_request_refused:
  assumes "app_on pf libs cfg app"
    and "mx_Cors mx (corsOptions (ro_corsOrigins (app_router app))) (r\<lparr>rq_UserID := None\<rparr>) = None"
    and "mx_Match mx (map (\<lambda>(m, p, _). (m, p)) routes) (r\<lparr>rq_UserID := None\<rparr>) = Inr (n, params)"
    and "n < length routes" and "routes ! n = (verb, pattern, True, ep)"
    and "\<And>u. \<not> signed_in (app_router app) r w u"
    and "ServeHTTP mx (app_router app) r w = (out, w')"
  shows "\<exists>status code line. out = (RespondError status code, Some line) \<and> (status, code) \<in> refusals \<and>
    ll_status line = status \<and> db w' = db w \<and> jobQueue w' = jobQueue w"
proof -
  let ?ro = "app_router app" and ?q = "r\<lparr>rq_UserID := None, rq_Param := params\<rparr>"
  from assms(1) have ro: "?ro = router_of pf libs cfg (app_transcoder app)" by (simp add: app_on_def)
  from ServeHTTP_run [OF assms(7,2)] obtain resp w2 line where
    route: "route_request mx ?ro (r\<lparr>rq_UserID := None\<rparr>) (snd (ro_now ?ro w)) = (resp, w2)"
    and out: "out = (resp, Some line)" "ll_status line = rs_Status resp" and w': "w' = snd (ro_now ?ro w2)" by blast
  from route assms(3,4,5) have "AuthMiddleware (ro_crypto ?ro) (ro_jwt ?ro) (Some (ro_tokens ?ro))
      (endpoint_handler ?ro ep) ?q (snd (ro_now ?ro w)) = (resp, w2)"
    by (simp add: route_request_def guarded_def)
  from AuthMiddleware_cases [OF this] assms(6) obtain status code where refused: "resp = RespondError status code"
    "(status, code) \<in> refusals" "looked_up (ro_crypto ?ro) (ro_jwt ?ro) (ro_tokens ?ro) (snd (ro_now ?ro w)) w2"
    unfolding signed_in_def admitted_route by blast
  have clock: "same_data v (snd (ro_now ?ro v))" for v
    by (simp add: ro router_of_def Let_def same_data_def ext_read_def split: prod.splits)
  have "stays same_data (ParseToken (ro_crypto ?ro) (ro_jwt ?ro) t)" for t
    by (simp add: ro router_of_def Let_def same_data_ParseToken)
  moreover have "stays same_data (sr_IsAccessRevoked (ro_tokens ?ro) i)" for i
    by (auto simp: ro router_of_def Let_def PostgresSession_IsAccessRevoked_def same_data_def
        intro!: stays_query_row stays_reads auth_reads)
  ultimately have "same_data (snd (ro_now ?ro w)) w2" by (rule data.looked_up_R [OF _ _ refused(3)])
  with clock data.R_trans have "same_data w w'" unfolding w' by blast
  with refused out show ?thesis by (auto simp: same_data_def RespondError_def RespondJSON_def)
qed

theorem unsigned_request_refused_witness:
  "\<exists>status code line. fst (ServeHTTP sample_mux sample_router (sample_request []) sample_tokens) =
      (RespondError status code, Some line) \<and> (status, code) \<in> refusals"
proof -
  have "routes ! 10 = (''POST'', ''/rooms/{id}/end'', True, Ep_EndRoom)" "10 < length routes"
    by (simp_all add: routes_def)
  from unsigned_request_refused [OF sample_app_on _ _ this(2,1) _ prod.collapse [symmetric],
      of sample_mux "sample_request []" "\<lambda>_. ''r1''" sample_tokens] sample_signed_in(2)
  show ?thesis by (auto simp: sample_mux_def)
qed

text \<open>
  C12. A login that is answered with 200 was made with the right password, and sets one cookie, out of
  reach of scripts and kept to TLS when the request came over TLS, with the refresh token of exactly
  one new session of that user: the store holds its hash.
\<close>

theorem Handler_Login_opens_session:
  assumes "world_ok w" and "rs_Status resp = 200"
    and "Handler_Login lib (NewAuthHandler (ext_read (pf_clock pf)) (pg_auth_service pf secret a ttl) jwt) r w = (resp, w')"
  shows "\<exists>c req user i jti now. rs_Cookies resp = [c] \<and> ck_Name c = ''refresh_token'' \<and> ck_HttpOnly c \<and>
    ck_Secure c = rq_TLS r \<and>
    DecodeJSON LoginRequest_fields \<lparr>lq_Email = [], lq_Password = []\<rparr> (hl_Body lib (rq_Raw r)) = Decoded req \<and>
    user_row w (lq_Email req) = Some user \<and>
    bcrypt_Compare (pf_crypto pf) (user_PasswordHash user) (lq_Password req) \<and> sess_row w i = None \<and>
    sess_row w' = (sess_row w)(i \<mapsto> stored_session
      \<lparr>sess_ID = i, sess_UserID = user_ID user, sess_RefreshTokenHash = hashToken (pf_crypto pf) (ck_Value c),
       sess_AccessJTI = jti, sess_Version = 1, sess_IssuedAt = now, sess_ExpiresAt = now + ttl,
       sess_RevokedAt = None\<rparr>)"
proof -
  from Handler_Login_200 [OF assms(3,2)] obtain req result w1 t where
    req: "DecodeJSON LoginRequest_fields \<lparr>lq_Email = [], lq_Password = []\<rparr> (hl_Body lib (rq_Raw r)) = Decoded req"
    and login: "Login (pg_auth_service pf secret a ttl) \<lparr>li_Email = lq_Email req, li_Password = lq_Password req\<rparr> w =
      (Inr result, w1)"
    and t: "ext_read (pf_clock pf) w1 = (t, w')"
    and c: "rs_Cookies resp = [setRefreshCookie r (lr_RefreshToken result) (lr_RefreshTTL result) t]"
    by (auto simp: NewAuthHandler_def)
  have "sess_row w' = sess_row w1" using ext_read_frame [OF t] by simp
  with pg_auth.Login_Inr [OF assms(1) login] req show ?thesis
    by (intro exI [of _ "setRefreshCookie r (lr_RefreshToken result) (lr_RefreshTTL result) t"] exI [of _ req])
      (auto simp: c setRefreshCookie_def refreshCookieName_def hashToken_def)
qed

theorem Handler_Login_opens_session_witness:
  "\<exists>c. rs_Cookies (fst (Handler_Login (al_http sample_libs) (NewAuthHandler (ext_read (pf_clock sample_platform))
      sample_auth (NewJWTService ''secret'' Minute)) (sample_request []) sample_world)) = [c] \<and> ck_HttpOnly c"
proof -
  let ?m = "Handler_Login (al_http sample_libs) (NewAuthHandler (ext_read (pf_clock sample_platform))
      sample_auth (NewJWTService ''secret'' Minute)) (sample_request []) sample_world"
  obtain resp w' where run: "?m = (resp, w')" by (cases ?m)
  have "rs_Status (fst ?m) = 200" by code_simp
  with run have "rs_Status resp = 200" by simp
  from Handler_Login_opens_session [OF sample_world_ok this run [unfolded sample_auth_def]] run
  show ?thesis by auto
qed

subsection \<open>Configuration\<close>

text \<open>
  C13. A program that starts has a secret of its own for its tokens, neither empty nor the placeholder;
  what the environment of the process sets wins over the file; and the origins and media types it
  allows are lists of trimmed, non-empty items that are never empty, whatever the environment holds.
\<close>

theorem Load_checked:
  assumes "Load parse tooLong file en = (Inr cfg, en')"
  shows "cf_JWTSecret cfg \<notin> {[], ''change-me''} \<and> en \<subseteq>\<^sub>m en' \<and>
    (\<forall>s. en ''JWT_SECRET'' = Some s \<and> s \<noteq> [] \<longrightarrow> cf_JWTSecret cfg = s) \<and>
    cf_CORSOrigins cfg \<noteq> [] \<and> (\<forall>x \<in> set (cf_CORSOrigins cfg). x \<noteq> [] \<and> trimmed x) \<and>
    ac_AllowedMIMEs (cf_AWS cfg) \<noteq> [] \<and> (\<forall>x \<in> set (ac_AllowedMIMEs (cf_AWS cfg)). x \<noteq> [] \<and> trimmed x)"
proof -
  from Load_Inr [OF assms] have env: "loadDotEnv tooLong file en = (None, en')"
    and cfg: "cfg = config_of parse en'" and secret: "cf_JWTSecret cfg \<noteq> ''change-me''" by auto
  from loadDotEnv_keeps [OF env] have keeps: "en \<subseteq>\<^sub>m en'" .
  have "cf_JWTSecret cfg = s" if "en ''JWT_SECRET'' = Some s" "s \<noteq> []" for s
    using that map_le_implies_dom_le [OF keeps] keeps
    by (auto simp: cfg config_of_def getenv_def Getenv_def map_le_def dom_def split: option.splits)
  moreover have "cf_JWTSecret cfg \<noteq> []" by (simp add: cfg config_of_def getenv_nonempty)
  moreover have "\<forall>x \<in> set [''http://localhost:5173'', ''http://127.0.0.1:5173'']. x \<noteq> [] \<and> trimmed x"
    "\<forall>x \<in> set [''video/mp4'', ''video/webm'', ''video/quicktime'', ''video/x-msvideo'', ''video/matroska'',
      ''video/x-matroska'']. x \<noteq> [] \<and> trimmed x" by code_simp+
  note lists = this [THEN getenvCSV_items [rotated]]
  moreover have "cf_CORSOrigins cfg \<noteq> [] \<and> (\<forall>x \<in> set (cf_CORSOrigins cfg). x \<noteq> [] \<and> trimmed x)"
    using lists(1) [of en' "''CORS_ALLOWED_ORIGINS''"] by (simp add: cfg config_of_def)
  moreover have "ac_AllowedMIMEs (cf_AWS cfg) \<noteq> [] \<and> (\<forall>x \<in> set (ac_AllowedMIMEs (cf_AWS cfg)). x \<noteq> [] \<and> trimmed x)"
    using lists(2) [of en' "''AWS_S3_ALLOWED_MIME_TYPES''"] by (simp add: cfg config_of_def)
  ultimately show ?thesis using secret keeps by blast
qed

text \<open>An environment with the secret, and a file that would set it and the origins.\<close>

definition sample_dotenv :: "unit dotenv" where
  "sample_dotenv = Contents ''# local
JWT_SECRET=other
CORS_ALLOWED_ORIGINS= http://a , ,http://b'' None"

theorem Load_checked_witness:
  "\<exists>cfg en'. Load (\<lambda>_. None) () sample_dotenv sample_environ = (Inr cfg, en') \<and> cf_JWTSecret cfg = ''s3cret'' \<and>
    cf_CORSOrigins cfg = [''http://a'', ''http://b'']"
proof -
  have "\<not> isl (fst (Load (\<lambda>_. None) () sample_dotenv sample_environ))" by code_simp
  from not_isl [of "Load (\<lambda>_. None) () sample_dotenv" sample_environ, OF this] obtain cfg en' where
    run: "Load (\<lambda>_. None) () sample_dotenv sample_environ = (Inr cfg, en')" by blast
  have "map_option cf_CORSOrigins (case fst (Load (\<lambda>_. None) () sample_dotenv sample_environ) of
      Inl _ \<Rightarrow> None | Inr c \<Rightarrow> Some c) = Some [''http://a'', ''http://b'']" by code_simp
  with run have "cf_CORSOrigins cfg = [''http://a'', ''http://b'']" by simp
  moreover have "sample_environ ''JWT_SECRET'' = Some ''s3cret''" by (simp add: sample_environ_def)
  ultimately show ?thesis using Load_checked [OF run] run by auto
qed

end
