(* ===== verification/Issued.thy ===== *)
theory Issued
  imports System
begin

text \<open>
  The values a running program makes from entropy: the identifiers of media and the hashes of refresh
  tokens. Whatever happens, a value that appears in a table has been there before or is one that the random
  source can yield; so a value it does not yield again never comes back.
\<close>

subsection \<open>Values of a table\<close>

definition issued :: "('w \<Rightarrow> 'k \<Rightarrow> 'r option) \<Rightarrow> ('r \<Rightarrow> 'v) \<Rightarrow> 'w \<Rightarrow> 'v set" where
  "issued view val w = {v. \<exists>k r. view w k = Some r \<and> v = val r}"

definition issues ::
    "('e world \<Rightarrow> 'k \<Rightarrow> 'r option) \<Rightarrow> ('r \<Rightarrow> 'v) \<Rightarrow> 'v set \<Rightarrow> 'e world \<Rightarrow> 'e world \<Rightarrow> bool" where
  "issues view val A w w' \<longleftrightarrow>
    (world_ok w \<longrightarrow> world_ok w' \<and> issued view val w' \<subseteq> issued view val w \<union> A)"

lemma issues_order: "world_order (issues view val A)"
  by unfold_locales (auto simp: issues_def)

abbreviation media_issues :: "string set \<Rightarrow> 'e world \<Rightarrow> 'e world \<Rightarrow> bool" where
  "media_issues \<equiv> issues media_row media_ID"

abbreviation hashes_issue :: "string set \<Rightarrow> 'e world \<Rightarrow> 'e world \<Rightarrow> bool" where
  "hashes_issue \<equiv> issues sess_row sess_RefreshTokenHash"

interpretation media_issue: data_frame "media_issues A" for A
  by (rule data_frameI [OF issues_order]) (simp add: issues_def issued_def world_ok_def)

interpretation hashes_issue: data_frame "hashes_issue A" for A
  by (rule data_frameI [OF issues_order]) (simp add: issues_def issued_def world_ok_def)

lemma issues_quiet: "stays (quiet world_ok view) m \<Longrightarrow> stays (issues view val A) m"
  by (auto simp: stays_def quiet_def issues_def issued_def)

lemma issues_change:
  assumes "world_ok w \<Longrightarrow> world_ok w' \<and> (view w' = view w \<or>
    (\<exists>k r. val r \<in> issued view val w \<union> A \<and> view w' = (view w)(k \<mapsto> r)))"
  shows "issues view val A w w'"
  unfolding issues_def
proof (intro impI conjI subsetI)
  assume ok: "world_ok w"
  with assms show "world_ok w'" by blast
  fix v assume "v \<in> issued view val w'"
  then obtain k r where v: "view w' k = Some r" "v = val r" by (auto simp: issued_def)
  from assms ok consider "view w' = view w"
    | j q where "val q \<in> issued view val w \<union> A" "view w' = (view w)(j \<mapsto> q)" by blast
  then show "v \<in> issued view val w \<union> A"
  proof cases
    case 1
    with v show ?thesis by (auto simp: issued_def)
  next
    case (2 j q)
    with v show ?thesis by (cases "j = k") (auto simp: issued_def)
  qed
qed

lemma issues_update:
  assumes law: "update_law world_ok view k P f missing m"
    and f: "\<And>r. P r \<Longrightarrow> val (f r) = val r \<or> val (f r) \<in> A"
  shows "stays (issues view val A) m"
  unfolding stays_def
proof
  fix w
  obtain r w' where run: "m w = (r, w')" by (cases "m w")
  have "issues view val A w w'"
  proof (cases "world_ok w")
    case True
    show ?thesis
    proof (rule update_law_stays [where R = "issues view val A", OF law _ _ True run])
      show "issues view val A u u'" if "world_ok u" "world_ok u'" "view u' = view u" for u u'
        using that by (intro issues_change) simp
      show "issues view val A u u'" if at: "world_ok u" "world_ok u'" "view u k = Some q" "P q"
          "view u' = (view u)(k \<mapsto> f q)" for u u' q
      proof (rule issues_change)
        from at(3) have "val q \<in> issued view val u" by (auto simp: issued_def)
        with f [OF at(4)] have "val (f q) \<in> issued view val u \<union> A" by auto
        with at(2,5) show "world_ok u' \<and> (view u' = view u \<or>
            (\<exists>k r. val r \<in> issued view val u \<union> A \<and> view u' = (view u)(k \<mapsto> r)))" by blast
      qed
    qed
  qed (simp add: issues_def)
  with run show "issues view val A w (snd (m w))" by simp
qed

lemma issues_insert:
  assumes "\<And>w r w'. world_ok w \<Longrightarrow> m w = (r, w') \<Longrightarrow>
    world_ok w' \<and> (view w' = view w \<or> (\<exists>k r'. val r' \<in> A \<and> view w' = (view w)(k \<mapsto> r')))"
  shows "stays (issues view val A) m"
  unfolding stays_def
proof
  fix w
  obtain r w' where run: "m w = (r, w')" by (cases "m w")
  have "issues view val A w w'" by (rule issues_change) (use assms [OF _ run] in blast)
  with run show "issues view val A w (snd (m w))" by simp
qed

text \<open>A call that leaves the table alone issues nothing in it.\<close>

lemma issues_other:
  assumes "stays (develops world_ok v E) m" "stays (leaves T) m"
    and view: "\<And>d d'. T d' = T d \<Longrightarrow> u d' = u d"
  shows "stays (issues (\<lambda>w. u (db w)) val A) m"
proof (rule stays_weaken [OF stays_both [OF assms(1,2)]])
  fix w w' :: "'a world"
  assume "develops world_ok v E w w' \<and> leaves T w w'"
  then have "world_ok w \<Longrightarrow> world_ok w'" "u (db w') = u (db w)"
    by (auto simp: develops_def unchanged_def intro!: view)
  then show "issues (\<lambda>w. u (db w)) val A w w'" by (simp add: issues_def issued_def)
qed

lemma view_of_table:
  "media_tbl d' = media_tbl d \<Longrightarrow> media_view d' = media_view d"
  "sessions_tbl d' = sessions_tbl d \<Longrightarrow> sess_view d' = sess_view d"
  by (simp_all add: media_view_def sess_view_def fun_eq_iff)

lemma issues_media_other:
  "rooms_in (media_issues A) (NewPostgresRoomRepository pool)"
  "users_in (media_issues A) (NewPostgresUserRepository pool)"
  "sessions_in (media_issues A) (NewPostgresSessionRepository pool)"
proof -
  note other = issues_other [where T = media_tbl and u = media_view, OF _ _ view_of_table(1)]
  have "rooms_in (leaves media_tbl) (NewPostgresRoomRepository pool)"
    "users_in (leaves media_tbl) (NewPostgresUserRepository pool)"
    "sessions_in (leaves media_tbl) (NewPostgresSessionRepository pool)"
    by (rule rooms_leaves users_leaves sessions_leaves; simp)+
  note left = rooms_inD [OF this(1)] users_inD [OF this(2)] sessions_inD [OF this(3)]
  show "rooms_in (media_issues A) (NewPostgresRoomRepository pool)"
    unfolding rooms_in_def by (intro conjI allI; rule other, rule rooms_inD [OF rooms_own], rule left)
  show "users_in (media_issues A) (NewPostgresUserRepository pool)"
    unfolding users_in_def by (intro conjI allI; rule other, rule users_inD [OF users_own], rule left)
  show "sessions_in (media_issues A) (NewPostgresSessionRepository pool)"
    unfolding sessions_in_def by (intro conjI allI; rule other, rule sessions_inD [OF sessions_own], rule left)
qed

lemma issues_hashes_other:
  "rooms_in (hashes_issue A) (NewPostgresRoomRepository pool)"
  "users_in (hashes_issue A) (NewPostgresUserRepository pool)"
  "media_in (hashes_issue A) (NewPostgresMediaRepository pool)"
proof -
  note other = issues_other [where T = sessions_tbl and u = sess_view, OF _ _ view_of_table(2)]
  have "rooms_in (leaves sessions_tbl) (NewPostgresRoomRepository pool)"
    "users_in (leaves sessions_tbl) (NewPostgresUserRepository pool)"
    "media_in (leaves sessions_tbl) (NewPostgresMediaRepository pool)"
    by (rule rooms_leaves users_leaves media_leaves; simp)+
  note left = rooms_inD [OF this(1)] users_inD [OF this(2)] media_inD [OF this(3)]
  show "rooms_in (hashes_issue A) (NewPostgresRoomRepository pool)"
    unfolding rooms_in_def by (intro conjI allI; rule other, rule rooms_inD [OF rooms_own], rule left)
  show "users_in (hashes_issue A) (NewPostgresUserRepository pool)"
    unfolding users_in_def by (intro conjI allI; rule other, rule users_inD [OF users_own], rule left)
  show "media_in (hashes_issue A) (NewPostgresMediaRepository pool)"
    unfolding media_in_def by (intro conjI allI; rule other, rule media_inD [OF media_own], rule left)
qed

subsection \<open>The calls on the table itself\<close>

lemma issues_media_kept: "media_kept (media_issues A) (NewPostgresMediaRepository pool)"
proof -
  let ?M = "NewPostgresMediaRepository pool"
  have "stays (media_issues A) (mr_UpdateUploadState ?M i st sz mime)" for i st sz mime
    by (rule issues_update [OF pg_media.UpdateUploadState_law]) (simp add: set_upload_def)
  moreover have "stays (media_issues A) (mr_UpdateStatus ?M i st)" for i st
    by (rule issues_update [OF pg_media.UpdateStatus_law]) (simp add: set_status_def)
  moreover have "stays (media_issues A) (mr_UpdateTranscodeResult ?M i url p d st)" for i url p d st
    by (rule issues_update [OF pg_media.UpdateTranscodeResult_law]) (simp add: set_transcode_def)
  moreover have "stays (media_issues A) (mr_SoftDelete ?M i t)" for i t
    by (rule issues_update [OF pg_media.SoftDelete_law]) (simp add: set_deleted_def)
  ultimately show ?thesis
    unfolding media_kept_def
    by (intro conjI allI issues_quiet [OF pg_media.GetByID_quiet] issues_quiet [OF pg_media.ListByOwner_quiet]
      issues_quiet [OF pg_media.ListExistingIDs_quiet])
qed

lemma issues_Create:
  assumes "media_ID m \<in> A"
  shows "stays (media_issues A) (mr_Create (NewPostgresMediaRepository pool) m)"
proof (rule issues_insert)
  fix w r w'
  assume "world_ok w" and "mr_Create (NewPostgresMediaRepository pool) m w = (r, w')"
  with assms pg_media.Create_Inr [of w pool m] pg_media.Create_Inl [of w pool m]
  show "world_ok w' \<and> (media_row w' = media_row w \<or>
      (\<exists>k r'. media_ID r' \<in> A \<and> media_row w' = (media_row w)(k \<mapsto> r')))"
    by (cases r) (metis stored_media_simps(1))+
qed

lemma issues_session_calls:
  "stays (hashes_issue A) (sr_GetByRefreshTokenHash (NewPostgresSessionRepository pool) h)"
  "stays (hashes_issue A) (sr_IsAccessRevoked (NewPostgresSessionRepository pool) j)"
  "h \<in> A \<Longrightarrow> stays (hashes_issue A) (sr_Rotate (NewPostgresSessionRepository pool) i j h t u)"
  "sess_RefreshTokenHash s \<in> A \<Longrightarrow> stays (hashes_issue A) (sr_Store (NewPostgresSessionRepository pool) s)"
proof -
  let ?S = "NewPostgresSessionRepository pool"
  show "stays (hashes_issue A) (sr_GetByRefreshTokenHash ?S h)" "stays (hashes_issue A) (sr_IsAccessRevoked ?S j)"
    by (intro issues_quiet pg_sessions.GetByHash_quiet pg_sessions.IsAccessRevoked_quiet)+
  show "h \<in> A \<Longrightarrow> stays (hashes_issue A) (sr_Rotate ?S i j h t u)"
    by (rule issues_update [OF pg_sessions.Rotate_law]) (simp add: rotated_def)
  assume hash: "sess_RefreshTokenHash s \<in> A"
  show "stays (hashes_issue A) (sr_Store ?S s)"
  proof (rule issues_insert)
    fix w r w'
    assume "world_ok w" and "sr_Store ?S s w = (r, w')"
    moreover have "sess_RefreshTokenHash (stored_session s) \<in> A" using hash by (simp add: stored_session_def)
    ultimately show "world_ok w' \<and> (sess_row w' = sess_row w \<or>
        (\<exists>k r'. sess_RefreshTokenHash r' \<in> A \<and> sess_row w' = (sess_row w)(k \<mapsto> r')))"
      using pg_sessions.Store_Inr [of w pool s] pg_sessions.Store_Inl [of w pool s]
      by (cases r) metis+
  qed
qed

subsection \<open>The operations that draw a value\<close>

text \<open>What the random source can yield: identifiers of media, and hashes of refresh tokens.\<close>

definition drawn_ids :: "'e crypto \<Rightarrow> string set" where
  "drawn_ids cr = {''media_'' @ EncodeToString b | b. \<exists>e e'. rand_Read cr 12 e = (Inr b, e')}"

definition drawn_hashes :: "'e crypto \<Rightarrow> string set" where
  "drawn_hashes cr = {hashToken cr (EncodeToString b) | b. \<exists>e e'. rand_Read cr 32 e = (Inr b, e')}"

context world_order
begin

lemma stays_bind_value:
  assumes "stays R m" "\<And>w x w'. m w = (Inr x, w') \<Longrightarrow> P x" "\<And>x. P x \<Longrightarrow> stays R (f x)"
  shows "stays R (bindP m f)"
  by (rule stays_bind_from [where I = "\<lambda>_. True"]) (use assms in auto)

end

lemma issues_InitUpload:
  assumes ids: "drawn_ids (pf_crypto pf) \<subseteq> A" and s_def: "s = pg_upload_service pf c js t b u"
  shows "stays (media_issues A) (InitUpload s inp)"
proof -
  have new: "i \<in> A" if "newMediaID (ext_crypto (pf_crypto pf)) w = (Inr i, w')" for i and w w' :: "'a world"
    using that ids by (auto simp: newMediaID_def prog_simps drawn_ids_def ext_Inr_iff)
  have fresh: "stays (media_issues A) (newMediaID (ext_crypto (pf_crypto pf)))"
    unfolding newMediaID_def ext_crypto_simps
    by (intro media_issue.stays_bind media_issue.stays_mapErr media_issue.stays_ret media_issue.in_calls)
  show ?thesis
    unfolding s_def InitUpload_def Let_def pg_upload_service_simps
    by (intro media_issue.stays_if media_issue.stays_fail media_issue.stays_bind_value [OF fresh new]
        media_issue.stays_bind media_issue.stays_ret media_issue.in_calls issues_Create) simp_all
qed

lemma issues_auth:
  assumes hashes: "drawn_hashes (pf_crypto pf) \<subseteq> A" and s_def: "s = pg_auth_service pf secret a r"
  shows "stays (hashes_issue A) (Login s li)" "stays (hashes_issue A) (Refresh s tok)"
proof -
  let ?cr = "ext_crypto (pf_crypto pf)"
  have new: "snd x \<in> A" if "generateRefreshToken ?cr w = (Inr x, w')" for x and w w' :: "'a world"
    using that hashes
    by (cases x) (auto simp: generateRefreshToken_Inr drawn_hashes_def ext_Inr_iff hashToken_def)
  have fresh: "stays (hashes_issue A) (generateRefreshToken ?cr)"
    unfolding generateRefreshToken_def Let_def ext_crypto_simps
    by (intro hashes_issue.stays_bind hashes_issue.stays_ret hashes_issue.in_calls)
  note draw = hashes_issue.stays_bind_value [OF fresh new]
  note calls = users_inD [OF issues_hashes_other(2)] issues_session_calls hashes_issue.in_calls
  show "stays (hashes_issue A) (Login s li)"
    unfolding s_def Login_def pg_auth_service_simps
    by (intro hashes_issue.stays_if hashes_issue.stays_fail hashes_issue.stays_case_prod draw hashes_issue.stays_bind
        hashes_issue.stays_mapErr hashes_issue.stays_ret hashes_issue.stays_IssueToken calls) (auto simp: calls)
  show "stays (hashes_issue A) (Refresh s tok)"
    unfolding s_def Refresh_def session_over_def pg_auth_service_simps
    by (intro hashes_issue.stays_if hashes_issue.stays_fail hashes_issue.stays_case_prod draw hashes_issue.stays_bind
        hashes_issue.stays_mapErr hashes_issue.stays_ret hashes_issue.stays_IssueToken calls) (auto simp: calls)
qed

subsection \<open>The program\<close>

lemma step_media_issues:
  assumes "drawn_ids (pf_crypto pf) \<subseteq> A" "app_on pf libs cfg app" "app_step cx mx app w w'"
  shows "media_issues A w w'"
proof (rule media_issue.step_in_as [OF _ _ issues_media_kept issues_media_other(1) assms(2,3)])
  note ops = upload_service_of_def room_service_of_def auth_service_of_def Let_def
  note reads = in_reads(1) [OF issues_media_kept]
  show "serves (media_issues A) (endpoint_handler (router_of pf libs cfg (app_transcoder app)) ep q)" for ep q
    using issues_InitUpload [OF assms(1) refl] media_issue.in_auth(2,3) [OF issues_media_other(2,3) refl]
      media_issue.in_rooms [OF reads issues_media_other(1) refl] media_issue.in_upload [OF issues_media_kept refl]
    by (intro media_issue.serves_endpoint_as reads in_open(2) issues_media_other) (simp_all add: ops)
  show "stays (media_issues A) (sr_IsAccessRevoked (NewPostgresSessionRepository (pf_pool pf)) i)" for i
    by (rule sessions_inD(4) [OF issues_media_other(3)])
qed

lemma step_hashes_issue:
  assumes "drawn_hashes (pf_crypto pf) \<subseteq> A" "app_on pf libs cfg app" "app_step cx mx app w w'"
  shows "hashes_issue A w w'"
proof (rule hashes_issue.step_in_as [OF _ issues_session_calls(2) in_kept [OF issues_hashes_other(3)]
      issues_hashes_other(1) assms(2,3)])
  note ops = upload_service_of_def room_service_of_def auth_service_of_def Let_def
  note kept = in_kept [OF issues_hashes_other(3)] note reads = in_reads(1) [OF kept]
  show "serves (hashes_issue A) (endpoint_handler (router_of pf libs cfg (app_transcoder app)) ep q)" for ep q
    using issues_auth [OF assms(1) refl] hashes_issue.in_InitUpload [OF in_open(1) [OF issues_hashes_other(3)] refl]
      hashes_issue.in_rooms [OF reads issues_hashes_other(1) refl] hashes_issue.in_upload [OF kept refl]
    by (intro hashes_issue.serves_endpoint_as reads in_open(2) issues_hashes_other) (simp_all add: ops)
qed

end
