(* ===== verification/Lifetime_Properties.thy ===== *)
theory Lifetime_Properties
  imports App_Properties Auth_Properties Issued
begin

text \<open>
  The properties of a process as a whole: how it begins, and what becomes of the jobs of the one before.
\<close>

subsection \<open>The start\<close>

text \<open>
  C7. How the process begins. It panics when the configuration does not load, or when there is no logger for
  the configured environment. Then it calls its dependencies in turn: the pool for the configured URL, a
  ping of Postgres, a ping of Redis at the configured address and number, the S3 configuration for the
  region and the credentials, and the transcoder, if it is enabled. When one of these calls fails, those
  before it have answered, and the process ends with the message of that call around its error. It serves when
  all of them have answered, with the configuration that was loaded, whose secret is not the default, on a
  client of the object store made with the configured endpoint and style of paths, and with the
  transcoder that was made. In every case no table has changed, and the queue of jobs is empty.
\<close>

theorem main_start_outcome:
  assumes "main_start pf su libs parse x file en w = (s, w')"
  shows "db w' = db w \<and> jobQueue w' = [] \<and>
    (case s of
       Panicked e \<Rightarrow> fst (Load parse x file en) = Inl e \<and> env w' = env w
     | Panicked_logger e \<Rightarrow> \<exists>cfg. fst (Load parse x file en) = Inr cfg \<and>
         su_Logger su (cf_Env cfg = ''prod'') (env w) = (Inl e, env w')
     | Exited e \<Rightarrow> \<exists>cfg e0. fst (Load parse x file en) = Inr cfg \<and>
         su_Logger su (cf_Env cfg = ''prod'') (env w) = (Inr (), e0) \<and>
         (stopped (dependencies su cfg) e e0 (env w') \<or>
          (\<exists>e1. answered (dependencies su cfg) e0 e1 \<and>
            ((\<exists>cause. client_call su cfg e1 = (Inl cause, env w') \<and> e = Wrap ''storage init'' cause) \<or>
             (\<exists>new e2 cause. client_call su cfg e1 = (Inr new, e2) \<and> xc_Enabled (cf_Transcoding cfg) \<and>
                transcoder_of (with_s3 (new (clientOpts (storage_of cfg))) pf) cfg (w\<lparr>jobQueue := [], env := e2\<rparr>) =
                  (Inl cause, w') \<and> e = Wrap ''transcoder init'' cause))))
     | Serving app \<Rightarrow> \<exists>cfg e0 e1 new e2. fst (Load parse x file en) = Inr cfg \<and>
         cf_JWTSecret cfg \<noteq> ''change-me'' \<and> su_Logger su (cf_Env cfg = ''prod'') (env w) = (Inr (), e0) \<and>
         answered (dependencies su cfg) e0 e1 \<and> client_call su cfg e1 = (Inr new, e2) \<and>
         transcoder_of (with_s3 (new (clientOpts (storage_of cfg))) pf) cfg (w\<lparr>jobQueue := [], env := e2\<rparr>) =
           (Inr (app_transcoder app), w') \<and>
         app_on (with_s3 (new (clientOpts (storage_of cfg))) pf) libs cfg app \<and>
         hs_Addr (app_server app) = cf_HTTPAddr cfg \<and>
         (app_transcoder app \<noteq> None \<longleftrightarrow> xc_Enabled (cf_Transcoding cfg)))"
proof -
  have same: "db w' = db w \<and> jobQueue w' = []" by (rule main_start_same [OF assms])
  obtain l en' where load: "Load parse x file en = (l, en')" by fastforce
  show ?thesis
  proof (cases l)
    case (Inl e)
    with assms load have "s = Panicked e" "w' = w\<lparr>jobQueue := []\<rparr>" by (simp_all add: main_start_def Let_def)
    with same load Inl show ?thesis by simp
  next
    case (Inr cfg)
    obtain g e0 where logger: "su_Logger su (cf_Env cfg = ''prod'') (env w) = (g, e0)" by fastforce
    let ?w = "w\<lparr>jobQueue := [], env := e0\<rparr>"
    show ?thesis
    proof (cases g)
      case (Inl e)
      with assms load Inr logger have "s = Panicked_logger e" "env w' = e0"
        by (auto simp: main_start_def Let_def ext_def)
      with same load Inr logger Inl show ?thesis by simp
    next
      case g_Inr: (Inr u)
      obtain r w1 where r: "main_setup pf su libs cfg ?w = (r, w1)" by fastforce
      have s: "s = (case r of Inl e \<Rightarrow> Exited e | Inr app \<Rightarrow> Serving app)" "w' = w1"
        using assms load Inr logger g_Inr r by (auto simp: main_start_def Let_def ext_def split: sum.splits)
      from r show ?thesis
      proof (cases rule: main_setup_cases)
        case (dependency e)
        with s have "s = Exited e" by simp
        with dependency s same load Inr logger g_Inr show ?thesis by auto
      next
        case (storage e1 cause)
        with s have "s = Exited (Wrap ''storage init'' cause)" by simp
        with storage s same load Inr logger g_Inr show ?thesis by auto
      next
        case (transcoder e1 new e2 cause)
        then have "xc_Enabled (cf_Transcoding cfg)"
          by (auto simp: transcoder_of_def Let_def prog_simps split: if_splits)
        moreover from transcoder s have "s = Exited (Wrap ''transcoder init'' cause)" by simp
        ultimately show ?thesis using transcoder s same load Inr logger g_Inr by simp blast
      next
        case (ready e1 new e2 tr)
        let ?pf = "with_s3 (new (clientOpts (storage_of cfg))) pf"
        let ?app = "new_app ?pf libs cfg tr"
        from transcoder_of_app_on [OF ready(4) refl] have on: "app_on ?pf libs cfg ?app" "app_transcoder ?app = tr"
          "tr \<noteq> None \<longleftrightarrow> xc_Enabled (cf_Transcoding cfg)" by auto
        from load Inr have "Load parse x file en = (Inr cfg, en')" by simp
        from Load_Inr [OF this] have "cf_JWTSecret cfg \<noteq> ''change-me''" by auto
        moreover from ready s have "s = Serving ?app" by simp
        ultimately show ?thesis using on ready s same load Inr logger g_Inr by (simp add: new_app_Addr) blast
      qed
    qed
  qed
qed

theorem main_start_outcome_witness:
  "(\<exists>client. app_on (with_s3 client sample_platform) sample_libs sample_cfg sample_app) \<and>
    cf_JWTSecret sample_cfg \<noteq> ''change-me'' \<and> (\<exists>e e'. answered (dependencies sample_startup sample_cfg) e e')"
proof -
  have "jobQueue sample_tokens = []" by (simp add: sample_tokens_def sample_world_def)
  from main_start_outcome [OF sample_start_main [OF this]] show ?thesis by (auto simp: sample_Load)
qed

subsection \<open>A restart\<close>

text \<open>What a process does without a request: its jobs, while the world outside moves on.\<close>

inductive job_step :: "'e cancel_context \<Rightarrow> ('e, 'q) App \<Rightarrow> 'e world \<Rightarrow> 'e world \<Rightarrow> bool"
  for cx :: "'e cancel_context" and app :: "('e, 'q) App"
where
  job_worker: "app_transcoder app = Some s \<Longrightarrow> worker_step s (ext_context cx) w = (res, w') \<Longrightarrow> job_step cx app w w'"
| job_cleanup: "RunDaily_tick fuel order (app_cleanup app) w = (res, w') \<Longrightarrow> job_step cx app w w'"
| job_stale: "stale_closer_tick (app_rooms app) (fst (stale_closer_args (24 * Hour) Hour)) w = (res, w') \<Longrightarrow>
    job_step cx app w w'"
| job_outside: "job_step cx app w (w\<lparr>env := e\<rparr>)"

inductive idle :: "'e cancel_context \<Rightarrow> ('e, 'q) App \<Rightarrow> 'e world \<Rightarrow> 'e world \<Rightarrow> bool"
  for cx :: "'e cancel_context" and app :: "('e, 'q) App" and w0 :: "'e world"
where
  idle_start: "idle cx app w0 w0"
| idle_step: "idle cx app w0 w \<Longrightarrow> job_step cx app w w' \<Longrightarrow> idle cx app w0 w'"

lemma job_step_app_step: "job_step cx app w w' \<Longrightarrow> app_step cx mx app w w'"
  by (induction rule: job_step.induct) (rule app_step.intros; assumption)+

lemma idle_reachable: "idle cx app w w' \<Longrightarrow> reachable cx mx app w w'"
  by (induction rule: idle.induct) (blast intro: reachable.intros job_step_app_step)+

text \<open>The clean-up and the job that ends rooms write no media and queue nothing.\<close>

abbreviation media_waits :: "'e world \<Rightarrow> 'e world \<Rightarrow> bool" where
  "media_waits \<equiv> unchanged (\<lambda>w. (jobQueue w, media_tbl (db w)))"

interpretation waiting: outer_frame media_waits
  by (rule outer_frameI [OF same.world_order_axioms]) (simp add: unchanged_def same_data_def)

lemma queue_stmt:
  "stays (unchanged jobQueue) (run_stmt pool st)" "stays (unchanged jobQueue) (query_row pool st)"
  "stays (unchanged jobQueue) (mapErrP f (query_row pool st))" "stays (unchanged jobQueue) (exec_affecting pool st)"
proof -
  show run: "stays (unchanged jobQueue) (run_stmt pool st)"
    by (rule stays_run_stmt) (simp_all add: unchanged_def)
  show "stays (unchanged jobQueue) (query_row pool st)" "stays (unchanged jobQueue) (mapErrP f (query_row pool st))"
    "stays (unchanged jobQueue) (exec_affecting pool st)"
    by (intro stays_query_row run)+
qed

lemma queue_rooms: "rooms_in (unchanged jobQueue) (NewPostgresRoomRepository pool)"
  unfolding rooms_in_def NewPostgresRoomRepository_simps PostgresRoom_CreateRoom_def
    PostgresRoom_ListRoomsByOwner_def PostgresRoom_ListActiveRooms_def PostgresRoom_GetRoomByID_def
    PostgresRoom_UpdateRoomMedia_def PostgresRoom_EndRoom_def
  by (intro conjI allI queue_stmt)

lemma waits_both:
  assumes "stays (unchanged jobQueue) m" "stays (leaves media_tbl) m"
  shows "stays media_waits m"
  by (rule stays_weaken [OF stays_both [OF assms]]) (simp add: unchanged_def)

lemma waits_repos:
  "rooms_in media_waits (NewPostgresRoomRepository pool)"
  "stays media_waits (mr_ListExistingIDs (NewPostgresMediaRepository pool) ids)"
proof -
  have "rooms_in (leaves media_tbl) (NewPostgresRoomRepository pool)" by (rule rooms_leaves) simp
  with queue_rooms [of pool] show "rooms_in media_waits (NewPostgresRoomRepository pool)"
    unfolding rooms_in_def by (blast intro: waits_both)
  have "stmt_leaves media_tbl (media_existing ids)" by (simp add: stmt_leaves_def media_existing_def)
  then show "stays media_waits (mr_ListExistingIDs (NewPostgresMediaRepository pool) ids)"
    unfolding NewPostgresMediaRepository_simps PostgresMedia_ListExistingIDs_def
    by (intro same.stays_if same.stays_ret waits_both queue_stmt leaves_stmt)
qed

lemma idle_waits:
  assumes "app_on pf libs cfg app" "idle cx app w w'" "jobQueue w = []"
  shows "media_waits w w'"
  using assms(2)
proof (induction rule: idle.induct)
  case idle_start
  show ?case by (simp add: unchanged_def)
next
  case (idle_step v v')
  from assms(1) have app: "app_rooms app = room_service_of pf cfg" "app_cleanup app = pg_cleanup_service pf (storage_of cfg) 0 0"
    by (simp_all add: app_on_def)
  from idle_step.IH assms(3) have empty: "jobQueue v = []" by (simp add: unchanged_def)
  have cleanup: "stays media_waits (RunDaily_tick fuel order (app_cleanup app))" for fuel order
    unfolding RunDaily_tick_def app
    by (intro same.stays_bind same.stays_attempt same.stays_ret waiting.in_RunOnce waits_repos(2))
  have stale: "stays media_waits (stale_closer_tick (app_rooms app) d)" for d
    unfolding stale_closer_tick_def app room_service_of_def Let_def
    by (intro same.stays_bind same.stays_attempt same.stays_ret waiting.in_stale [OF waits_repos(1) refl])
  from idle_step.hyps(2) have "media_waits v v'"
    by (cases rule: job_step.cases)
      (auto simp: worker_step_def empty unchanged_def dest: staysD [OF cleanup] staysD [OF stale])
  with idle_step.IH show ?case by (simp add: unchanged_def)
qed

text \<open>
  C8. The queue of the transcoder is lost with its process: after a restart no job touches a media, so one
  that was waiting or being processed stays so, with no job that would settle it, until a request for it
  comes.
\<close>

theorem restart_strands_jobs:
  assumes "main_start pf su libs parse x file en w = (Serving app, w1)" and "idle (pf_context pf) app w1 w2"
  shows "jobQueue w2 = [] \<and> media_row w2 = media_row w"
proof -
  from assms(1) obtain client cfg where "app_on (with_s3 client pf) libs cfg app" by (rule main_start_on)
  from idle_waits [OF this assms(2)] main_start_same [OF assms(1)] show ?thesis
    by (simp add: unchanged_def media_view_def fun_eq_iff)
qed

theorem restart_strands_jobs_witness:
  "media_row (snd (RunDaily_tick 1 id (app_cleanup sample_app) sample_tokens)) ''film'' = Some sample_film"
proof -
  let ?w = "sample_tokens\<lparr>jobQueue := [''film'']\<rparr>"
  let ?w2 = "snd (RunDaily_tick 1 id (app_cleanup sample_app) sample_tokens)"
  have "jobQueue sample_tokens = []" by (simp add: sample_tokens_def sample_world_def)
  then have start: "main_start sample_platform sample_startup sample_libs (\<lambda>_. None) () NotExist sample_environ ?w =
      (Serving sample_app, sample_tokens)"
    by (simp add: main_start_def sample_Load sample_logger sample_setup)
  obtain res where "RunDaily_tick 1 id (app_cleanup sample_app) sample_tokens = (res, ?w2)" by (metis prod.collapse)
  from idle_step [OF idle_start job_cleanup [OF this]] restart_strands_jobs [OF start]
  have "media_row ?w2 = media_row ?w" by blast
  with sample_tokens_rows(2) show ?thesis by (simp add: media_view_def)
qed

subsection \<open>A spent token\<close>




end
