(* ===== verification/Threads.thy ===== *)
theory Threads
  imports Go_Effects
begin

text \<open>
  Functions that run beside others. A thread is a function cut at the calls another thread may come
  between: a step changes the state and goes on with what the state made of it. Run without
  interruption it is the function; a schedule runs several of them step by step, with changes from
  outside in between. What a thread does under interference is stated as rely and guarantee.
\<close>

datatype ('w, 'a) thread =
    Done "err + 'a"
  | Step "'w \<Rightarrow> 'w" "'w \<Rightarrow> ('w, 'a) thread"

primrec run :: "('w, 'a) thread \<Rightarrow> ('w, 'a) prog" where
  "run (Done r) = (\<lambda>w. (r, w))"
| "run (Step f k) = (\<lambda>w. run (k w) (f w))"

text \<open>One call in one step, and one thread after another.\<close>

definition atomic :: "('w, 'a) prog \<Rightarrow> ('w, 'a) thread" where
  "atomic m = Step (\<lambda>w. snd (m w)) (\<lambda>w. Done (fst (m w)))"

primrec bindT :: "('w, 'a) thread \<Rightarrow> ('a \<Rightarrow> ('w, 'b) thread) \<Rightarrow> ('w, 'b) thread" where
  "bindT (Done r) g = (case r of Inl e \<Rightarrow> Done (Inl e) | Inr x \<Rightarrow> g x)"
| "bindT (Step f k) g = Step f (\<lambda>w. bindT (k w) g)"

text \<open>A thread whose error is a value.\<close>

primrec attemptT :: "('w, 'a) thread \<Rightarrow> ('w, err + 'a) thread" where
  "attemptT (Done r) = Done (Inr r)"
| "attemptT (Step f k) = Step f (\<lambda>w. attemptT (k w))"

abbreviation retT :: "'a \<Rightarrow> ('w, 'a) thread" where
  "retT x \<equiv> Done (Inr x)"

abbreviation failT :: "err \<Rightarrow> ('w, 'a) thread" where
  "failT e \<equiv> Done (Inl e)"

lemma run_atomic [simp]: "run (atomic m) = m"
  by (simp add: atomic_def run.simps)

lemma run_ret [simp]: "run (retT x) = retP x" "run (failT e) = failP e"
  by (simp_all add: run.simps retP_def failP_def fun_eq_iff)

declare run.simps(1) [simp del]

lemma run_bindT [simp]: "run (bindT t g) = bindP (run t) (\<lambda>x. run (g x))"
  by (induction t) (auto simp: run.simps bindP_def fun_eq_iff split: sum.splits prod.splits)

lemma run_attemptT [simp]: "run (attemptT t) = attemptP (run t)"
  by (induction t) (auto simp: run.simps attemptP_def fun_eq_iff split: prod.splits)

lemma run_cases [simp]:
  "run (case x of (a, b) \<Rightarrow> t a b) = (case x of (a, b) \<Rightarrow> run (t a b))"
  "run (case r of Inl e \<Rightarrow> u e | Inr y \<Rightarrow> v y) = (case r of Inl e \<Rightarrow> run (u e) | Inr y \<Rightarrow> run (v y))"
  by (simp_all split: prod.splits sum.splits)

lemma run_if [simp]: "run (if c then t else t') = (if c then run t else run t')"
  by simp

subsection \<open>Schedules\<close>

text \<open>A turn of the thread with this number, if there is one that has not ended, or a change from outside.\<close>

datatype 'w move = Turn nat | Outside "'w \<Rightarrow> 'w"

fun schedule :: "'w move list \<Rightarrow> ('w, 'a) thread list \<Rightarrow> 'w \<Rightarrow> ('w, 'a) thread list \<times> 'w" where
  "schedule [] ts w = (ts, w)"
| "schedule (Outside g # ms) ts w = schedule ms ts (g w)"
| "schedule (Turn i # ms) ts w =
    (if i < length ts
     then (case ts ! i of
             Done r \<Rightarrow> schedule ms ts w
           | Step f k \<Rightarrow> schedule ms (ts[i := k w]) (f w))
     else schedule ms ts w)"

lemma schedule_append:
  "schedule (ms @ ms') ts w = (case schedule ms ts w of (ts', w') \<Rightarrow> schedule ms' ts' w')"
  by (induction ms ts w rule: schedule.induct) (auto split: thread.splits)

lemma schedule_one: "\<exists>t' w'. schedule ms [t] w = ([t'], w')"
proof -
  have "length (fst (schedule ms ts w)) = length ts" for ts :: "('a, 'b) thread list" and w
    by (induction ms ts w rule: schedule.induct) (auto split: thread.splits)
  from this [of "[t]" w] show ?thesis by (cases "schedule ms [t] w") (auto simp: length_Suc_conv)
qed

text \<open>A thread alone, given enough turns, does what the function does.\<close>

lemma schedule_run:
  "\<exists>n. \<forall>m \<ge> n. schedule (replicate m (Turn 0)) [t] w = ([Done (fst (run t w))], snd (run t w))"
proof (induction t arbitrary: w)
  case (Done r)
  have "schedule (replicate m (Turn 0)) [Done r] w = ([Done r], w)" for m by (induction m) auto
  then show ?case by (simp add: run.simps)
next
  case (Step f k)
  from Step.IH [of "k w" "f w"] obtain n where
    n: "schedule (replicate m (Turn 0)) [k w] (f w) = ([Done (fst (run (k w) (f w)))], snd (run (k w) (f w)))"
    if "n \<le> m" for m by auto
  have "schedule (replicate m (Turn 0)) [Step f k] w = ([Done (fst (run (Step f k) w))], snd (run (Step f k) w))"
    if "Suc n \<le> m" for m
    using that n [of "m - 1"] by (cases m) simp_all
  then show ?case by blast
qed

subsection \<open>Rely and guarantee\<close>

text \<open>
  As long as the others change the state by \<open>R\<close> only, every step of the thread is in \<open>S\<close>, and when it
  returns \<open>x\<close>, \<open>P x\<close> holds and stays.
\<close>

primrec safe :: "('w \<Rightarrow> 'w \<Rightarrow> bool) \<Rightarrow> ('w \<Rightarrow> 'w \<Rightarrow> bool) \<Rightarrow> ('a \<Rightarrow> 'w \<Rightarrow> bool) \<Rightarrow> ('w, 'a) thread \<Rightarrow> 'w \<Rightarrow> bool" where
  "safe R S P (Done r) = (\<lambda>w. case r of Inl e \<Rightarrow> True | Inr x \<Rightarrow> (\<forall>w'. R w w' \<longrightarrow> P x w'))"
| "safe R S P (Step f k) = (\<lambda>w. \<forall>w'. R w w' \<longrightarrow> S w' (f w') \<and> safe R S P (k w') (f w'))"

locale interference = rely: world_order R + guar: world_order S
  for R S :: "'w \<Rightarrow> 'w \<Rightarrow> bool" +
  assumes guar_rely: "S w w' \<Longrightarrow> R w w'"
begin

abbreviation holds :: "('a \<Rightarrow> 'w \<Rightarrow> bool) \<Rightarrow> ('w, 'a) thread \<Rightarrow> 'w \<Rightarrow> bool" where
  "holds \<equiv> safe R S"

lemma safe_stable: "holds P t w \<Longrightarrow> R w w' \<Longrightarrow> holds P t w'"
  by (cases t) (auto split: sum.splits intro: rely.R_trans)

lemma safe_ret: "(\<And>w'. R w w' \<Longrightarrow> P x w') \<Longrightarrow> holds P (retT x) w"
  and safe_fail: "holds P (failT e) w"
  by simp_all

lemma safe_bind:
  assumes "holds P t w" "\<And>x w'. R w w' \<Longrightarrow> P x w' \<Longrightarrow> holds Q (g x) w'"
  shows "holds Q (bindT t g) w"
  using assms
proof (induction t arbitrary: w)
  case (Done r)
  then show ?case by (auto split: sum.splits intro: rely.R_refl)
next
  case (Step f k)
  show ?case
    unfolding bindT.simps safe.simps
  proof (intro allI impI conjI)
    fix w'
    assume w': "R w w'"
    with Step.prems(1) have step: "S w' (f w')" "holds P (k w') (f w')" by auto
    from step show "S w' (f w')" by simp
    show "holds Q (bindT (k w') g) (f w')"
    proof (rule Step.IH [OF _ step(2)])
      fix x v
      assume "R (f w') v" "P x v"
      moreover from w' step(1) \<open>R (f w') v\<close> have "R w v" using rely.R_trans guar_rely by blast
      ultimately show "holds Q (g x) v" by (intro Step.prems(2))
    qed auto
  qed
qed

lemma safe_attempt: "holds P t w \<Longrightarrow> holds (\<lambda>_ _. True) (attemptT t) w"
  by (induction t arbitrary: w) (auto split: sum.splits)

lemma safe_mono:
  assumes "holds P t w" "\<And>x w'. R w w' \<Longrightarrow> P x w' \<Longrightarrow> Q x w'"
  shows "holds Q t w"
  using assms
proof (induction t arbitrary: w)
  case (Done r)
  then show ?case by (auto split: sum.splits)
next
  case (Step f k)
  show ?case
    unfolding safe.simps
  proof (intro allI impI conjI)
    fix w'
    assume w': "R w w'"
    with Step.prems(1) have step: "S w' (f w')" "holds P (k w') (f w')" by auto
    from step show "S w' (f w')" by simp
    from w' step(1) have "R w (f w')" using rely.R_trans guar_rely by blast
    then show "holds Q (k w') (f w')"
      by (intro Step.IH [OF _ step(2)]) (blast intro: Step.prems(2) rely.R_trans)+
  qed
qed

lemma safe_atomic:
  assumes "\<And>w' r w''. R w w' \<Longrightarrow> m w' = (r, w'') \<Longrightarrow> S w' w''"
    and "\<And>w' x w'' v. R w w' \<Longrightarrow> m w' = (Inr x, w'') \<Longrightarrow> R w'' v \<Longrightarrow> P x v"
  shows "holds P (atomic m) w"
  unfolding atomic_def safe.simps
proof (intro allI impI conjI)
  fix w'
  assume w': "R w w'"
  obtain r w'' where run: "m w' = (r, w'')" by (cases "m w'")
  from assms(1) [OF w' run] run show "S w' (snd (m w'))" by simp
  show "case fst (m w') of Inl e \<Rightarrow> True | Inr x \<Rightarrow> (\<forall>v. R (snd (m w')) v \<longrightarrow> P x v)"
    using assms(2) [OF w'] run by (cases r) auto
qed

text \<open>A call that keeps the guarantee in every state needs no more.\<close>

lemma safe_call: "stays S m \<Longrightarrow> holds (\<lambda>_ _. True) (atomic m) w"
  by (rule safe_atomic) (auto dest: staysD)

lemma safe_call_bind:
  assumes "stays S m" "\<And>x w'. R w w' \<Longrightarrow> holds Q (g x) w'"
  shows "holds Q (bindT (atomic m) g) w"
  using assms by (intro safe_bind [OF safe_call]) auto

text \<open>Threads that are safe stay so in any schedule, and the state moves by the guarantee.\<close>

lemma schedule_safe:
  assumes "schedule ms ts w = (ts', w')" and "\<forall>t \<in> set ts. holds P t w"
    and "\<And>g v. Outside g \<in> set ms \<Longrightarrow> S v (g v)"
  shows "S w w' \<and> (\<forall>t \<in> set ts'. holds P t w')"
  using assms
proof (induction ms ts w rule: schedule.induct)
  case (1 ts w)
  then show ?case by (auto intro: guar.R_refl)
next
  case (2 g ms ts w)
  have out: "S w (g w)" by (rule 2(4)) simp
  with 2(3) have "\<forall>t \<in> set ts. holds P t (g w)" by (blast intro: safe_stable guar_rely)
  from 2(1) [OF _ this] 2(2,4) out show ?case by (auto intro: guar.R_trans)
next
  case (3 i ms ts w)
  show ?case
  proof (cases "\<exists>f k. i < length ts \<and> ts ! i = Step f k")
    case False
    with 3 show ?thesis by (cases "i < length ts"; cases "ts ! i") auto
  next
    case True
    then obtain f k where i: "i < length ts" "ts ! i = Step f k" by blast
    with 3(5) have "holds P (Step f k) w" by (metis nth_mem)
    then have step: "S w (f w)" "holds P (k w) (f w)" by (auto intro: rely.R_refl)
    have "\<forall>t \<in> set (ts[i := k w]). holds P t (f w)"
      using 3(5) step by (auto dest!: set_update_subset_insert [THEN subsetD] intro: safe_stable guar_rely)
    with 3 i step show ?thesis by (auto intro: guar.R_trans)
  qed
qed

text \<open>
  One thread while the others change the state by \<open>R\<close>: each of its turns is in \<open>S\<close>, whenever it comes.
\<close>

lemma schedule_beside:
  assumes "schedule ms [t] w = ([t'], w')" "holds P t w" "\<And>g v. Outside g \<in> set ms \<Longrightarrow> R v (g v)"
  shows "holds P t' w' \<and> R w w'"
  using assms
proof (induction ms arbitrary: t w)
  case Nil
  then show ?case by (auto intro: rely.R_refl)
next
  case (Cons m ms)
  have IH: "holds P t' w' \<and> R v w'" if "schedule ms [u] v = ([t'], w')" "holds P u v" for u v
    using Cons.IH [OF that] Cons.prems(3) by simp
  show ?case
  proof (cases m)
    case (Outside g)
    with Cons.prems(3) have "R w (g w)" by simp
    with IH [of t "g w"] Cons.prems(1,2) Outside show ?thesis
      by (auto intro: rely.R_trans safe_stable)
  next
    case (Turn i)
    show ?thesis
    proof (cases "i = 0 \<and> (\<exists>f k. t = Step f k)")
      case False
      with Turn Cons.prems(1) have "schedule ms [t] w = ([t'], w')" by (cases t) (auto split: if_splits)
      with IH Cons.prems(2) show ?thesis by blast
    next
      case True
      then obtain f k where t: "i = 0" "t = Step f k" by blast
      with Cons.prems(2) have "S w (f w)" "holds P (k w) (f w)" by (auto intro: rely.R_refl)
      with IH [of "k w" "f w"] Cons.prems(1) Turn t show ?thesis by (auto intro: rely.R_trans guar_rely)
    qed
  qed
qed

lemma turn_in_guarantee:
  assumes "schedule [Turn 0] [t] w = ([t'], w')" "holds P t w"
  shows "S w w'"
  using assms by (cases t) (auto intro: rely.R_refl guar.R_refl)

end

end
