(* ===== verification/Interleaving.thy ===== *)
theory Interleaving
  imports Threads Ownership
begin

text \<open>
  The requests that change rows, cut at every call: several of them may run at once, and a check
  made on a row that was read may no longer hold of the row that is written. A call is one
  step; calls in a row that touch neither the tables nor the queue count as one.
\<close>

subsection \<open>The requests in steps\<close>

definition Refresh_steps :: "'w AuthService \<Rightarrow> string \<Rightarrow> ('w, RefreshResult) thread" where
  "Refresh_steps s refreshToken =
    bindT (atomic (sr_GetByRefreshTokenHash (as_sessions s) (hashToken (as_crypto s) refreshToken))) (\<lambda>session.
    bindT (atomic (session_over s session)) (\<lambda>over.
      if over then failT ErrSessionNotFound
      else bindT (atomic (IssueToken (as_crypto s) (as_clock s) (as_jwt s) (sess_UserID session) [])) (\<lambda>tok.
        bindT (atomic (generateRefreshToken (as_crypto s))) (\<lambda>new.
        bindT (atomic (readP (as_clock s))) (\<lambda>now.
        bindT (atomic (sr_Rotate (as_sessions s) (sess_ID session) (snd tok) (snd new) now
            (now + as_refreshTTL s))) (\<lambda>updated.
          retT \<lparr>rr_UserID = sess_UserID updated, rr_AccessToken = fst tok, rr_RefreshToken = fst new,
            rr_AccessTTL = as_accessTTL s, rr_RefreshTTL = as_refreshTTL s,
            rr_Version = sess_Version updated\<rparr>))))))"

definition endRoom_steps :: "('w, 'q) RoomService \<Rightarrow> Room \<Rightarrow> ('w, Room) thread" where
  "endRoom_steps s room =
    (if room_Status room \<noteq> RoomActive then retT room
     else bindT (atomic (readP (rs_clock s))) (\<lambda>endedAt.
       bindT (atomic (rr_EndRoom (rs_rooms s) (room_ID room) endedAt)) (\<lambda>_.
       bindT (atomic (Client_DeleteRoom (rs_lk s) (room_Name room))) (\<lambda>_.
         retT (room\<lparr>room_Status := RoomEnded, room_EndedAt := Some endedAt\<rparr>)))))"

definition EndRoomByOwner_steps :: "('w, 'q) RoomService \<Rightarrow> string \<Rightarrow> string \<Rightarrow> ('w, Room) thread" where
  "EndRoomByOwner_steps s roomID owner =
    bindT (atomic (rr_GetRoomByID (rs_rooms s) roomID)) (\<lambda>room.
      if room_OwnerUserID room \<noteq> owner then failT ErrRoomForbidden else endRoom_steps s room)"

definition UpdateRoomState_steps ::
    "('w, 'q) RoomService \<Rightarrow> string \<Rightarrow> string \<Rightarrow> string \<Rightarrow> string option \<Rightarrow> ('w, Room) thread" where
  "UpdateRoomState_steps s roomID owner mode mediaID =
    bindT (atomic (rr_GetRoomByID (rs_rooms s) roomID)) (\<lambda>room.
      if room_OwnerUserID room \<noteq> owner then failT ErrRoomForbidden
      else if room_Status room \<noteq> RoomActive then failT ErrRoomEnded
      else bindT (atomic (next_media s owner mode mediaID)) (\<lambda>nextMediaID.
        atomic (rr_UpdateRoomMedia (rs_rooms s) roomID nextMediaID)))"

definition complete_steps ::
    "'e MediaUploadService \<Rightarrow> CompleteUploadInput \<Rightarrow> Media \<Rightarrow> ('e world, CompleteUploadOutput) thread" where
  "complete_steps s inp media =
    (if media_OwnerUserID media \<noteq> cu_OwnerUserID inp then failT ErrForbiddenMedia
     else bindT (atomic (mapErrP (\<lambda>e. if Is e ErrNotFound then ErrUploadedObjectNotFound else e)
          (HeadObject (mu_storage s) (media_StorageKey media)))) (\<lambda>head.
       if oh_ContentLength head \<le> 0 then failT ErrInvalidUploadInput
       else if \<not> isAllowedMime s (oh_ContentType head) then failT ErrInvalidUploadInput
       else bindT (atomic (mr_UpdateUploadState (mu_mediaRepo s) (media_ID media) MediaUploaded
            (oh_ContentLength head) (normalizeMime (mu_text s) (oh_ContentType head)))) (\<lambda>_.
         case mu_transcoder s of
           None \<Rightarrow> retT \<lparr>cuo_MediaID = media_ID media, cuo_Status = MediaUploaded\<rparr>
         | Some t \<Rightarrow> bindT (atomic (mr_UpdateStatus (mu_mediaRepo s) (media_ID media) MediaProcessing)) (\<lambda>_.
             bindT (atomic (attemptP (Enqueue t (media_ID media)))) (\<lambda>r.
               case r of
                 Inl e \<Rightarrow> bindT (atomic (attemptP (mr_UpdateStatus (mu_mediaRepo s) (media_ID media) MediaFailed)))
                   (\<lambda>_. failT e)
               | Inr _ \<Rightarrow> retT \<lparr>cuo_MediaID = media_ID media, cuo_Status = MediaProcessing\<rparr>)))))"

definition CompleteUpload_steps ::
    "'e MediaUploadService \<Rightarrow> CompleteUploadInput \<Rightarrow> ('e world, CompleteUploadOutput) thread" where
  "CompleteUpload_steps s inp =
    (if TrimSpace (cu_OwnerUserID inp) = [] \<or> TrimSpace (cu_MediaID inp) = [] then failT ErrInvalidUploadInput
     else bindT (atomic (mr_GetByID (mu_mediaRepo s) (cu_MediaID inp))) (complete_steps s inp))"

definition delete_steps :: "nat \<Rightarrow> 'e MediaUploadService \<Rightarrow> string \<Rightarrow> string \<Rightarrow> Media \<Rightarrow> ('e world, unit) thread" where
  "delete_steps fuel s ownerUserID mediaID media =
    (if media_OwnerUserID media \<noteq> ownerUserID then failT ErrForbiddenMedia
     else bindT (atomic (mapErrP (\<lambda>e. Wrap (Error ErrStorageDelete @ '': '' @ Error e) ErrStorageDelete)
          (DeleteObjectsByPrefix fuel (mu_storage s)
            (path_Join [''users'', media_OwnerUserID media, ''media'', media_ID media] @ ''/'')))) (\<lambda>_.
       bindT (atomic (readP (mu_clock s))) (\<lambda>now.
       bindT (atomic (mr_SoftDelete (mu_mediaRepo s) (media_ID media) now)) (\<lambda>_.
         case mu_cache s of
           None \<Rightarrow> retT ()
         | Some cache \<Rightarrow> bindT (atomic (attemptP (redis_Del cache (playbackCacheKey mediaID)))) (\<lambda>_. retT ())))))"

definition DeleteMedia_steps :: "nat \<Rightarrow> 'e MediaUploadService \<Rightarrow> string \<Rightarrow> string \<Rightarrow> ('e world, unit) thread" where
  "DeleteMedia_steps fuel s ownerUserID mediaID =
    (if TrimSpace ownerUserID = [] \<or> TrimSpace mediaID = [] then failT ErrInvalidUploadInput
     else bindT (atomic (mr_GetByID (mu_mediaRepo s) mediaID)) (delete_steps fuel s ownerUserID mediaID))"

text \<open>Saving the playback state: reading the current one and writing the next are two calls of Redis.\<close>

definition SaveByHost_steps ::
    "'w RoomPlaybackService \<Rightarrow> string \<Rightarrow> string \<Rightarrow> UpdateRoomPlaybackInput \<Rightarrow> ('w, RoomPlaybackState) thread" where
  "SaveByHost_steps s roomID hostUserID inp =
    bindT (atomic (rr_GetRoomByID (rp_rooms s) roomID)) (\<lambda>room.
      if room_OwnerUserID room \<noteq> hostUserID then failT ErrRoomForbidden
      else if room_Status room \<noteq> RoomActive then failT ErrRoomEnded
      else bindT (atomic (current_state s roomID hostUserID inp)) (\<lambda>current.
        bindT (atomic (readP (rp_clock s))) (\<lambda>now.
          let state = next_state hostUserID inp now current
          in case sj_Marshal (rp_json s) state of
               Inl e \<Rightarrow> failT e
             | Inr payload \<Rightarrow> bindT (atomic (redis_Set (rp_cache s) (stateKey roomID) payload (24 * Hour))) (\<lambda>_.
                 retT state))))"

text \<open>Without interruption, the steps are the methods.\<close>

lemma run_rooms_steps:
  "run (EndRoomByOwner_steps s i v) = EndRoomByOwner s i v"
  "run (UpdateRoomState_steps s i v mode m) = UpdateRoomState s i v mode m"
  by (simp_all add: EndRoomByOwner_steps_def endRoom_steps_def EndRoomByOwner_def endRoom_def
      UpdateRoomState_steps_def UpdateRoomState_def cong: if_cong)

lemma run_Refresh_steps: "run (Refresh_steps s tok) = Refresh s tok"
  by (simp add: Refresh_steps_def Refresh_def split_def cong: if_cong)

lemma run_SaveByHost_steps: "run (SaveByHost_steps s i v inp) = SaveByHost s i v inp"
  by (simp add: SaveByHost_steps_def SaveByHost_def Let_def cong: if_cong sum.case_cong)

lemma run_media_steps:
  "run (CompleteUpload_steps s inp) = CompleteUpload s inp"
  "run (DeleteMedia_steps fuel s v i) = DeleteMedia fuel s v i"
proof -
  have "run (complete_steps s inp m) = complete_found s inp m" for m
    unfolding complete_steps_def complete_found_def
    by (cases "mu_transcoder s") (auto simp: fun_eq_iff bindP_def split: prod.splits sum.splits)
  then show "run (CompleteUpload_steps s inp) = CompleteUpload s inp"
    by (simp add: CompleteUpload_steps_def CompleteUpload_def)
  have "run (delete_steps fuel s v i m) = delete_found fuel s v i m" for m
    unfolding delete_steps_def delete_found_def by (cases "mu_cache s") simp_all
  then show "run (DeleteMedia_steps fuel s v i) = DeleteMedia fuel s v i"
    by (simp add: DeleteMedia_steps_def DeleteMedia_def)
qed

subsection \<open>What the others do, and what a request must not do\<close>

lemma stays_conj: "stays (\<lambda>w w'. R w w' \<and> S w w') m \<longleftrightarrow> stays R m \<and> stays S m"
  by (auto simp: stays_def)

text \<open>Two relations that are both kept are kept together.\<close>

lemma in_conj:
  "media_in R M \<Longrightarrow> media_in S M \<Longrightarrow> media_in (\<lambda>w w'. R w w' \<and> S w w') M"
  "rooms_in R Q \<Longrightarrow> rooms_in S Q \<Longrightarrow> rooms_in (\<lambda>w w'. R w w' \<and> S w w') Q"
  "users_in R U \<Longrightarrow> users_in S U \<Longrightarrow> users_in (\<lambda>w w'. R w w' \<and> S w w') U"
  "sessions_in R N \<Longrightarrow> sessions_in S N \<Longrightarrow> sessions_in (\<lambda>w w'. R w w' \<and> S w w') N"
  "media_open R M \<Longrightarrow> media_open S M \<Longrightarrow> media_open (\<lambda>w w'. R w w' \<and> S w w') M"
  "rooms_open R Q \<Longrightarrow> rooms_open S Q \<Longrightarrow> rooms_open (\<lambda>w w'. R w w' \<and> S w w') Q"
  by (simp_all add: media_in_def rooms_in_def users_in_def sessions_in_def media_open_def rooms_open_def stays_conj)

lemma program_in_conj:
  "program_in R pool \<Longrightarrow> program_in S pool \<Longrightarrow> program_in (\<lambda>w w'. R w w' \<and> S w w') pool"
  by (simp add: program_in_def in_conj)

lemma data_frame_conj: "data_frame R \<Longrightarrow> data_frame S \<Longrightarrow> data_frame (\<lambda>w w'. R w w' \<and> S w w')"
  unfolding data_frame_def outer_frame_def data_frame_axioms_def outer_frame_axioms_def world_frame_def world_order_def by meson

text \<open>Every row of every table develops; and besides, the rooms and media of \<open>u\<close> stay as they are.\<close>

definition evolving :: "'e world \<Rightarrow> 'e world \<Rightarrow> bool" where
  "evolving = (\<lambda>w w'. rooms_develop w w' \<and> media_develop w w' \<and> sessions_develop w w' \<and> users_develop w w')"

definition sparing :: "string \<Rightarrow> 'e world \<Rightarrow> 'e world \<Rightarrow> bool" where
  "sparing u = (\<lambda>w w'. evolving w w' \<and> rooms_spared u w w' \<and> media_spared u w w')"

interpretation evolve: data_frame evolving
  unfolding evolving_def
  by (intro data_frame_conj rooms_dev.data_frame_axioms media_dev_frame.data_frame_axioms
      sessions_dev.data_frame_axioms users_dev.data_frame_axioms)

interpretation sparing: data_frame "sparing u" for u
  unfolding sparing_def
  by (intro data_frame_conj evolve.data_frame_axioms rooms_spare.data_frame_axioms media_spare.data_frame_axioms)

interpretation others: interference evolving "sparing u" for u
  by (intro interference.intro evolve.world_order_axioms sparing.world_order_axioms interference_axioms.intro)
    (simp add: sparing_def)

lemma program_evolving: "program_in evolving pool"
  unfolding evolving_def by (intro program_in_conj program_develops)

lemma sparing_repos:
  "rooms_open (sparing u) (NewPostgresRoomRepository pool)" "media_open (sparing u) (NewPostgresMediaRepository pool)"
  "sessions_in (sparing u) (NewPostgresSessionRepository pool)"
  using program_evolving [of pool] unfolding sparing_def program_in_def
  by (intro in_conj spared_repos in_open(1) [OF spared_repos(3)] in_open(2) [OF spared_repos(4)] in_open; simp)+

lemma evolving_row:
  assumes "evolving w w'" "world_ok w"
  shows "world_ok w'" "room_row w i = Some r \<Longrightarrow> \<exists>r'. room_row w' i = Some r' \<and> room_OwnerUserID r' = room_OwnerUserID r"
    "media_row w i = Some m \<Longrightarrow> \<exists>m'. media_row w' i = Some m' \<and> media_OwnerUserID m' = media_OwnerUserID m"
proof -
  from assms have dev: "rooms_develop w w'" "media_develop w w'" by (simp_all add: evolving_def)
  with assms(2) show "world_ok w'" by (simp add: develops_def)
  from dev(1) assms(2) have "\<exists>r'. room_row w' i = Some r' \<and> room_evolves r r'" if "room_row w i = Some r"
    using that by (simp add: develops_def)
  then show "room_row w i = Some r \<Longrightarrow> \<exists>r'. room_row w' i = Some r' \<and> room_OwnerUserID r' = room_OwnerUserID r"
    by (auto simp: room_evolves_def)
  from dev(2) assms(2) have "\<exists>m'. media_row w' i = Some m' \<and> media_evolves m m'" if "media_row w i = Some m"
    using that by (simp add: develops_def)
  then show "media_row w i = Some m \<Longrightarrow> \<exists>m'. media_row w' i = Some m' \<and> media_OwnerUserID m' = media_OwnerUserID m"
    by (auto simp: media_evolves_def)
qed

text \<open>A call that touches one row only, which is not a row of \<open>u\<close>.\<close>

lemma spared_other_row:
  assumes "develops invar view E w w'" "\<And>r r'. E r r' \<Longrightarrow> own r' = own r" "touches invar view k w w'"
    and "\<And>r. view w k = Some r \<Longrightarrow> own r \<noteq> u"
  shows "develops invar view (spared own u) w w'"
  unfolding develops_def
proof (intro impI conjI allI)
  assume inv: "invar w"
  with assms(1) show "invar w'" by (simp add: develops_def)
  fix j r
  assume at: "view w j = Some r"
  from assms(1) inv at obtain r' where r': "view w' j = Some r'" "E r r'" by (auto simp: develops_def)
  with assms(2) have own: "own r' = own r" by blast
  have "r' = r" if "own r = u"
  proof -
    from that assms(4) at have "j \<noteq> k" by auto
    with assms(3) inv at r' show ?thesis by (auto simp: touches_def)
  qed
  with r' own show "\<exists>r'. view w' j = Some r' \<and> spared own u r r'" by (auto simp: spared_def)
qed

subsection \<open>Each request spares the rows of others, whatever runs beside it\<close>

text \<open>What a request knows after it has checked a row, however the row may have developed since.\<close>

definition owned_room :: "string \<Rightarrow> string \<Rightarrow> 'e world \<Rightarrow> bool" where
  "owned_room v i w \<longleftrightarrow> world_ok w \<and> (\<exists>r. room_row w i = Some r \<and> room_OwnerUserID r = v)"

definition owned_media :: "string \<Rightarrow> string \<Rightarrow> 'e world \<Rightarrow> bool" where
  "owned_media v i w \<longleftrightarrow> world_ok w \<and> (\<exists>m. media_row w i = Some m \<and> media_OwnerUserID m = v)"

lemma owned_stable:
  "owned_room v i w \<Longrightarrow> evolving w w' \<Longrightarrow> owned_room v i w'"
  "owned_media v i w \<Longrightarrow> evolving w w' \<Longrightarrow> owned_media v i w'"
  unfolding owned_room_def owned_media_def using evolving_row by metis+

abbreviation spares :: "string \<Rightarrow> ('a \<Rightarrow> 'e world \<Rightarrow> bool) \<Rightarrow> ('e world, 'a) thread \<Rightarrow> 'e world \<Rightarrow> bool" where
  "spares u \<equiv> safe evolving (sparing u)"

lemma spares_own_room:
  assumes own: "owned_room v i w" "v \<noteq> u"
    and m: "stays evolving m" "stays (touches world_ok room_row i) m" "stays (media_spared u) m"
  shows "spares u (\<lambda>_ _. True) (atomic m) w"
proof (rule others.safe_atomic)
  fix w' r w''
  assume "evolving w w'" and run: "m w' = (r, w'')"
  from owned_stable(1) [OF own(1) this(1)] have "owned_room v i w'" .
  with own(2) have "room_row w' i = Some q \<Longrightarrow> room_OwnerUserID q \<noteq> u" for q by (auto simp: owned_room_def)
  then have "rooms_spared u w' w''"
    using staysD [OF m(1) run] staysD [OF m(2) run]
    by (intro spared_other_row [where E = room_evolves]) (auto simp: evolving_def room_evolves_def)
  with staysD [OF m(1) run] staysD [OF m(3) run] show "sparing u w' w''" by (simp add: sparing_def)
qed simp

lemma spares_own_media:
  assumes own: "owned_media v i w" "v \<noteq> u"
    and m: "stays evolving m" "stays (touches world_ok media_row i) m" "stays (rooms_spared u) m"
  shows "spares u (\<lambda>_ _. True) (atomic m) w"
proof (rule others.safe_atomic)
  fix w' r w''
  assume "evolving w w'" and run: "m w' = (r, w'')"
  from owned_stable(2) [OF own(1) this(1)] have "owned_media v i w'" .
  with own(2) have "media_row w' i = Some q \<Longrightarrow> media_OwnerUserID q \<noteq> u" for q by (auto simp: owned_media_def)
  then have "media_spared u w' w''"
    using staysD [OF m(1) run] staysD [OF m(2) run]
    by (intro spared_other_row [where E = media_evolves]) (auto simp: evolving_def media_evolves_def)
  with staysD [OF m(1) run] staysD [OF m(3) run] show "sparing u w' w''" by (simp add: sparing_def)
qed simp

lemma spares_room_calls:
  assumes "owned_room v i w" "v \<noteq> u"
  shows "spares u (\<lambda>_ _. True) (atomic (PostgresRoom_EndRoom pool i t)) w"
    "spares u (\<lambda>_ _. True) (atomic (PostgresRoom_UpdateRoomMedia pool i m)) w"
  using assms
  by (rule spares_own_room; intro touches_update [OF pg_rooms.EndRoom_law, simplified]
      touches_update [OF pg_rooms.UpdateRoomMedia_law, simplified]
      rooms_inD [OF program_evolving [unfolded program_in_def, THEN conjunct2, THEN conjunct1], simplified]
      rooms_inD [OF spared_repos(4), simplified])+

lemma spares_media_calls:
  assumes "owned_media v i w" "v \<noteq> u"
  shows "spares u (\<lambda>_ _. True) (atomic (PostgresMedia_UpdateUploadState pool i st sz mime)) w"
    "spares u (\<lambda>_ _. True) (atomic (PostgresMedia_UpdateStatus pool i st)) w"
    "spares u (\<lambda>_ _. True) (atomic (PostgresMedia_SoftDelete pool i t)) w"
    "spares u (\<lambda>_ _. True) (atomic (attemptP (PostgresMedia_UpdateStatus pool i st))) w"
  using assms
  by (rule spares_own_media; intro evolve.stays_attempt touch.stays_attempt rooms_spare.stays_attempt
      pg_media.touches_updates [simplified]
      media_inD [OF program_evolving [unfolded program_in_def, THEN conjunct1], simplified]
      media_inD [OF spared_repos(3), simplified])+

text \<open>What reading a row tells.\<close>

lemma spares_get_room:
  assumes "world_ok w"
  shows "spares u (\<lambda>room w. owned_room (room_OwnerUserID room) i w \<and> room_ID room = i)
    (atomic (PostgresRoom_GetRoomByID pool i)) w"
proof (rule others.safe_atomic)
  fix w' w'' v r room
  assume w': "evolving w w'"
  show "sparing u w' w''" if "PostgresRoom_GetRoomByID pool i w' = (r, w'')"
    using staysD [OF rooms_openD(3) [OF sparing_repos(1), simplified] that] .
  assume get: "PostgresRoom_GetRoomByID pool i w' = (Inr room, w'')" and v: "evolving w'' v"
  from evolving_row(1) [OF w' assms] have ok: "world_ok w'" .
  from pg_rooms.GetRoomByID_Inr [of w' pool i room w''] get ok have at: "room_row w' i = Some room" by simp
  with quietD [OF pg_rooms.GetRoomByID_quiet ok, of pool i "Inr room" w''] get
  have "owned_room (room_OwnerUserID room) i w''" by (simp add: owned_room_def)
  with owned_stable(1) v pg_rooms.room_at_ID [OF ok at]
  show "owned_room (room_OwnerUserID room) i v \<and> room_ID room = i" by blast
qed

lemma spares_get_media:
  assumes "world_ok w"
  shows "spares u (\<lambda>m w. owned_media (media_OwnerUserID m) i w \<and> media_ID m = i)
    (atomic (PostgresMedia_GetByID pool i)) w"
proof (rule others.safe_atomic)
  fix w' w'' v r m
  assume w': "evolving w w'"
  show "sparing u w' w''" if "PostgresMedia_GetByID pool i w' = (r, w'')"
    using staysD [OF media_openD(3) [OF sparing_repos(2), simplified] that] .
  assume get: "PostgresMedia_GetByID pool i w' = (Inr m, w'')" and v: "evolving w'' v"
  from evolving_row(1) [OF w' assms] have ok: "world_ok w'" .
  from pg_media.GetByID_Inr [of w' pool i m w''] get ok have at: "media_row w' i = Some m" by simp
  with quietD [OF pg_media.GetByID_quiet ok, of pool i "Inr m" w''] get
  have "owned_media (media_OwnerUserID m) i w''" by (simp add: owned_media_def)
  with owned_stable(2) v pg_media.media_at_ID [OF ok at]
  show "owned_media (media_OwnerUserID m) i v \<and> media_ID m = i" by blast
qed

text \<open>The requests.\<close>

lemma spares_room_steps:
  assumes ok: "world_ok w" and v: "v \<noteq> u" and s: "s = pg_room_service pf k sec whs timeout ttl"
  shows "spares u (\<lambda>_ _. True) (EndRoomByOwner_steps s i v) w"
    "spares u (\<lambda>_ _. True) (UpdateRoomState_steps s i v mode m) w"
proof -
  note calls = sparing.in_calls sparing.in_livekit media_openD [OF sparing_repos(2)] sparing.stays_if
    sparing.stays_ret sparing.stays_fail sparing.stays_case_option sparing.stays_bind
  have "spares u (\<lambda>_ _. True) (endRoom_steps s room) w'"
    if "owned_room v i w'" "room_ID room = i" for room w'
    using that v unfolding endRoom_steps_def s pg_room_service_simps NewPostgresRoomRepository_simps
    by (auto intro!: others.safe_call_bind [OF sparing.in_calls(2)] others.safe_bind [OF spares_room_calls(1)]
        others.safe_call_bind [OF sparing.in_livekit(2)] dest: owned_stable(1))
  then show "spares u (\<lambda>_ _. True) (EndRoomByOwner_steps s i v) w"
    unfolding EndRoomByOwner_steps_def s pg_room_service_simps NewPostgresRoomRepository_simps
    by (intro others.safe_bind [OF spares_get_room [OF ok]]) auto
  have "stays (sparing u) (next_media s v mode m)"
    unfolding next_media_def s pg_room_service_simps by (intro calls)
  then show "spares u (\<lambda>_ _. True) (UpdateRoomState_steps s i v mode m) w"
    using v unfolding UpdateRoomState_steps_def s pg_room_service_simps NewPostgresRoomRepository_simps
    by (intro others.safe_bind [OF spares_get_room [OF ok]])
      (auto intro!: others.safe_call_bind spares_room_calls(2) dest: owned_stable(1))
qed

lemma spares_media_steps:
  assumes ok: "world_ok w" and v: "v \<noteq> u" and s: "s = pg_upload_service pf c js t b l"
  shows "spares u (\<lambda>_ _. True) (CompleteUpload_steps s \<lparr>cu_OwnerUserID = v, cu_MediaID = i\<rparr>) w"
    "spares u (\<lambda>_ _. True) (DeleteMedia_steps fuel s v i) w"
proof -
  let ?in = "\<lparr>cu_OwnerUserID = v, cu_MediaID = i\<rparr>"
  note own = spares_media_calls [OF _ v]
  note own = own [THEN others.safe_bind] and call = others.safe_call_bind
    and outside = sparing.stays_mapErr sparing.stays_attempt sparing.in_calls sparing.in_Enqueue
  have "spares u (\<lambda>_ _. True) (complete_steps s ?in media) w'"
    if m: "owned_media (media_OwnerUserID media) i w'" "media_ID media = i" for media w'
  proof (cases "media_OwnerUserID media = v")
    case True
    with m(1) show ?thesis
      unfolding complete_steps_def s pg_upload_service_simps NewPostgresMediaRepository_simps m(2)
      by (auto intro!: call outside own simp: others.safe_fail others.safe_ret split: option.splits sum.splits)
        (blast intro: owned_stable(2))+
  qed (simp add: complete_steps_def)
  then show "spares u (\<lambda>_ _. True) (CompleteUpload_steps s ?in) w"
    unfolding CompleteUpload_steps_def by (auto simp: s intro: others.safe_bind [OF spares_get_media [OF ok]])
  have "spares u (\<lambda>_ _. True) (delete_steps fuel s v i media) w'"
    if m: "owned_media (media_OwnerUserID media) i w'" "media_ID media = i" for media w'
  proof (cases "media_OwnerUserID media = v")
    case True
    with m(1) show ?thesis
      unfolding delete_steps_def s pg_upload_service_simps NewPostgresMediaRepository_simps m(2)
      by (auto intro!: call outside own simp: others.safe_fail others.safe_ret split: option.splits)
        (blast intro: owned_stable(2))+
  qed (simp add: delete_steps_def)
  then show "spares u (\<lambda>_ _. True) (DeleteMedia_steps fuel s v i) w"
    unfolding DeleteMedia_steps_def by (auto simp: s intro: others.safe_bind [OF spares_get_media [OF ok]])
qed

lemma spares_Refresh_steps:
  assumes s: "s = pg_auth_service pf secret a r"
  shows "spares u (\<lambda>_ _. True) (Refresh_steps s tok) w"
proof -
  note calls = sessions_inD [OF sparing_repos(3)] sparing.in_calls
  have "stays (sparing u) (session_over s session)" "stays (sparing u) (generateRefreshToken (as_crypto s))"
    "stays (sparing u) (IssueToken (as_crypto s) (as_clock s) (as_jwt s) i [])"
    "stays (sparing u) (readP (as_clock s))" for session i
    unfolding s session_over_def generateRefreshToken_def Let_def pg_auth_service_simps ext_crypto_simps
    by (intro sparing.in_calls sparing.stays_if sparing.stays_bind sparing.stays_ret sparing.stays_IssueToken; simp add: calls)+
  then show ?thesis
    unfolding Refresh_steps_def
    by (auto intro!: others.safe_call_bind sparing.in_calls
        sessions_inD [OF sparing_repos(3), simplified] simp: s)
qed

lemma spares_SaveByHost_steps:
  assumes s: "s = pg_playback_service pf js"
  shows "spares u (\<lambda>_ _. True) (SaveByHost_steps s i v inp) w"
proof -
  have "stays (sparing u) (current_state s i v inp)"
    unfolding s current_state_def GetState_def pg_playback_service_simps ext_redis_simps
    by (intro sparing.stays_bind sparing.stays_attempt sparing.stays_mapErr sparing.stays_case_sum sparing.stays_if
        sparing.stays_ret sparing.stays_fail sparing.in_calls)
  then show ?thesis
    unfolding SaveByHost_steps_def Let_def
    by (auto intro!: others.safe_call_bind rooms_openD [OF sparing_repos(1), simplified] sparing.in_calls
        simp: s split: sum.splits)
qed

subsection \<open>Requests side by side\<close>

text \<open>The requests, with the user they are made for; a refresh is made for whoever has the token.\<close>

datatype row_request =
    Req_Refresh string
  | Req_EndRoom string string
  | Req_UpdateRoomState string string string "string option"
  | Req_CompleteUpload string string
  | Req_DeleteMedia string string
  | Req_SaveState string string UpdateRoomPlaybackInput

fun request_user :: "row_request \<Rightarrow> string option" where
  "request_user (Req_Refresh tok) = None"
| "request_user (Req_EndRoom v i) = Some v"
| "request_user (Req_UpdateRoomState v i mode m) = Some v"
| "request_user (Req_CompleteUpload v i) = Some v"
| "request_user (Req_DeleteMedia v i) = Some v"
| "request_user (Req_SaveState v i inp) = Some v"

definition forget :: "('w, 'a) thread \<Rightarrow> ('w, unit) thread" where
  "forget t = bindT t (\<lambda>_. retT ())"

text \<open>A request on the services of a configured program.\<close>

fun request_thread ::
    "('e, 'q) platform \<Rightarrow> 'q app_libs \<Rightarrow> Config \<Rightarrow> 'e world MediaTranscoderService option \<Rightarrow> row_request \<Rightarrow>
      ('e world, unit) thread" where
  "request_thread pf libs cfg tr (Req_Refresh tok) =
    forget (Refresh_steps (pg_auth_service pf (cf_JWTSecret cfg) (cf_AccessTTL cfg) (cf_RefreshTTL cfg)) tok)"
| "request_thread pf libs cfg tr (Req_EndRoom v i) = forget (EndRoomByOwner_steps (room_service_of pf cfg) i v)"
| "request_thread pf libs cfg tr (Req_UpdateRoomState v i mode m) =
    forget (UpdateRoomState_steps (room_service_of pf cfg) i v mode m)"
| "request_thread pf libs cfg tr (Req_CompleteUpload v i) =
    forget (CompleteUpload_steps (upload_service_of pf (al_playback libs) cfg tr) \<lparr>cu_OwnerUserID = v, cu_MediaID = i\<rparr>)"
| "request_thread pf libs cfg tr (Req_DeleteMedia v i) =
    forget (DeleteMedia_steps (al_fuel libs) (upload_service_of pf (al_playback libs) cfg tr) v i)"
| "request_thread pf libs cfg tr (Req_SaveState v i inp) =
    forget (SaveByHost_steps (pg_playback_service pf (al_state libs)) i v inp)"

lemma spares_request:
  assumes "world_ok w" "request_user req \<noteq> Some u"
  shows "spares u (\<lambda>_ _. True) (request_thread pf libs cfg tr req) w"
proof -
  have keep: "spares u (\<lambda>_ _. True) t w \<Longrightarrow> spares u (\<lambda>_ _. True) (forget t) w" for t :: "('a world, 'c) thread"
    unfolding forget_def by (erule others.safe_bind) simp
  from assms show ?thesis
    by (cases req) (simp_all add: keep spares_Refresh_steps [OF refl] spares_SaveByHost_steps [OF refl] room_service_of_def upload_service_of_def Let_def
        spares_room_steps [OF _ _ refl] spares_media_steps [OF _ _ refl])
qed

lemma schedule_spares:
  assumes ok: "world_ok w" and users: "\<forall>req \<in> set reqs. request_user req \<noteq> Some u"
    and out: "\<And>g v. Outside g \<in> set ms \<Longrightarrow> db (g v) = db v"
    and run: "schedule ms (map (request_thread pf libs cfg tr) reqs) w = (ts, w')"
  shows "sparing u w w'"
proof -
  have "\<forall>t \<in> set (map (request_thread pf libs cfg tr) reqs). spares u (\<lambda>_ _. True) t w"
    using ok users by (auto intro: spares_request)
  from others.schedule_safe [OF run this] out show ?thesis by (blast intro: sparing.same_db)
qed

end
