(* ===== verification/Race_Properties.thy ===== *)
theory Race_Properties
  imports Interleaving App_Properties Auth_Properties
begin

text \<open>
  What holds of requests that overlap, and what does not: ownership survives any interleaving, but
  the checks of a refresh and of a change of mode are made on a row that may be out of date, and so is the
  state that the next playback state is made from. The latter are runs on the sample platform.
\<close>

text \<open>
  Cut at its calls, each of the six requests is the method it stands for when nothing comes
  between its steps.
\<close>

lemma steps_are_methods:
  "run (Refresh_steps as tok) = Refresh as tok \<and> run (EndRoomByOwner_steps rs i v) = EndRoomByOwner rs i v \<and>
    run (UpdateRoomState_steps rs i v mode m) = UpdateRoomState rs i v mode m \<and>
    run (CompleteUpload_steps mu inp) = CompleteUpload mu inp \<and>
    run (DeleteMedia_steps fuel mu v i) = DeleteMedia fuel mu v i \<and>
    run (SaveByHost_steps rp i v state) = SaveByHost rp i v state"
  by (simp add: run_Refresh_steps run_rooms_steps run_media_steps run_SaveByHost_steps)

text \<open>
  C2. Refreshes, ends of rooms, changes of mode, completions, deletions and playback states that run at
  the same time, in any number and interleaved in any way, with changes outside the database in between,
  leave the rooms and media of every user they are not made for as they are. No account changes, whoever
  it belongs to; a session keeps its user, its version does not fall, and once revoked it stays as it is
  (a refresh is made for whoever has the token). The constraints of the tables hold.
\<close>

theorem interleaved_owner_only:
  assumes "world_ok w" and "\<forall>req \<in> set reqs. request_user req \<noteq> Some u"
    and "\<And>g v. Outside g \<in> set ms \<Longrightarrow> db (g v) = db v"
    and "schedule ms (map (request_thread pf libs cfg tr) reqs) w = (ts, w')"
  shows "world_ok w' \<and> (\<forall>i room. room_row w i = Some room \<and> room_OwnerUserID room = u \<longrightarrow> room_row w' i = Some room) \<and>
    (\<forall>i m. media_row w i = Some m \<and> media_OwnerUserID m = u \<longrightarrow> media_row w' i = Some m) \<and>
    (\<forall>mail account. user_row w mail = Some account \<longrightarrow> user_row w' mail = Some account) \<and>
    (\<forall>i s. sess_row w i = Some s \<longrightarrow> (\<exists>s'. sess_row w' i = Some s' \<and> sess_UserID s' = sess_UserID s \<and>
      sess_Version s \<le> sess_Version s' \<and> (sess_RevokedAt s \<noteq> None \<longrightarrow> s' = s)))"
proof -
  have all: "sparing u w w'" by (rule schedule_spares [OF assms(1,2) _ assms(4)]) (rule assms(3))
  then have "rooms_spared u w w'" "media_spared u w w'" by (simp_all add: sparing_def)
  with assms(1) have own: "world_ok w'" "room_row w i = Some room \<Longrightarrow> room_OwnerUserID room = u \<Longrightarrow> room_row w' i = Some room"
    "media_row w i = Some m \<Longrightarrow> media_OwnerUserID m = u \<Longrightarrow> media_row w' i = Some m" for i room m
    by (fastforce simp: develops_def spared_def)+
  from all assms(1) have "\<exists>s'. sess_row w' i = Some s' \<and> sess_evolves s s'" if "sess_row w i = Some s" for i s
    using that by (simp add: sparing_def evolving_def develops_def)
  moreover from all assms(1) have "user_row w' mail = Some account" if "user_row w mail = Some account" for mail account
    using that by (simp add: sparing_def evolving_def develops_def)
  ultimately show ?thesis using own unfolding sess_evolves_def by blast
qed

definition sample_overlap :: "sample_env world move list" where
  "sample_overlap = [Turn 0, Turn 1, Outside (\<lambda>w. w\<lparr>env := sample_start\<rparr>), Turn 1, Turn 0, Turn 0, Turn 1, Turn 0, Turn 1]"

theorem interleaved_owner_only_witness:
  "room_row (snd (schedule sample_overlap (map (request_thread sample_platform sample_libs sample_cfg None)
    [Req_EndRoom ''mallory'' ''r1'', Req_DeleteMedia ''mallory'' ''film'']) sample_world)) ''r1'' = Some sample_hall"
proof -
  let ?reqs = "[Req_EndRoom ''mallory'' ''r1'', Req_DeleteMedia ''mallory'' ''film'']"
  let ?w = "snd (schedule sample_overlap (map (request_thread sample_platform sample_libs sample_cfg None) ?reqs) sample_world)"
  have users: "\<forall>req \<in> set ?reqs. request_user req \<noteq> Some ''alice''" by simp
  have outside: "db (g v) = db v" if "Outside g \<in> set sample_overlap" for g v
    using that by (auto simp: sample_overlap_def)
  obtain ts where run: "schedule sample_overlap
      (map (request_thread sample_platform sample_libs sample_cfg None) ?reqs) sample_world = (ts, ?w)"
    by (metis prod.collapse)
  from interleaved_owner_only [OF sample_world_ok users _ run] outside
  have "\<forall>i room. room_row sample_world i = Some room \<and> room_OwnerUserID room = ''alice'' \<longrightarrow> room_row ?w i = Some room"
    by blast
  moreover have "room_row sample_world ''r1'' = Some sample_hall" "room_OwnerUserID sample_hall = ''alice''"
    by code_simp+
  ultimately show ?thesis by blast
qed

text \<open>
  Two refreshes with one token can both succeed: when the second looks the session up before the
  first rotates it, both hand out tokens, although a token is spent by its first use.
\<close>

lemma overlapping_refreshes:
  "\<exists>ms. case schedule ms [Refresh_steps sample_auth ''token'', Refresh_steps sample_auth ''token''] sample_logged_in of
    ([Done (Inr r1), Done (Inr r2)], w) \<Rightarrow> rr_UserID r1 = ''alice'' \<and> rr_UserID r2 = ''alice'' \<and>
      rr_Version r1 = 2 \<and> rr_Version r2 = 3
  | _ \<Rightarrow> False"
  by (rule exI [of _ "[Turn 0, Turn 1, Turn 0, Turn 0, Turn 0, Turn 0, Turn 0, Turn 1, Turn 1, Turn 1, Turn 1, Turn 1]"])
    (simp add: run_auth_defs Refresh_steps_def atomic_def sample_logged_in_def sample_session_def sample_hashes)

text \<open>
  Two playback states that the host saves at the same time can get the same version: when both read the
  stored state before either writes, both answers say that theirs is version 1, and the one that is
  written first is lost without a trace.
\<close>

lemma overlapping_saves:
  "\<exists>ms. case schedule ms [SaveByHost_steps sample_playback ''r1'' ''alice'' sample_seek,
      SaveByHost_steps sample_playback ''r1'' ''alice'' (sample_seek\<lparr>up_PositionMs := 9\<rparr>)] sample_world of
    ([Done (Inr st1), Done (Inr st2)], w) \<Rightarrow> rps_Version st1 = 1 \<and> rps_Version st2 = 1 \<and>
      rps_PositionMs st1 = 5 \<and> rps_PositionMs st2 = 9 \<and> fst (GetState sample_playback ''r1'' w) = Inr st2
  | _ \<Rightarrow> False"
  by (rule exI [of _ "[Turn 0, Turn 1, Turn 0, Turn 1, Turn 0, Turn 1, Turn 0, Turn 1]"]) code_simp

text \<open>
  A change of mode that has found the room active can be carried out after the room has ended: the room
  is over and gets a media all the same, since the statement that sets the media does not look at the state.
\<close>

lemma media_after_end:
  "\<exists>ms. case schedule ms [EndRoomByOwner_steps sample_rooms ''r1'' ''alice'',
      UpdateRoomState_steps sample_rooms ''r1'' ''alice'' ''movie'' (Some ''film'')] sample_world of
    ([Done (Inr _), Done (Inr r)], w) \<Rightarrow>
      map_option (\<lambda>room. (room_Status room, room_MediaID room)) (room_row w ''r1'') = Some (RoomEnded, Some ''film'')
  | _ \<Rightarrow> False"
  by (rule exI [of _ "Turn 1 # replicate 4 (Turn 0) @ replicate 2 (Turn 1)"]) code_simp

end
