(* ===== verification/Cleanup_Steps.thy ===== *)
theory Cleanup_Steps
  imports Threads Media_Cleanup
begin

text \<open>
  The clean-up cut at every call: uploads, deletions and requests of all kinds go on while it lists the
  store, asks the database and deletes, and what it has read may be out of date when it acts on it.
\<close>

subsection \<open>The clean-up in steps\<close>

fun each_page_steps ::
    "nat \<Rightarrow> 'w StorageService \<Rightarrow> string \<Rightarrow> (string option list \<Rightarrow> 'a \<Rightarrow> ('w, 'a) thread) \<Rightarrow> string option \<Rightarrow> 'a \<Rightarrow>
      ('w, 'a) thread" where
  "each_page_steps 0 s pre step tok acc = failT OutOfFuel"
| "each_page_steps (Suc fuel) s pre step tok acc =
    bindT (atomic (s3_ListPage (st_s3 s) (st_bucket s) pre tok)) (\<lambda>(contents, next).
      bindT (step contents acc) (\<lambda>acc'.
        if more_pages next then each_page_steps fuel s pre step next acc' else retT acc'))"

definition flush_steps :: "'w StorageService \<Rightarrow> string list \<Rightarrow> ('w, string list) thread" where
  "flush_steps s toDelete =
    (if toDelete = [] then retT []
     else bindT (atomic (s3_DeleteObjects (st_s3 s) (st_bucket s) toDelete)) (\<lambda>_. retT []))"

fun collect_page_steps :: "'w StorageService \<Rightarrow> string option list \<Rightarrow> string list \<Rightarrow> ('w, string list) thread" where
  "collect_page_steps s [] toDelete = retT toDelete"
| "collect_page_steps s (obj # contents) toDelete =
    (let key = object_key obj
     in if key = [] then collect_page_steps s contents toDelete
        else if length (toDelete @ [key]) = 1000
        then bindT (flush_steps s (toDelete @ [key])) (collect_page_steps s contents)
        else collect_page_steps s contents (toDelete @ [key]))"

definition DeleteObjectsByPrefix_steps :: "nat \<Rightarrow> 'w StorageService \<Rightarrow> string \<Rightarrow> ('w, unit) thread" where
  "DeleteObjectsByPrefix_steps fuel s pre =
    (if st_bucket s = [] then failT ErrNoBucket
     else let trimmedPrefix = TrimSpace pre
       in if trimmedPrefix = [] then failT (New ''prefix is required'')
          else bindT (each_page_steps fuel s trimmedPrefix (collect_page_steps s) None []) (\<lambda>toDelete.
            bindT (flush_steps s toDelete) (\<lambda>_. retT ())))"

definition ListMediaPrefixes_steps :: "nat \<Rightarrow> 'w StorageService \<Rightarrow> ('w, (string \<times> string) list) thread" where
  "ListMediaPrefixes_steps fuel s =
    (if st_bucket s = [] then failT ErrNoBucket
     else each_page_steps fuel s ''users/'' (\<lambda>contents acc. retT (fold add_prefix contents acc)) None [])"

fun existing_ids_steps ::
    "'w MediaCleanupService \<Rightarrow> string list list \<Rightarrow> string list \<Rightarrow> ('w, string list) thread" where
  "existing_ids_steps s [] existing = retT existing"
| "existing_ids_steps s (ids # batches) existing =
    bindT (atomic (mr_ListExistingIDs (mc_mediaRepo s) ids)) (\<lambda>chunk. existing_ids_steps s batches (existing @ chunk))"

fun delete_orphans_steps ::
    "nat \<Rightarrow> 'w MediaCleanupService \<Rightarrow> (string \<times> string) list \<Rightarrow> string list \<Rightarrow> string list \<Rightarrow> int \<Rightarrow> int \<Rightarrow>
      ('w, int \<times> int) thread" where
  "delete_orphans_steps fuel s prefixByID existing [] deleted failed = retT (deleted, failed)"
| "delete_orphans_steps fuel s prefixByID existing (i # ids) deleted failed =
    (if i \<in> set existing then delete_orphans_steps fuel s prefixByID existing ids deleted failed
     else let pre = (case map_of prefixByID i of None \<Rightarrow> [] | Some p \<Rightarrow> p)
       in bindT (attemptT (DeleteObjectsByPrefix_steps fuel (mc_storage s) pre)) (\<lambda>r.
            case r of
              Inl e \<Rightarrow> delete_orphans_steps fuel s prefixByID existing ids deleted (failed + 1)
            | Inr _ \<Rightarrow> delete_orphans_steps fuel s prefixByID existing ids (deleted + 1) failed))"

definition RunOnce_steps ::
    "nat \<Rightarrow> (string list \<Rightarrow> string list) \<Rightarrow> 'w MediaCleanupService \<Rightarrow> ('w, int \<times> int \<times> int) thread" where
  "RunOnce_steps fuel order s =
    bindT (ListMediaPrefixes_steps fuel (mc_storage s)) (\<lambda>prefixByID.
      if prefixByID = [] then retT (0, 0, 0)
      else let ids = filter (\<lambda>i. TrimSpace i \<noteq> []) (order (map fst prefixByID))
        in bindT (existing_ids_steps s (chunks (nat (mc_batchSize s)) ids) []) (\<lambda>existing.
             bindT (delete_orphans_steps fuel s prefixByID existing ids 0 0) (\<lambda>(deleted, failed).
               retT (int (length ids), deleted, failed))))"

text \<open>Run without interruption they are the functions.\<close>

lemma run_each_page_steps:
  assumes "\<And>contents acc. run (step' contents acc) = step contents acc"
  shows "run (each_page_steps fuel s pre step' tok acc) = each_page fuel s pre step tok acc"
proof (induction fuel arbitrary: tok acc)
  case (Suc fuel)
  then show ?case by (simp add: assms cong: if_cong)
qed simp

lemma run_flush_steps: "run (flush_steps s ks) = flush s ks"
  by (simp add: flush_steps_def flush_def)

lemma run_collect_page_steps: "run (collect_page_steps s contents ks) = collect_page s contents ks"
  by (induction contents arbitrary: ks) (simp_all add: Let_def run_flush_steps)

lemma run_DeleteObjectsByPrefix_steps: "run (DeleteObjectsByPrefix_steps fuel s pre) = DeleteObjectsByPrefix fuel s pre"
  by (simp add: DeleteObjectsByPrefix_steps_def DeleteObjectsByPrefix_def Let_def run_flush_steps
      run_each_page_steps [of "collect_page_steps s", OF run_collect_page_steps])

lemma run_RunOnce_steps: "run (RunOnce_steps fuel order s) = RunOnce fuel order s"
proof -
  have existing: "run (existing_ids_steps s batches acc) = existing_ids s batches acc" for batches acc
    by (induction batches arbitrary: acc) simp_all
  have orphans: "run (delete_orphans_steps fuel s m existing ids d f) = delete_orphans fuel s m existing ids d f"
    for m existing ids d f
    by (induction ids arbitrary: d f) (simp_all add: Let_def run_DeleteObjectsByPrefix_steps cong: sum.case_cong)
  have list: "run (ListMediaPrefixes_steps fuel s') = ListMediaPrefixes fuel s'" for s' :: "'a StorageService"
    unfolding ListMediaPrefixes_steps_def ListMediaPrefixes_def
    by (simp add: run_each_page_steps [where step = "\<lambda>contents acc. retP (fold add_prefix contents acc)"])
  show ?thesis
    by (simp add: RunOnce_steps_def RunOnce_def Let_def list existing orphans split_def cong: if_cong)
qed

subsection \<open>What the others may do, and what the clean-up does\<close>

text \<open>
  \<open>fresh\<close> are the identifiers that are handed out while the job runs. A media is registered before its
  objects are uploaded, so an object that carries a fresh identifier belongs to a media that is in the
  table; and every object lies where the program puts it.
\<close>

definition store_ok :: "string set \<Rightarrow> ('e \<Rightarrow> string \<Rightarrow> string set) \<Rightarrow> string \<Rightarrow> 'e world \<Rightarrow> bool" where
  "store_ok fresh objs b w \<longleftrightarrow> placed (objs (env w) b) \<and>
    (\<forall>k \<in> objs (env w) b. \<forall>owner i. name_ok owner \<longrightarrow> name_ok i \<longrightarrow> media_object owner i k \<longrightarrow>
      i \<in> fresh \<longrightarrow> media_row w i \<noteq> None)"

text \<open>
  The others: rows develop, new rows have fresh identifiers, and objects come and go, but where they belong.
\<close>

definition others_move ::
    "string set \<Rightarrow> ('e \<Rightarrow> string \<Rightarrow> string set) \<Rightarrow> string \<Rightarrow> 'e world \<Rightarrow> 'e world \<Rightarrow> bool" where
  "others_move fresh objs b w w' \<longleftrightarrow> develops world_ok media_row media_evolves w w' \<and>
    (world_ok w \<longrightarrow> (\<forall>i. media_row w i = None \<longrightarrow> media_row w' i \<noteq> None \<longrightarrow> i \<in> fresh) \<and>
      (store_ok fresh objs b w \<longrightarrow> store_ok fresh objs b w'))"

text \<open>The clean-up: no table changes, and the objects of live media stay.\<close>

definition live_object :: "'e world \<Rightarrow> string \<Rightarrow> bool" where
  "live_object w k \<longleftrightarrow> (\<exists>owner i m. name_ok owner \<and> name_ok i \<and> media_object owner i k \<and>
    media_row w i = Some m \<and> live m)"

definition spares_live :: "('e \<Rightarrow> string \<Rightarrow> string set) \<Rightarrow> string \<Rightarrow> 'e world \<Rightarrow> 'e world \<Rightarrow> bool" where
  "spares_live objs b w w' \<longleftrightarrow> db w' = db w \<and> objs (env w') b \<subseteq> objs (env w) b \<and>
    (\<forall>k \<in> objs (env w) b. live_object w k \<longrightarrow> k \<in> objs (env w') b)"

lemma live_object_db: "db w' = db w \<Longrightarrow> live_object w' k = live_object w k"
  by (simp add: live_object_def)

lemma placed_subset: "placed A \<Longrightarrow> B \<subseteq> A \<Longrightarrow> placed B"
  by (auto simp: placed_def)

lemma others_move_trans:
  assumes "others_move fresh objs b u v" "others_move fresh objs b v w"
  shows "others_move fresh objs b u w"
proof -
  note dev = media_dev.develops_trans [OF assms [unfolded others_move_def, THEN conjunct1]]
  have "i \<in> fresh" if ok: "world_ok u" and new: "media_row u i = None" "media_row w i \<noteq> None" for i
  proof (cases "media_row v i")
    case None
    from assms(1) ok have "world_ok v" by (simp add: others_move_def develops_def)
    with assms(2) None new show ?thesis by (simp add: others_move_def)
  next
    case (Some m)
    with assms(1) ok new show ?thesis by (simp add: others_move_def)
  qed
  moreover have "store_ok fresh objs b u \<longrightarrow> store_ok fresh objs b w" if "world_ok u"
    using assms that by (auto simp: others_move_def develops_def)
  ultimately show ?thesis using dev by (simp add: others_move_def)
qed

lemma spares_live_others:
  assumes "spares_live objs b w w'"
  shows "others_move fresh objs b w w'"
proof -
  from assms have same: "db w' = db w" "objs (env w') b \<subseteq> objs (env w) b" by (simp_all add: spares_live_def)
  then have "store_ok fresh objs b w \<longrightarrow> store_ok fresh objs b w'"
    unfolding store_ok_def same(1) by (blast intro: placed_subset)
  with same(1) show ?thesis by (simp add: others_move_def develops_def world_ok_def media_dev.E_refl)
qed

interpretation beside: interference "others_move fresh objs b" "spares_live objs b"
  for fresh :: "string set" and objs :: "'e \<Rightarrow> string \<Rightarrow> string set" and b :: string
proof (unfold_locales)
  fix u v w :: "'e world"
  show "spares_live objs b w w" by (simp add: spares_live_def)
  then show "others_move fresh objs b w w" by (rule spares_live_others)
  show "others_move fresh objs b u v \<Longrightarrow> others_move fresh objs b v w \<Longrightarrow> others_move fresh objs b u w"
    by (rule others_move_trans)
  show "spares_live objs b u w" if "spares_live objs b u v" "spares_live objs b v w"
    using that live_object_db [of v u] by (auto simp: spares_live_def)
  show "spares_live objs b u v \<Longrightarrow> others_move fresh objs b u v" by (rule spares_live_others)
qed

abbreviation cleanly ::
    "string set \<Rightarrow> ('e \<Rightarrow> string \<Rightarrow> string set) \<Rightarrow> string \<Rightarrow> ('a \<Rightarrow> 'e world \<Rightarrow> bool) \<Rightarrow> ('e world, 'a) thread \<Rightarrow>
      'e world \<Rightarrow> bool" where
  "cleanly fresh objs b \<equiv> safe (others_move fresh objs b) (spares_live objs b)"

subsection \<open>What the clean-up knows\<close>

text \<open>
  A media it has listed is not one that is still to be registered, and one that the database does not
  have will never be live.
\<close>

definition listed :: "string set \<Rightarrow> 'e world \<Rightarrow> string \<Rightarrow> bool" where
  "listed fresh w i \<longleftrightarrow> world_ok w \<and> (i \<in> fresh \<longrightarrow> media_row w i \<noteq> None)"

definition gone :: "string set \<Rightarrow> 'e world \<Rightarrow> string \<Rightarrow> bool" where
  "gone fresh w i \<longleftrightarrow> listed fresh w i \<and> (\<forall>m. media_row w i = Some m \<longrightarrow> \<not> live m)"

lemma listed_stable: "listed fresh w i \<Longrightarrow> others_move fresh objs b w w' \<Longrightarrow> listed fresh w' i"
  unfolding listed_def others_move_def develops_def by (metis option.exhaust option.simps(3))

lemma gone_stable:
  assumes "gone fresh w i" "others_move fresh objs b w w'"
  shows "gone fresh w' i"
proof -
  from assms(1) have known: "listed fresh w i" by (simp add: gone_def)
  from listed_stable [OF this assms(2)] known have ok: "world_ok w" "listed fresh w' i" by (simp_all add: listed_def)
  have "\<not> live m'" if m': "media_row w' i = Some m'" for m'
  proof (cases "media_row w i")
    case None
    with assms m' ok(1) have "i \<in> fresh" by (simp add: others_move_def)
    with assms(1) None show ?thesis by (simp add: gone_def listed_def)
  next
    case (Some m)
    moreover from assms(2) ok(1) have "\<forall>k r. media_row w k = Some r \<longrightarrow> (\<exists>r'. media_row w' k = Some r' \<and> media_evolves r r')"
      unfolding others_move_def develops_def by blast
    ultimately obtain m2 where "media_row w' i = Some m2" "media_evolves m m2" by blast
    with m' Some assms(1) show ?thesis by (auto simp: gone_def media_evolves_def)
  qed
  with ok(2) show ?thesis by (simp add: gone_def)
qed

lemma store_ok_stable:
  "store_ok fresh objs b w \<Longrightarrow> world_ok w \<Longrightarrow> others_move fresh objs b w w' \<Longrightarrow> store_ok fresh objs b w' \<and> world_ok w'"
  by (simp add: others_move_def develops_def)

subsection \<open>The rules for its parts\<close>

context interference
begin

lemma safe_each_page:
  assumes page: "\<And>tok w. I w \<Longrightarrow> holds Q (atomic (s3_ListPage (st_s3 s) (st_bucket s) p tok)) w"
    and step: "\<And>contents next acc w. I w \<Longrightarrow> Q (contents, next) w \<Longrightarrow> J acc w \<Longrightarrow> holds J (step contents acc) w"
    and I: "\<And>w w'. I w \<Longrightarrow> R w w' \<Longrightarrow> I w'" and J: "\<And>acc w w'. J acc w \<Longrightarrow> R w w' \<Longrightarrow> J acc w'"
    and "I w" "J acc w"
  shows "holds J (each_page_steps fuel s p step tok acc) w"
  using assms(5,6)
proof (induction fuel arbitrary: tok acc w)
  case 0
  show ?case by simp
next
  case (Suc fuel)
  show ?case
    unfolding each_page_steps.simps
  proof (rule safe_bind [OF page [OF Suc.prems(1)]], clarify)
    fix contents "next" w'
    assume w': "R w w'" "Q (contents, next) w'"
    note at = I [OF Suc.prems(1) w'(1)] J [OF Suc.prems(2) w'(1)]
    show "holds J (bindT (step contents acc) (\<lambda>acc'.
        if more_pages next then each_page_steps fuel s p step next acc' else retT acc')) w'"
    proof (rule safe_bind [OF step [OF at(1) w'(2) at(2)]])
      fix acc' v
      assume v: "R w' v" "J acc' v"
      from Suc.IH [OF I [OF at(1) v(1)] v(2)] J [OF v(2)]
      show "holds J (if more_pages next then each_page_steps fuel s p step next acc' else retT acc') v" by simp
    qed
  qed
qed

end

text \<open>A page of a listing has objects of the store.\<close>

lemma cleanly_page:
  assumes lists: "lists_objects (pf_s3 pf) objs past"
    and Q: "\<And>w' contents next w'' v. others_move fresh objs b w w' \<Longrightarrow>
      (\<forall>obj \<in> set contents. \<exists>k \<in> objs (env w') b. obj = Some k \<and> HasPrefix k p) \<Longrightarrow>
      db w'' = db w' \<Longrightarrow> others_move fresh objs b w'' v \<Longrightarrow> Q (contents, next) v"
  shows "cleanly fresh objs b Q (atomic (s3_ListPage (ext_s3 (pf_s3 pf)) b p tok)) w"
proof (rule beside.safe_atomic)
  fix w' r w''
  assume "s3_ListPage (ext_s3 (pf_s3 pf)) b p tok w' = (r, w'')"
  then have "db w'' = db w'" "s3_ListPage (pf_s3 pf) b p tok (env w') = (r, env w'')"
    by (auto simp: ext_def split: prod.splits)
  with lists show "spares_live objs b w' w''" unfolding lists_objects_def spares_live_def by (metis order_refl)
next
  fix w' x w'' v
  assume w': "others_move fresh objs b w w'" and v: "others_move fresh objs b w'' v"
    and "s3_ListPage (ext_s3 (pf_s3 pf)) b p tok w' = (Inr x, w'')"
  then have same: "db w'' = db w'" and page: "s3_ListPage (pf_s3 pf) b p tok (env w') = (Inr x, env w'')"
    by (auto simp: ext_def split: prod.splits)
  obtain contents "next" where x: "x = (contents, next)" by (cases x)
  with lists page have "\<forall>obj \<in> set contents. \<exists>k \<in> objs (env w') b. obj = Some k \<and> HasPrefix k p"
    unfolding lists_objects_def by blast
  from Q [OF w' this same v] show "Q x v" unfolding x .
qed

text \<open>A batch of keys below the prefix of a media that is gone.\<close>

lemma cleanly_delete:
  assumes del: "deletes_objects (pf_s3 pf) objs refused" and ks: "ks \<noteq> []" "length ks \<le> 1000"
    "set ks \<subseteq> {k. HasPrefix k (media_prefix owner i)}"
    and names: "name_ok owner" "name_ok i" and gone: "gone fresh w i"
  shows "cleanly fresh objs b (\<lambda>_ _. True) (atomic (s3_DeleteObjects (ext_s3 (pf_s3 pf)) b ks)) w"
proof (rule beside.safe_atomic)
  fix w' r w''
  assume w': "others_move fresh objs b w w'" and "s3_DeleteObjects (ext_s3 (pf_s3 pf)) b ks w' = (r, w'')"
  then have same: "db w'' = db w'" and "s3_DeleteObjects (pf_s3 pf) b ks (env w') = (r, env w'')"
    by (auto simp: ext_def split: prod.splits)
  with del ks(1,2) have objs: "objs (env w') b - set ks \<subseteq> objs (env w'') b" "objs (env w'') b \<subseteq> objs (env w') b"
    unfolding deletes_objects_def by (metis (no_types, lifting))+
  from gone_stable [OF gone w'] have dead: "\<forall>m. media_row w' i = Some m \<longrightarrow> \<not> live m" by (simp add: gone_def)
  have "k \<notin> set ks" if "live_object w' k" for k
  proof
    assume "k \<in> set ks"
    with ks(3) have "HasPrefix k (media_prefix owner i)" by blast
    with that dead media_prefix_disjoint [OF names] show False by (metis live_object_def)
  qed
  with objs same show "spares_live objs b w' w''" by (auto simp: spares_live_def)
qed simp

lemma cleanly_flush:
  assumes "deletes_objects (pf_s3 pf) objs refused" "name_ok owner" "name_ok i" "gone fresh w i"
    and "set ks \<subseteq> {k. HasPrefix k (media_prefix owner i)}" "length ks \<le> 1000"
    and s: "st_s3 s = ext_s3 (pf_s3 pf)" "st_bucket s = b"
  shows "cleanly fresh objs b (\<lambda>e _. e = []) (flush_steps s ks) w"
proof (cases "ks = []")
  case True
  then show ?thesis by (simp add: flush_steps_def)
next
  case False
  have "cleanly fresh objs b (\<lambda>e _. e = []) (bindT (atomic (s3_DeleteObjects (ext_s3 (pf_s3 pf)) b ks)) (\<lambda>_. retT [])) w"
    by (rule beside.safe_bind [OF cleanly_delete [OF assms(1) False assms(6,5,2,3,4)]]) simp
  with False show ?thesis by (simp only: flush_steps_def s if_False)
qed

definition collected :: "string set \<Rightarrow> string \<Rightarrow> string \<Rightarrow> string list \<Rightarrow> 'e world \<Rightarrow> bool" where
  "collected fresh owner i ks w \<longleftrightarrow> gone fresh w i \<and> set ks \<subseteq> {k. HasPrefix k (media_prefix owner i)} \<and> length ks < 1000"

lemma cleanly_collect_page:
  assumes del: "deletes_objects (pf_s3 pf) objs refused" and names: "name_ok owner" "name_ok i"
    and s: "st_s3 s = ext_s3 (pf_s3 pf)" "st_bucket s = b"
    and "object_key ` set contents - {[]} \<subseteq> {k. HasPrefix k (media_prefix owner i)}" "collected fresh owner i ks w"
  shows "cleanly fresh objs b (collected fresh owner i) (collect_page_steps s contents ks) w"
  using assms(6,7)
proof (induction contents arbitrary: ks w)
  case Nil
  then show ?case by (auto simp: collected_def intro: gone_stable)
next
  case (Cons obj contents)
  let ?key = "object_key obj"
  from Cons.prems have rest: "object_key ` set contents - {[]} \<subseteq> {k. HasPrefix k (media_prefix owner i)}"
    and gone: "gone fresh w i"
    and more: "?key \<noteq> [] \<Longrightarrow> set (ks @ [?key]) \<subseteq> {k. HasPrefix k (media_prefix owner i)}"
    "length (ks @ [?key]) \<le> 1000" by (auto simp: collected_def)
  consider (blank) "?key = []" | (full) "?key \<noteq> []" "length (ks @ [?key]) = 1000"
    | (room) "?key \<noteq> []" "length (ks @ [?key]) < 1000" using more(2) by fastforce
  then show ?case
  proof cases
    case blank
    with Cons.IH [OF rest Cons.prems(2)] show ?thesis by simp
  next
    case full
    have "cleanly fresh objs b (collected fresh owner i) (bindT (flush_steps s (ks @ [?key])) (collect_page_steps s contents)) w"
    proof (rule beside.safe_bind [OF cleanly_flush [OF del names gone more(1) [OF full(1)] more(2) s]])
      fix e :: "string list" and v
      assume v: "others_move fresh objs b w v" "e = []"
      from gone_stable [OF gone v(1)] have "collected fresh owner i [] v" by (simp add: collected_def)
      from Cons.IH [OF rest this] v(2)
      show "cleanly fresh objs b (collected fresh owner i) (collect_page_steps s contents e) v" by simp
    qed
    with full show ?thesis by (simp add: Let_def)
  next
    case room
    with more(1) gone have "collected fresh owner i (ks @ [?key]) w" by (simp add: collected_def)
    from Cons.IH [OF rest this] room show ?thesis by (simp add: Let_def)
  qed
qed

lemma cleanly_delete_prefix:
  assumes lists: "lists_objects (pf_s3 pf) objs past" and del: "deletes_objects (pf_s3 pf) objs refused"
    and names: "name_ok owner" "name_ok i" and gone: "gone fresh w i"
  shows "cleanly fresh objs (sc_bucket c) (\<lambda>_ _. True)
    (DeleteObjectsByPrefix_steps fuel (pg_storage pf c) (media_prefix owner i)) w"
proof -
  let ?p = "media_prefix owner i" and ?b = "sc_bucket c" and ?s = "pg_storage pf c"
  let ?Q = "\<lambda>(contents, next :: string option) w. object_key ` set contents - {[]} \<subseteq> {k. HasPrefix k ?p}"
  note solid = solid_media_prefix [OF names]
  note stable = gone_stable [of fresh _ i objs ?b]
  have page: "cleanly fresh objs ?b ?Q (atomic (s3_ListPage (st_s3 ?s) (st_bucket ?s) ?p tok)) v" for tok v
    unfolding pg_storage_simps
  proof (rule cleanly_page [OF lists])
    fix w' contents and "next" :: "string option" and w'' v'
    assume "\<forall>obj \<in> set contents. \<exists>k \<in> objs (env w') ?b. obj = Some k \<and> HasPrefix k ?p"
    with solid_object_key [OF solid] show "?Q (contents, next) v'" by auto
  qed
  have "cleanly fresh objs ?b (collected fresh owner i)
      (each_page_steps fuel ?s ?p (collect_page_steps ?s) None []) w"
  proof (rule beside.safe_each_page [where I = "\<lambda>w. gone fresh w i", OF page])
    show "cleanly fresh objs ?b (collected fresh owner i) (collect_page_steps ?s contents acc) v"
      if "?Q (contents, next) v" "collected fresh owner i acc v" for contents "next" acc v
      using that by (intro cleanly_collect_page [OF del names]) auto
    show "gone fresh w i" "collected fresh owner i [] w" using gone by (simp_all add: collected_def)
  qed (auto simp: collected_def intro: stable)
  then show ?thesis
    unfolding DeleteObjectsByPrefix_steps_def Let_def solid_TrimSpace [OF solid]
    by (auto intro!: beside.safe_bind [OF _ beside.safe_bind [OF cleanly_flush [OF del names]]]
        simp: collected_def)
qed

subsection \<open>The whole job\<close>

definition entry_ok :: "string set \<Rightarrow> 'e world \<Rightarrow> string \<times> string \<Rightarrow> bool" where
  "entry_ok fresh w x \<longleftrightarrow> listed fresh w (fst x) \<and>
    (\<exists>owner. name_ok owner \<and> name_ok (fst x) \<and> snd x = media_prefix owner (fst x))"

definition entries_ok :: "string set \<Rightarrow> (string \<times> string) list \<Rightarrow> 'e world \<Rightarrow> bool" where
  "entries_ok fresh m w \<longleftrightarrow> (\<forall>x \<in> set m. entry_ok fresh w x)"

lemma entries_ok_stable:
  "entries_ok fresh m w \<Longrightarrow> others_move fresh objs b w w' \<Longrightarrow> entries_ok fresh m w'"
  unfolding entries_ok_def entry_ok_def by (blast intro: listed_stable)

lemma set_fold_add_prefix:
  "set (fold add_prefix contents acc) \<subseteq>
    set acc \<union> {m. \<exists>obj \<in> set contents. extractMediaPrefix (object_key obj) = Some m}"
proof (induction contents arbitrary: acc)
  case (Cons obj contents)
  have "set (add_prefix obj acc) \<subseteq> set acc \<union> {m. extractMediaPrefix (object_key obj) = Some m}"
    by (auto simp: add_prefix_def split: option.splits prod.splits if_splits)
  with Cons.IH [of "add_prefix obj acc"] show ?case by auto
qed simp

lemma cleanly_list:
  assumes lists: "lists_objects (pf_s3 pf) objs past" and ok: "store_ok fresh objs (sc_bucket c) w" "world_ok w"
  shows "cleanly fresh objs (sc_bucket c) (entries_ok fresh) (ListMediaPrefixes_steps fuel (pg_storage pf c)) w"
proof -
  let ?b = "sc_bucket c" and ?s = "pg_storage pf c"
  let ?I = "\<lambda>w. store_ok fresh objs ?b w \<and> world_ok w"
  let ?found = "\<lambda>contents. {m. \<exists>obj \<in> set contents. extractMediaPrefix (object_key obj) = Some m}"
  let ?Q = "\<lambda>(contents, next :: string option) w. \<forall>x \<in> ?found contents. entry_ok fresh w x"
  have page: "cleanly fresh objs ?b ?Q (atomic (s3_ListPage (st_s3 ?s) (st_bucket ?s) ''users/'' tok)) v"
    if v: "?I v" for tok v
    unfolding pg_storage_simps
  proof (rule cleanly_page [OF lists])
    fix w' contents and "next" :: "string option" and w'' v'
    assume w': "others_move fresh objs ?b v w'" and w'': "db w'' = db w'" and v': "others_move fresh objs ?b w'' v'"
      and keys: "\<forall>obj \<in> set contents. \<exists>k \<in> objs (env w') ?b. obj = Some k \<and> HasPrefix k ''users/''"
    from store_ok_stable [OF _ _ w'] v have at: "store_ok fresh objs ?b w'" "world_ok w'" by blast+
    have "entry_ok fresh v' (i, p)" if "(i, p) \<in> ?found contents" for i p
    proof -
      from that keys obtain k where k: "k \<in> objs (env w') ?b" "HasPrefix k ''users/''"
        "extractMediaPrefix k = Some (i, p)" by (auto simp: extract_object_key)
      with at(1) obtain owner j where o: "name_ok owner" "name_ok j" "media_object owner j k"
        by (auto simp: store_ok_def placed_def)
      with extract_media_object [OF o] k(3) have i: "j = i" "p = media_prefix owner i" by auto
      with at o k(1) have "listed fresh w' i" by (auto simp: listed_def store_ok_def)
      with w'' have "listed fresh w'' i" by (simp add: listed_def world_ok_def)
      from listed_stable [OF this v'] o i show ?thesis by (auto simp: entry_ok_def)
    qed
    then show "?Q (contents, next) v'" by auto
  qed
  have "cleanly fresh objs ?b (entries_ok fresh)
      (each_page_steps fuel ?s ''users/'' (\<lambda>contents acc. retT (fold add_prefix contents acc)) None []) w"
  proof (rule beside.safe_each_page [where I = ?I, OF page])
    show "cleanly fresh objs ?b (entries_ok fresh) (retT (fold add_prefix contents acc)) v"
      if "?Q (contents, next) v" "entries_ok fresh acc v" for contents "next" acc v
    proof (rule beside.safe_ret)
      fix v' assume "others_move fresh objs ?b v v'"
      moreover have "entries_ok fresh (fold add_prefix contents acc) v"
        using that set_fold_add_prefix [of contents acc] unfolding entries_ok_def by blast
      ultimately show "entries_ok fresh (fold add_prefix contents acc) v'" by (blast intro: entries_ok_stable)
    qed
    show "?I v'" if "?I v" "others_move fresh objs ?b v v'" for v v' using store_ok_stable that by blast
    show "?I w" "entries_ok fresh [] w" using ok by (simp_all add: entries_ok_def)
  qed (auto intro: entries_ok_stable)
  then show ?thesis unfolding ListMediaPrefixes_steps_def by simp
qed

lemma cleanly_existing:
  assumes keeps: "pool_keeps (pf_pool pf) objs" and "\<forall>i \<in> set (concat batches). listed fresh w i"
    and "\<forall>i \<in> D. i \<notin> set acc \<longrightarrow> gone fresh w i"
  shows "cleanly fresh objs b (\<lambda>existing w. \<forall>i \<in> D \<union> set (concat batches). i \<notin> set existing \<longrightarrow> gone fresh w i)
    (existing_ids_steps (pg_cleanup_service pf c n t) batches acc) w"
  using assms(2,3)
proof (induction batches arbitrary: acc D w)
  case Nil
  then show ?case by (auto intro: gone_stable)
next
  case (Cons ids batches)
  let ?s = "pg_cleanup_service pf c n t"
  let ?P = "\<lambda>chunk w. \<forall>i \<in> set ids. i \<notin> set chunk \<longrightarrow> gone fresh w i"
  have "cleanly fresh objs b ?P (atomic (mr_ListExistingIDs (mc_mediaRepo ?s) ids)) w"
  proof (rule beside.safe_atomic)
    fix w' r w''
    assume run: "mr_ListExistingIDs (mc_mediaRepo ?s) ids w' = (r, w'')"
    have "stays (unchanged db) (PostgresMedia_ListExistingIDs (pf_pool pf) ids)"
      unfolding PostgresMedia_ListExistingIDs_def
      by (intro same.stays_if same.stays_ret stays_reads media_reads) (simp add: unchanged_def)
    from staysD [OF this] staysD [OF pg_existing_keeps [OF keeps]] run have same: "db w'' = db w'"
      "objs (env w'') = objs (env w')" by (auto simp: unchanged_def)
    then show "spares_live objs b w' w''" by (simp add: spares_live_def)
    fix chunk v
    assume w': "others_move fresh objs b w w'" and r: "mr_ListExistingIDs (mc_mediaRepo ?s) ids w' = (Inr chunk, w'')"
      and v: "others_move fresh objs b w'' v"
    show "?P chunk v"
    proof (intro ballI impI)
      fix i
      assume i: "i \<in> set ids" "i \<notin> set chunk"
      with Cons.prems(1) w' have at: "listed fresh w' i" by (auto intro: listed_stable)
      with pg_media.ListExistingIDs_Inr [of w' "pf_pool pf" ids chunk w''] r i have "gone fresh w' i"
        by (auto simp: gone_def listed_def)
      with same have "gone fresh w'' i" by (simp add: gone_def listed_def world_ok_def)
      with v show "gone fresh v i" by (blast intro: gone_stable)
    qed
  qed
  then show ?case
    unfolding existing_ids_steps.simps
  proof (rule beside.safe_bind)
    fix chunk v
    assume v: "others_move fresh objs b w v" "?P chunk v"
    with Cons.prems have "\<forall>i \<in> set (concat batches). listed fresh v i"
      "\<forall>i \<in> D \<union> set ids. i \<notin> set (acc @ chunk) \<longrightarrow> gone fresh v i"
      by (auto intro: listed_stable gone_stable)
    from Cons.IH [OF this] show "cleanly fresh objs b
        (\<lambda>existing w. \<forall>i \<in> D \<union> set (concat (ids # batches)). i \<notin> set existing \<longrightarrow> gone fresh w i)
        (existing_ids_steps ?s batches (acc @ chunk)) v"
      by (simp add: Un_assoc)
  qed
qed

lemma cleanly_orphans:
  assumes lists: "lists_objects (pf_s3 pf) objs past" and del: "deletes_objects (pf_s3 pf) objs refused"
    and m: "prefixes_ok m" and "set ids \<subseteq> fst ` set m" and "\<forall>i \<in> set ids. i \<notin> set existing \<longrightarrow> gone fresh w i"
  shows "cleanly fresh objs (sc_bucket c) (\<lambda>_ _. True)
    (delete_orphans_steps fuel (pg_cleanup_service pf c n t) m existing ids deleted failed) w"
  using assms(4,5)
proof (induction ids arbitrary: deleted failed w)
  case (Cons i ids)
  have rest: "cleanly fresh objs (sc_bucket c) (\<lambda>_ _. True)
      (delete_orphans_steps fuel (pg_cleanup_service pf c n t) m existing ids d f) v"
    if "others_move fresh objs (sc_bucket c) w v" for d f v
    using Cons.prems that by (intro Cons.IH) (auto intro: gone_stable)
  show ?case
  proof (cases "i \<in> set existing")
    case True
    with rest [OF beside.rely.R_refl] show ?thesis by simp
  next
    case False
    from Cons.prems(1) prefixes_okD [OF m] obtain owner where o: "name_ok owner" "name_ok i"
        "map_of m i = Some (media_prefix owner i)" by (metis list.set_intros(1) subsetD)
    from Cons.prems(2) False have "gone fresh w i" by simp
    note del_i = beside.safe_attempt [OF cleanly_delete_prefix [OF lists del o(1,2) this]]
    show ?thesis
      using False o(3) by (auto simp: Let_def split: sum.splits intro!: beside.safe_bind [OF del_i] rest)
  qed
qed simp

lemma cleanly_RunOnce:
  assumes lists: "lists_objects (pf_s3 pf) objs past" and del: "deletes_objects (pf_s3 pf) objs refused"
    and keeps: "pool_keeps (pf_pool pf) objs" and order: "\<And>xs. mset (order xs) = mset xs"
    and ok: "world_ok w" "store_ok fresh objs (sc_bucket c) w"
  shows "cleanly fresh objs (sc_bucket c) (\<lambda>_ _. True) (RunOnce_steps fuel order (pg_cleanup_service pf c n t)) w"
  unfolding RunOnce_steps_def pg_cleanup_service_simps
proof (rule beside.safe_bind [OF cleanly_list [OF lists ok(2,1)]])
  fix m v
  assume v: "others_move fresh objs (sc_bucket c) w v" and m: "entries_ok fresh m v"
  let ?s = "pg_cleanup_service pf c n t" and ?ids = "filter (\<lambda>i. TrimSpace i \<noteq> []) (order (map fst m))"
  let ?batches = "chunks (nat (mc_batchSize ?s)) ?ids"
  have ids: "set ?ids \<subseteq> fst ` set m" using mset_eq_setD [OF order [of "map fst m"]] by auto
  have batches: "concat ?batches = ?ids" by (rule concat_chunks) simp
  from m have "prefixes_ok m" unfolding entries_ok_def entry_ok_def prefixes_ok_def by fastforce
  note orphans = cleanly_orphans [OF lists del this ids]
  from m ids have "\<forall>i \<in> set (concat ?batches). listed fresh v i"
    unfolding batches entries_ok_def entry_ok_def by blast
  note existing = cleanly_existing [OF keeps this, of "{}"]
  have "cleanly fresh objs (sc_bucket c) (\<lambda>_ _. True) (bindT (existing_ids_steps ?s ?batches []) (\<lambda>existing.
      bindT (delete_orphans_steps fuel ?s m existing ?ids 0 0) (\<lambda>(deleted, failed).
        retT (int (length ?ids), deleted, failed)))) v"
    by (rule beside.safe_bind [OF existing], simp, rule beside.safe_bind [OF orphans]) (auto simp: batches)
  then show "cleanly fresh objs (sc_bucket c) (\<lambda>_ _. True) (if m = [] then retT (0, 0, 0) else
      let ids = ?ids in bindT (existing_ids_steps ?s (chunks (nat (mc_batchSize ?s)) ids) []) (\<lambda>existing.
        bindT (delete_orphans_steps fuel ?s m existing ids 0 0) (\<lambda>(deleted, failed).
          retT (int (length ids), deleted, failed)))) v"
    by (simp add: Let_def)
qed

end
