(* ===== verification/Cleanup_Properties.thy ===== *)
theory Cleanup_Properties
  imports Cleanup_Steps App_Properties Storage_Properties Issued
begin

text \<open>
  What holds of the clean-up while the rest of the program goes on.
\<close>

text \<open>
  What the program does meanwhile is what the others may do: rows develop, and a media that appears has an
  identifier that the random source yields. Where objects appear is up to the store and its clients.
\<close>

lemma step_others_move:
  assumes on: "app_on pf libs cfg app" and ids: "drawn_ids (pf_crypto pf) \<subseteq> fresh"
    and step: "app_step cx mx app v v'"
    and store: "world_ok v \<Longrightarrow> store_ok fresh objs b v \<Longrightarrow> store_ok fresh objs b v'"
  shows "others_move fresh objs b v v'"
proof -
  have dev: "media_develop v v'" by (rule media_dev_frame.step_in [OF program_develops(2) on step])
  have "i \<in> fresh" if ok: "world_ok v" and new: "media_row v i = None" "media_row v' i = Some m" for i m
  proof -
    from step_media_issues [OF ids on step] ok have ok': "world_ok v'"
      and sub: "issued media_row media_ID v' \<subseteq> issued media_row media_ID v \<union> fresh" by (simp_all add: issues_def)
    from pg_media.media_at_ID [OF ok' new(2)] new(2) have "i \<in> issued media_row media_ID v'" by (auto simp: issued_def)
    moreover have "i \<notin> issued media_row media_ID v"
      using pg_media.media_at_ID [OF ok] new(1) by (fastforce simp: issued_def)
    ultimately show ?thesis using sub by blast
  qed
  with dev store show ?thesis by (auto simp: others_move_def)
qed

text \<open>
  C9. No call of a clean-up run deletes an object of a media that is live at that moment, whatever the
  program does between two of its calls (requests of any kind, jobs, other clean-ups, changes outside) and whatever
  the run has read before: also not one of a media that was registered, or an object that was
  uploaded, while it was running. The identifiers that are handed out are in \<open>fresh\<close>; and about the store it is
  assumed that an object with an identifier of \<open>fresh\<close> appears after its media is registered, and every
  object below \<open>users/\<close> where the program puts it.
\<close>

theorem cleanup_beside_others:
  assumes "world_ok w" and "store_ok fresh objs (sc_bucket (storage_of cfg)) w"
    and "lists_objects (pf_s3 pf) objs past" and "deletes_objects (pf_s3 pf) objs refused"
    and "pool_keeps (pf_pool pf) objs" and "\<And>xs. mset (order xs) = mset xs"
    and "app_on pf libs cfg app" and "drawn_ids (pf_crypto pf) \<subseteq> fresh"
    and "\<And>g v. Outside g \<in> set ms \<Longrightarrow> app_step cx mx app v (g v)"
    and "\<And>g v. Outside g \<in> set ms \<Longrightarrow> world_ok v \<Longrightarrow> store_ok fresh objs (sc_bucket (storage_of cfg)) v \<Longrightarrow>
      store_ok fresh objs (sc_bucket (storage_of cfg)) (g v)"
    and "schedule ms [RunOnce_steps fuel order (app_cleanup app)] w = ([t1], w1)"
    and "schedule [Turn 0] [t1] w1 = ([t2], w2)"
    and "live_object w1 k" and "k \<in> objs (env w1) (sc_bucket (storage_of cfg))"
  shows "k \<in> objs (env w2) (sc_bucket (storage_of cfg))"
proof -
  let ?b = "sc_bucket (storage_of cfg)"
  have job: "app_cleanup app = pg_cleanup_service pf (storage_of cfg) 0 0" using assms(7) by (simp add: app_on_def)
  have others: "others_move fresh objs ?b v (g v)" if "Outside g \<in> set ms" for g v
    by (rule step_others_move [OF assms(7,8) assms(9) [OF that] assms(10) [OF that]])
  have "cleanly fresh objs ?b (\<lambda>_ _. True) t1 w1 \<and> others_move fresh objs ?b w w1"
    by (rule beside.schedule_beside [OF assms(11) [unfolded job] cleanly_RunOnce [OF assms(3-6,1,2)]]) (rule others)
  then have "cleanly fresh objs ?b (\<lambda>_ _. True) t1 w1" ..
  from beside.turn_in_guarantee [OF assms(12) this] assms(13,14) show ?thesis by (simp add: spares_live_def)
qed

text \<open>While the clean-up runs, another object of the media \<open>film\<close> is uploaded.\<close>

abbreviation sample_new_object :: string where
  "sample_new_object \<equiv> ''users/alice/media/film/hls/s.ts''"

definition sample_upload :: "sample_env world \<Rightarrow> sample_env world" where
  "sample_upload w = w\<lparr>env := (env w)\<lparr>se_objects := (sample_new_object, []) # se_objects (env w)\<rparr>\<rparr>"

lemma sample_new_media:
  "media_object ''alice'' ''film'' sample_new_object" "HasPrefix sample_new_object ''users/''"
  by (simp_all add: media_object_def HasPrefix_def media_prefix_text sample_names)

text \<open>The identifiers the sample platform hands out begin with \<open>media_\<close>, those in its store do not.\<close>

lemma sample_not_drawn: "''film'' \<notin> drawn_ids cr" "''gone'' \<notin> drawn_ids cr"
  by (auto simp: drawn_ids_def)

lemma sample_upload_store:
  assumes "store_ok (drawn_ids cr) sample_objs b w"
  shows "store_ok (drawn_ids cr) sample_objs b (sample_upload w)"
proof -
  have objs: "sample_objs (env (sample_upload w)) b =
      (if b = ''bucket'' then insert sample_new_object (sample_objs (env w) b) else sample_objs (env w) b)"
    by (simp add: sample_upload_def sample_objs_def)
  have one: "i \<notin> drawn_ids cr" if "name_ok owner" "name_ok i" "media_object owner i sample_new_object" for owner i
    using extract_media_object [OF that] extract_media_object [OF sample_names(1,2) sample_new_media(1)]
      sample_not_drawn(1) [of cr] by auto
  have "db (sample_upload w) = db w" by (simp add: sample_upload_def)
  with assms one show ?thesis
    unfolding store_ok_def placed_def objs using sample_new_media sample_names(1,2) by (auto split: if_splits)
qed

lemma sample_store_ok: "store_ok (drawn_ids cr) sample_objs (sc_bucket sample_bucket) sample_stored"
proof -
  have film: "extractMediaPrefix ''users/alice/media/film/original/f.mp4'' = Some (''film'', media_prefix ''alice'' ''film'')"
    "extractMediaPrefix ''users/alice/media/gone/hls/s.ts'' = Some (''gone'', media_prefix ''alice'' ''gone'')"
    by (rule extract_media_object; simp add: sample_names media_object_def HasPrefix_def media_prefix_text)+
  have "i \<notin> drawn_ids cr" if "k \<in> sample_objs (env sample_stored) (sc_bucket sample_bucket)" "name_ok owner" "name_ok i"
    "media_object owner i k" for k owner i
    using extract_media_object [OF that(2-4)] that(1) film sample_not_drawn [of cr]
    by (auto simp: sample_objs_def sample_stored_def sample_bucket_def)
  with sample_placed show ?thesis by (auto simp: store_ok_def)
qed

text \<open>A program on the sample bucket.\<close>

definition sample_bucket_cfg :: Config where
  "sample_bucket_cfg = sample_cfg\<lparr>cf_AWS := (cf_AWS sample_cfg)\<lparr>ac_Bucket := ''bucket'', ac_Region := ''r'',
    ac_AccessKeyID := [], ac_SecretAccessKey := [], ac_Endpoint := [], ac_PathStyle := False, ac_PublicURL := []\<rparr>\<rparr>"

lemma sample_storage_of: "storage_of sample_bucket_cfg = sample_bucket"
  by (simp add: storage_of_def sample_bucket_cfg_def sample_bucket_def)

theorem cleanup_beside_others_witness:
  "sample_new_object \<in> sample_objs (env (snd (schedule [Turn 0, Outside sample_upload, Turn 0]
    [RunOnce_steps 2 id sample_cleanup] sample_stored))) ''bucket''"
proof -
  let ?ms = "[Turn 0, Outside sample_upload]" and ?app = "new_app sample_platform sample_libs sample_bucket_cfg None"
  let ?job = "RunOnce_steps 2 id (app_cleanup ?app)"
  have on: "app_on sample_platform sample_libs sample_bucket_cfg ?app" by (simp add: app_on_def new_app_def)
  have job: "app_cleanup ?app = sample_cleanup"
    by (simp add: new_app_def sample_storage_of sample_cleanup_def)
  obtain t1 w1 where run: "schedule ?ms [?job] sample_stored = ([t1], w1)" by (metis schedule_one)
  obtain t2 w2 where step: "schedule [Turn 0] [t1] w1 = ([t2], w2)" by (metis schedule_one)
  have "\<exists>f k. ?job = Step f k \<and> db (f sample_stored) = db sample_stored"
    unfolding job sample_cleanup_def
    by (simp add: RunOnce_steps_def ListMediaPrefixes_steps_def atomic_def sample_bucket_def ext_def eval_nat_numeral
        split: prod.splits)
  then obtain v where v: "w1 = sample_upload v" "db v = db sample_stored"
    using run by auto
  have "live_object w1 sample_new_object"
    using sample_names(1,2) sample_new_media(1) sample_film_row v
    by (auto simp: live_object_def sample_upload_def)
  moreover have "sample_new_object \<in> sample_objs (env w1) ''bucket''"
    by (simp add: v sample_upload_def sample_objs_def)
  moreover have bucket: "sc_bucket sample_bucket = ''bucket''" by (simp add: sample_bucket_def)
  moreover have "app_step sample_context sample_mux ?app u (g u)" if "Outside g \<in> set ?ms" for g u
    using that by (auto simp: sample_upload_def intro: step_outside)
  moreover have "store_ok (drawn_ids (pf_crypto sample_platform)) sample_objs ''bucket'' (g u)"
    if "Outside g \<in> set ?ms" "store_ok (drawn_ids (pf_crypto sample_platform)) sample_objs ''bucket'' u" for g u
    using that sample_upload_store by auto
  ultimately have "sample_new_object \<in> sample_objs (env w2) ''bucket''"
    using cleanup_beside_others [where cfg = sample_bucket_cfg and fresh = "drawn_ids (pf_crypto sample_platform)"
        and cx = sample_context and mx = sample_mux and ms = ?ms and k = sample_new_object, unfolded sample_storage_of,
        OF sample_stored_ok sample_store_ok sample_laws(1,4,5) _ on _ _ _ run step]
    by simp
  moreover have "schedule (?ms @ [Turn 0]) [?job] sample_stored = ([t2], w2)"
    unfolding schedule_append run using step by simp
  ultimately show ?thesis by (simp add: job)
qed

end
