(* ===== verification/Migrations.thy ===== *)
theory Migrations
  imports Store
begin

text \<open>
  \<open>migrations\<close>: the schema before and after the second migration, and the migration in both directions,
  statement by statement, on whatever the tables hold. Indexes, the extension and the trigger of the table
  of users are left out: they decide nothing about the rows that are there.
\<close>

subsection \<open>Tables under migration\<close>

text \<open>
  The table of rooms while its columns change: a row gives a value for every column, and \<open>SqlNull\<close> for
  a column the table does not have. A foreign key has a name, a column and the table it refers to.
\<close>

datatype sqlval = SqlNull | SqlText string | SqlStatus RoomStatus | SqlTime time

type_synonym sqlrow = "string \<Rightarrow> sqlval"

record sqltable =
  tb_columns :: "string list"
  tb_rows :: "sqlrow list"
  tb_notnull :: "string list"
  tb_fkeys :: "(string \<times> string \<times> string) list"

text \<open>The tables of the database; there may be no table of media yet.\<close>

record catalog =
  ct_users :: "User list"
  ct_sessions :: "Session list"
  ct_media :: "Media list option"
  ct_rooms :: sqltable

definition referenced :: "catalog \<Rightarrow> string \<Rightarrow> sqlval set" where
  "referenced ct t =
    (if t = ''users'' then SqlText ` user_ID ` set (ct_users ct)
     else if t = ''media'' then (case ct_media ct of None \<Rightarrow> {} | Some ms \<Rightarrow> SqlText ` media_ID ` set ms)
     else {})"

subsection \<open>Statements\<close>

text \<open>A statement changes the catalog, or fails and ends the migration, which is then rolled back.\<close>

type_synonym ddl = "catalog \<Rightarrow> catalog option"

definition on_rooms :: "(sqltable \<Rightarrow> sqltable) \<Rightarrow> ddl" where
  "on_rooms f ct = Some (ct\<lparr>ct_rooms := f (ct_rooms ct)\<rparr>)"

definition create_media :: ddl where
  "create_media ct = Some (case ct_media ct of None \<Rightarrow> ct\<lparr>ct_media := Some []\<rparr> | Some ms \<Rightarrow> ct)"

definition add_column :: "string \<Rightarrow> ddl" where
  "add_column c = on_rooms (\<lambda>t.
    if c \<in> set (tb_columns t) then t
    else t\<lparr>tb_columns := tb_columns t @ [c], tb_rows := map (\<lambda>r. r(c := SqlNull)) (tb_rows t)\<rparr>)"

definition drop_column :: "string \<Rightarrow> ddl" where
  "drop_column c = on_rooms (\<lambda>t.
    if c \<notin> set (tb_columns t) then t
    else t\<lparr>tb_columns := filter (\<lambda>d. d \<noteq> c) (tb_columns t), tb_rows := map (\<lambda>r. r(c := SqlNull)) (tb_rows t),
      tb_notnull := filter (\<lambda>d. d \<noteq> c) (tb_notnull t), tb_fkeys := filter (\<lambda>(n, d, u). d \<noteq> c) (tb_fkeys t)\<rparr>)"

definition update_rooms :: "(sqlrow \<Rightarrow> bool) \<Rightarrow> (sqlrow \<Rightarrow> sqlrow) \<Rightarrow> ddl" where
  "update_rooms P f = on_rooms (\<lambda>t. t\<lparr>tb_rows := map (\<lambda>r. if P r then f r else r) (tb_rows t)\<rparr>)"

definition set_not_null :: "string \<Rightarrow> ddl" where
  "set_not_null c ct =
    (if \<exists>r \<in> set (tb_rows (ct_rooms ct)). r c = SqlNull then None
     else on_rooms (\<lambda>t. t\<lparr>tb_notnull := (if c \<in> set (tb_notnull t) then tb_notnull t else tb_notnull t @ [c])\<rparr>) ct)"

definition add_fkey :: "string \<Rightarrow> string \<Rightarrow> string \<Rightarrow> ddl" where
  "add_fkey n c u ct =
    (if n \<in> fst ` set (tb_fkeys (ct_rooms ct)) then Some ct
     else if \<exists>r \<in> set (tb_rows (ct_rooms ct)). r c \<noteq> SqlNull \<and> r c \<notin> referenced ct u then None
     else on_rooms (\<lambda>t. t\<lparr>tb_fkeys := tb_fkeys t @ [(n, c, u)]\<rparr>) ct)"

definition drop_fkey :: "string \<Rightarrow> ddl" where
  "drop_fkey n = on_rooms (\<lambda>t. t\<lparr>tb_fkeys := filter (\<lambda>k. fst k \<noteq> n) (tb_fkeys t)\<rparr>)"

definition drop_media :: ddl where
  "drop_media ct =
    (if \<exists>(n, c, u) \<in> set (tb_fkeys (ct_rooms ct)). u = ''media'' then None else Some (ct\<lparr>ct_media := None\<rparr>))"

fun migrate :: "ddl list \<Rightarrow> ddl" where
  "migrate [] ct = Some ct"
| "migrate (s # ss) ct = (case s ct of None \<Rightarrow> None | Some ct' \<Rightarrow> migrate ss ct')"

subsection \<open>The second migration\<close>

text \<open>The block that copies the owner looks first whether there is a column to copy from.\<close>

definition copy_owner :: ddl where
  "copy_owner ct =
    (if ''user_id'' \<in> set (tb_columns (ct_rooms ct))
     then update_rooms (\<lambda>r. r ''owner_user_id'' = SqlNull) (\<lambda>r. r(''owner_user_id'' := r ''user_id'')) ct
     else Some ct)"

definition migration_002_up :: "ddl list" where
  "migration_002_up =
    [create_media, add_column ''owner_user_id'', add_column ''media_id'', copy_owner,
     set_not_null ''owner_user_id'',
     add_fkey ''rooms_owner_user_id_fkey'' ''owner_user_id'' ''users'',
     add_fkey ''rooms_media_id_fkey'' ''media_id'' ''media'',
     drop_column ''created_by'', drop_column ''user_id'']"

definition migration_002_down :: "ddl list" where
  "migration_002_down =
    [add_column ''created_by'', add_column ''user_id'',
     update_rooms (\<lambda>r. r ''owner_user_id'' \<noteq> SqlNull)
       (\<lambda>r. r(''created_by'' := r ''owner_user_id'', ''user_id'' := r ''owner_user_id'')),
     drop_fkey ''rooms_media_id_fkey'', drop_fkey ''rooms_owner_user_id_fkey'',
     drop_column ''media_id'', drop_column ''owner_user_id'', drop_media]"

subsection \<open>The schemas\<close>

text \<open>A room as the first migration has it, and the catalog with such rooms.\<close>

record Room_001 =
  r1_ID :: string
  r1_Name :: string
  r1_CreatedBy :: string
  r1_UserID :: string
  r1_Status :: RoomStatus
  r1_CreatedAt :: time
  r1_EndedAt :: "time option"

definition sql_time :: "time option \<Rightarrow> sqlval" where
  "sql_time t = (case t of None \<Rightarrow> SqlNull | Some x \<Rightarrow> SqlTime x)"

definition sql_text :: "string option \<Rightarrow> sqlval" where
  "sql_text t = (case t of None \<Rightarrow> SqlNull | Some x \<Rightarrow> SqlText x)"

definition row_001 :: "Room_001 \<Rightarrow> sqlrow" where
  "row_001 r = (\<lambda>_. SqlNull)(''id'' := SqlText (r1_ID r), ''name'' := SqlText (r1_Name r),
    ''created_by'' := SqlText (r1_CreatedBy r), ''user_id'' := SqlText (r1_UserID r),
    ''status'' := SqlStatus (r1_Status r), ''created_at'' := SqlTime (r1_CreatedAt r),
    ''ended_at'' := sql_time (r1_EndedAt r))"

definition catalog_001 :: "User list \<Rightarrow> Session list \<Rightarrow> Room_001 list \<Rightarrow> catalog" where
  "catalog_001 us ss rs =
    \<lparr>ct_users = us, ct_sessions = ss, ct_media = None,
     ct_rooms = \<lparr>tb_columns = [''id'', ''name'', ''created_by'', ''user_id'', ''status'', ''created_at'', ''ended_at''],
       tb_rows = map row_001 rs,
       tb_notnull = [''id'', ''name'', ''created_by'', ''user_id'', ''status'', ''created_at''],
       tb_fkeys = [(''rooms_user_id_fkey'', ''user_id'', ''users'')]\<rparr>\<rparr>"

text \<open>The catalog after both migrations, with the rows of the tables the program works on.\<close>

definition row_002 :: "Room \<Rightarrow> sqlrow" where
  "row_002 r = (\<lambda>_. SqlNull)(''id'' := SqlText (room_ID r), ''name'' := SqlText (room_Name r),
    ''status'' := SqlStatus (room_Status r), ''created_at'' := SqlTime (room_CreatedAt r),
    ''ended_at'' := sql_time (room_EndedAt r), ''owner_user_id'' := SqlText (room_OwnerUserID r),
    ''media_id'' := sql_text (room_MediaID r))"

definition catalog_002 :: "db \<Rightarrow> catalog" where
  "catalog_002 d =
    \<lparr>ct_users = users_tbl d, ct_sessions = sessions_tbl d, ct_media = Some (media_tbl d),
     ct_rooms = \<lparr>tb_columns = [''id'', ''name'', ''status'', ''created_at'', ''ended_at'', ''owner_user_id'', ''media_id''],
       tb_rows = map row_002 (rooms_tbl d),
       tb_notnull = [''id'', ''name'', ''status'', ''created_at'', ''owner_user_id''],
       tb_fkeys = [(''rooms_owner_user_id_fkey'', ''owner_user_id'', ''users''),
         (''rooms_media_id_fkey'', ''media_id'', ''media'')]\<rparr>\<rparr>"

text \<open>What the first schema guarantees of its rows.\<close>

definition ok_001 :: "User list \<Rightarrow> Session list \<Rightarrow> Room_001 list \<Rightarrow> bool" where
  "ok_001 us ss rs \<longleftrightarrow> distinct (map user_ID us) \<and> distinct (map user_Email us) \<and> distinct (map sess_ID ss) \<and>
    distinct (map sess_RefreshTokenHash ss) \<and> distinct (map sess_AccessJTI ss) \<and> distinct (map r1_ID rs) \<and>
    (\<forall>s \<in> set ss. sess_UserID s \<in> user_ID ` set us) \<and> (\<forall>r \<in> set rs. r1_UserID r \<in> user_ID ` set us)"

text \<open>A room of the first schema in the second, and back: the owner stands for the creator.\<close>

definition room_002 :: "Room_001 \<Rightarrow> Room" where
  "room_002 r = \<lparr>room_ID = r1_ID r, room_Name = r1_Name r, room_OwnerUserID = r1_UserID r, room_MediaID = None,
    room_Status = r1_Status r, room_CreatedAt = r1_CreatedAt r, room_EndedAt = r1_EndedAt r\<rparr>"

definition room_001 :: "Room \<Rightarrow> Room_001" where
  "room_001 r = \<lparr>r1_ID = room_ID r, r1_Name = room_Name r, r1_CreatedBy = room_OwnerUserID r,
    r1_UserID = room_OwnerUserID r, r1_Status = room_Status r, r1_CreatedAt = room_CreatedAt r,
    r1_EndedAt = room_EndedAt r\<rparr>"

definition db_002 :: "User list \<Rightarrow> Session list \<Rightarrow> Room_001 list \<Rightarrow> db" where
  "db_002 us ss rs = \<lparr>media_tbl = [], rooms_tbl = map room_002 rs, users_tbl = us, sessions_tbl = ss\<rparr>"

text \<open>The table of rooms after the way back.\<close>

definition rooms_down :: "Room list \<Rightarrow> sqltable" where
  "rooms_down rs =
    \<lparr>tb_columns = [''id'', ''name'', ''status'', ''created_at'', ''ended_at'', ''created_by'', ''user_id''],
     tb_rows = map (\<lambda>r. row_001 (room_001 r)) rs,
     tb_notnull = [''id'', ''name'', ''status'', ''created_at''], tb_fkeys = []\<rparr>"

lemmas ddl_defs = on_rooms_def create_media_def add_column_def drop_column_def update_rooms_def set_not_null_def
  add_fkey_def drop_fkey_def drop_media_def copy_owner_def referenced_def

lemma db_002_ok: "ok_001 us ss rs \<Longrightarrow> db_ok (db_002 us ss rs)"
  by (auto simp: ok_001_def db_ok_def db_unique_def db_foreign_def db_002_def room_002_def o_def)

lemma migrate_up:
  assumes "ok_001 us ss rs"
  shows "migrate migration_002_up (catalog_001 us ss rs) = Some (catalog_002 (db_002 us ss rs))"
  using assms
  by (auto simp: migration_002_up_def ddl_defs catalog_001_def catalog_002_def db_002_def ok_001_def
      row_001_def row_002_def room_002_def sql_text_def fun_eq_iff)

lemma migrate_down:
  "migrate migration_002_down (catalog_002 d) =
    Some \<lparr>ct_users = users_tbl d, ct_sessions = sessions_tbl d, ct_media = None, ct_rooms = rooms_down (rooms_tbl d)\<rparr>"
  by (auto simp: migration_002_down_def ddl_defs catalog_002_def rooms_down_def
      row_001_def row_002_def room_001_def fun_eq_iff)

lemma migrate_again:
  assumes "db_ok d"
  shows "migrate migration_002_up
      \<lparr>ct_users = users_tbl d, ct_sessions = sessions_tbl d, ct_media = None, ct_rooms = rooms_down (rooms_tbl d)\<rparr> =
    Some (catalog_002 (d\<lparr>media_tbl := [], rooms_tbl := map (\<lambda>r. r\<lparr>room_MediaID := None\<rparr>) (rooms_tbl d)\<rparr>))"
  using assms
  by (auto simp: migration_002_up_def ddl_defs catalog_002_def rooms_down_def db_ok_def db_foreign_def
      row_001_def row_002_def room_001_def sql_text_def fun_eq_iff)

lemma migrate_append:
  "migrate (ss @ ss') ct = (case migrate ss ct of None \<Rightarrow> None | Some ct' \<Rightarrow> migrate ss' ct')"
  by (induction ss arbitrary: ct) (auto split: option.splits)

subsection \<open>The property\<close>

text \<open>
  C10. On every content the first schema allows, the second migration succeeds and leaves the tables as the
  program expects them: the same users and sessions, no media, every room with its user as owner and no
  media, all constraints met. The way back succeeds too and restores the columns and the values of every room, but
  for the creator, who is now the owner; it does not restore the schema: \<open>created_by\<close> and \<open>user_id\<close> are last
  and may be null, and \<open>user_id\<close> no longer refers to the users. Migrating once more gives the same tables again.
  Indexes, column types and defaults are not part of the model.
\<close>

theorem migration_002_roundtrip:
  assumes "ok_001 us ss rs"
  shows "migrate migration_002_up (catalog_001 us ss rs) = Some (catalog_002 (db_002 us ss rs)) \<and>
    db_ok (db_002 us ss rs) \<and>
    migrate (migration_002_up @ migration_002_down) (catalog_001 us ss rs) =
      Some \<lparr>ct_users = us, ct_sessions = ss, ct_media = None,
        ct_rooms = \<lparr>tb_columns = [''id'', ''name'', ''status'', ''created_at'', ''ended_at'', ''created_by'', ''user_id''],
          tb_rows = map row_001 (map (\<lambda>r. r\<lparr>r1_CreatedBy := r1_UserID r\<rparr>) rs),
          tb_notnull = [''id'', ''name'', ''status'', ''created_at''], tb_fkeys = []\<rparr>\<rparr> \<and>
    set (tb_columns (ct_rooms (catalog_001 us ss rs))) =
      set [''id'', ''name'', ''status'', ''created_at'', ''ended_at'', ''created_by'', ''user_id''] \<and>
    set (tb_notnull (ct_rooms (catalog_001 us ss rs))) =
      set [''id'', ''name'', ''status'', ''created_at''] \<union> {''created_by'', ''user_id''} \<and>
    migrate (migration_002_up @ migration_002_down @ migration_002_up) (catalog_001 us ss rs) =
      Some (catalog_002 (db_002 us ss rs))"
proof -
  have restored: "room_001 (room_002 r) = r\<lparr>r1_CreatedBy := r1_UserID r\<rparr>" for r
    by (simp add: room_001_def room_002_def)
  have same: "(db_002 us ss rs)\<lparr>media_tbl := [], rooms_tbl := map (\<lambda>r. r\<lparr>room_MediaID := None\<rparr>) (rooms_tbl (db_002 us ss rs))\<rparr> =
      db_002 us ss rs"
    by (simp add: db_002_def room_002_def)
  have "migrate migration_002_up
      \<lparr>ct_users = us, ct_sessions = ss, ct_media = None, ct_rooms = rooms_down (map room_002 rs)\<rparr> =
      Some (catalog_002 (db_002 us ss rs))"
    using migrate_again [OF db_002_ok [OF assms]] unfolding same by (simp only: db_002_def db.simps)
  with migrate_up [OF assms] migrate_down [of "db_002 us ss rs"] db_002_ok [OF assms] show ?thesis
    by (auto simp: migrate_append db_002_def catalog_001_def rooms_down_def restored)
qed

definition sample_room_001 :: Room_001 where
  "sample_room_001 = \<lparr>r1_ID = ''r1'', r1_Name = ''hall'', r1_CreatedBy = ''Alice'', r1_UserID = ''alice'',
    r1_Status = RoomActive, r1_CreatedAt = 0, r1_EndedAt = None\<rparr>"

definition sample_user_001 :: User where
  "sample_user_001 = \<lparr>user_ID = ''alice'', user_Name = ''Alice'', user_Email = ''a@x'',
    user_EmailConfirmed = False, user_PasswordHash = ''hash of pw'', user_CreatedAt = 0\<rparr>"

theorem migration_002_roundtrip_witness:
  "\<exists>ct. migrate (migration_002_up @ migration_002_down) (catalog_001 [sample_user_001] [] [sample_room_001]) = Some ct \<and>
    map (\<lambda>r. (r ''user_id'', r ''created_by'')) (tb_rows (ct_rooms ct)) = [(SqlText ''alice'', SqlText ''alice'')]"
proof -
  have "ok_001 [sample_user_001] [] [sample_room_001]"
    by (simp add: ok_001_def sample_user_001_def sample_room_001_def)
  from migration_002_roundtrip [OF this] show ?thesis by (simp add: row_001_def sample_room_001_def)
qed

end
