(* ===== verification/Spec2Isabelle.thy ===== *)
theory Spec2Isabelle
  imports Room_Properties Auth_Properties Storage_Properties Transcoder_Properties
    Media_Properties Presence_Properties App_Properties Lifetime_Properties Race_Properties
    Cleanup_Properties Migrations
begin

text \<open>
  Calixio is the backend of a video conference in Go. Users register and log in, create rooms that
  LiveKit serves, upload films to an object store, have them transcoded to HLS, and watch them
  together: a room is in conference or movie mode, its host moves the playback, and everybody reads
  the host's state. This development models the backend, from the start of the process and the
  routes down to the SQL statements, and proves what each part promises and what holds of the whole.

  \<^bold>\<open>Parts of the program and theories\<close>

  \<^item> Go itself: \<open>Prelude\<close> (lists and keyed rows, times, 64-bit integers, the fact collections),
    \<open>Go_Strings\<close> (package \<open>strings\<close> on bytes, UTF-8 blanks, hex), \<open>Go_Numbers\<close> (\<open>strconv\<close>,
    \<open>utf8.RuneCount\<close>), \<open>Go_Path\<close> (\<open>path\<close>), \<open>Go_Effects\<close> (functions with an error, the error
    values, and relations that a function keeps), \<open>Threads\<close> (functions cut at their calls, schedules,
    rely and guarantee).
  \<^item> \<open>internal/repository\<close> and \<open>migrations\<close>: \<open>Store\<close> has the rows of the four tables, the
    constraints (\<open>db_ok\<close>), the world (tables, job queue, environment) and how a statement runs;
    \<open>Room_Repository\<close>, \<open>Media_Repository\<close> and \<open>Auth_Repository\<close> (users and sessions) have a
    definition per statement and per method, and a locale with the laws the services rely on;
    \<open>Migrations\<close> has the second migration, statement by statement, on tables whose columns change.
  \<^item> \<open>internal/livekit\<close>: \<open>Livekit_Client\<close>. The other things outside the program: \<open>Externals\<close>.
  \<^item> \<open>internal/service\<close>: \<open>Room_Service\<close>, \<open>Room_Playback\<close>, \<open>Webhook\<close>, \<open>Auth_Service\<close>,
    \<open>Storage_Service\<close> with \<open>Storage_Keys\<close> (the layout of the object store), \<open>Media_Upload\<close> with
    \<open>Media_Playback\<close> (signed manifests and the playback cache), \<open>Media_Transcoder\<close>,
    \<open>Media_Cleanup\<close>.
  \<^item> \<open>internal/http\<close>: \<open>Authn\<close> (access tokens), \<open>Http_Base\<close> (requests, responses, JSON), \<open>Dto\<close>
    (bodies and their validation), \<open>Http_Auth\<close> (middleware), \<open>Auth_Handler\<close>, \<open>Files_Handler\<close>,
    \<open>Rooms_Handler\<close> (and the webhook's), \<open>Router\<close> (routes, guards, CORS options, the log).
  \<^item> \<open>internal/config\<close>: \<open>Config\<close>. \<open>cmd/api/main.go\<close>: \<open>App\<close> (the start and how it fails, the wiring, the
    ticks of the jobs, the end), and \<open>System\<close> for the program as it runs, started as often as it may be.
  \<^item> What runs at the same time: \<open>Ownership\<close> and \<open>Interleaving\<close> for what requests do to the rows of
    others, one by one and side by side; \<open>Cleanup_Steps\<close> for the clean-up beside everything else. \<open>Issued\<close>
    has the values the program draws from entropy, which never come back unless they are drawn again.

  \<^bold>\<open>How the model follows the code\<close>

  Definitions have the names of the functions and methods; where two methods share a name, the type
  comes first (\<open>PostgresRoom_EndRoom\<close>, \<open>Client_CreateRoom\<close>, \<open>Handler_EndRoom\<close>). Structs are records
  and named constants are datatypes or definitions. A function with an error is a \<open>prog\<close>: from a
  state to an error or a result, and the new state, so that what happened before an error stays
  done. A handler is a total function from a request and a state to a response and a state. The
  fields of a service are its parameters, and the repositories, clients and clocks it gets are
  records of functions, as Go's interfaces are; \<open>pg_room_service\<close> and its like are the services as
  \<open>main\<close> builds them over one \<open>platform\<close>.

  The state of the program is a \<open>world\<close>: the tables, the queue of the transcoder and the environment,
  about which nothing is known but what the laws named in a theorem say (\<open>lists_objects\<close>, \<open>lists_onward\<close>,
  \<open>deletes_objects\<close>, \<open>redis_store\<close>, \<open>redis_holds\<close>, \<open>redis_sets\<close> and so on, each a documented behaviour of
  the service: a batch delete, for one, may succeed and name keys that it has not deleted). The database may refuse a statement, or carry it out and lose the answer; every
  property holds in the presence of both unless it says otherwise.

  \<^bold>\<open>Interfaces\<close>

  Every repository and every service with an invariant is a locale, interpreted on the code's own
  model in the theory that provides it (\<open>pg_rooms\<close>, \<open>pg_media\<close>, \<open>pg_users\<close>, \<open>pg_sessions\<close>, \<open>pg_room\<close>,
  \<open>pg_auth\<close>, \<open>pg_cleanup\<close>, \<open>pg_upload\<close>, \<open>pg_playback\<close>). The laws of an updating call are one
  predicate, \<open>update_law\<close>. What a call never does is a relation between states, and the
  locale \<open>world_order\<close> carries a relation through the control flow of the code; \<open>row_order\<close> makes
  such relations from a relation on rows (\<open>develops\<close>). In \<open>Frames\<close>, \<open>outer_frame\<close> carries those that
  hold whenever tables and queue stay, and \<open>data_frame\<close> those that look at the tables only, through every
  operation of every service. The locale \<open>interference\<close> is the parallel rule for threads whose steps keep
  a guarantee under what the others do; it is interpreted for owners (\<open>Interleaving\<close>) and for the clean-up.

  \<^bold>\<open>What is proved\<close>

  \<^item> \<open>App_Properties\<close>, over \<open>System\<close> and \<open>Ownership\<close>: whatever the program and the world outside do, in
    whatever order and over however many starts, the tables keep their constraints and rows only develop: ended rooms
    stay ended, deleted media and revoked sessions stay as they are, owners never change. A request
    changes no row of a user it is not signed in as; without a token that is accepted it gets past
    no guard. What a login's answer carries, and what a configuration that loads is like.
  \<^item> \<open>Lifetime_Properties\<close>: how a process begins, with every call that can end it and those that have answered
    before; that the jobs of a process are lost with it; and that a refresh token that was used is worthless
    whatever the program does afterwards.
  \<^item> \<open>Race_Properties\<close>, over \<open>Interleaving\<close>: the six requests that check what is stored and then write, cut at
    every call, are the methods when run alone; interleaved in any way they still spare the rows of other
    users and let sessions only develop. Runs on the sample platform show what goes wrong: two refreshes with
    one token can both succeed, two playback states can get one version, and a room that is over can get a media.
  \<^item> \<open>Cleanup_Properties\<close>: whatever the program does between two of its calls, the clean-up deletes no object
    of a media that is live at that moment. What is assumed of others is where and when objects appear.
  \<^item> \<open>Migrations\<close>: the second migration succeeds on every content of the first schema and gives the tables
    \<open>db_ok\<close> asks for; what its way back restores, and which constraints it loses.
  \<^item> \<open>Room_Properties\<close>: who ends a room and what that changes, whom a LiveKit token is handed out to,
    the guards of the room's mode, the job that ends stale rooms and its counts.
  \<^item> \<open>Auth_Properties\<close>: the one session a login opens, refusals, the rotation of refresh tokens, and
    addresses that are taken.
  \<^item> \<open>Storage_Properties\<close>: deletion by prefix touches nothing else, over all pages and batches, and what it
    can leave behind; it ends; keys are read back; the clean-up spares every live media whatever fails, its
    counts add up, and it deletes every orphan but for the same exceptions.
  \<^item> \<open>Media_Properties\<close>: what an upload registers and where its object lies, completion, ownership,
    purge before deletion, manifests line by line, the truth of the playback cache and whom it serves.
  \<^item> \<open>Transcoder_Properties\<close>: the bounded queue, retries, the tail of a process's output against its
    specification, and that a job settles its media and touches no other row of any table.
  \<^item> \<open>Presence_Properties\<close>: versions and guards of the playback state, that it is read back, and that
    the sets in Redis are the participants the events imply.

  The witnesses run on \<open>Sample_Platform\<close>, \<open>Sample_Media\<close> and the sample program of \<open>App_Properties\<close>.

  \<^bold>\<open>Bounds and fuel\<close>

  The only loops that may not end are those over the pages of a listing, since the store decides
  when there is no further page. They take fuel, a number of pages; running out of it is an error of its
  own, and \<open>DeleteObjectsByPrefix_returns\<close> proves that any fuel above the number of objects of the prefix is
  enough, by the law \<open>lists_onward\<close>: a page that is followed by another shows something new, and the token
  of the next lies behind it. All other loops are structural: the
  attempts of \<open>withRetry\<close>, the lists of rooms, keys, lines and directories. Integers of type \<open>int\<close> and
  \<open>int64\<close> are integers with \<open>wrap64\<close> written out where the code can overflow (versions of a
  playback state, differences of times); random bytes are 8-bit words.

  \<^bold>\<open>Not modelled\<close>

  \<^item> Code that is not in the repository is a parameter: the pgx pool, Redis, S3, the LiveKit SDK, JWT
    signing, bcrypt, SHA-256, UUIDs, random bytes, the clock, files and processes, JSON syntax, the
    validator's rule for addresses, RFC 3339, \<open>time.ParseDuration\<close>, chi's matching of paths and the package
    \<open>cors\<close>. chi's own middlewares \<open>RequestID\<close>, \<open>RealIP\<close>, \<open>Recoverer\<close> and \<open>Timeout\<close> are left out: no handler
    reads what the first two set, nothing that is modelled panics, and a deadline is a call that fails.
  \<^item> Logging, but for the line of a request and the lines that tell how a job or the server has ended. The
    listening socket, the tickers and the signals are the runtime's: a tick can come at any time.
  \<^item> Of the schema, indexes, the extension, the trigger of the table of users and what happens on the deletion
    of a user, since the program deletes no row; of the first migration only the tables it leaves.
  \<^item> Requests and jobs are atomic steps of \<open>System\<close>. Interleaving at the calls is modelled for the six
    requests of \<open>Interleaving\<close> and for the clean-up, not for uploads, logins, the transcoder and the job
    that ends stale rooms; a statement of the database is always one step.
  \<^item> Deadlines and cancellation are calls that fail. Panics do not occur in the code that is modelled.
\<close>

end
